(* ===== verification/Tool_Types.thy ===== *)
theory Tool_Types
  imports Prelude
begin

text \<open>
  The data a tool, the authorizer and the orchestrator exchange: tool kinds
  (\<open>orchestrator/tool_kinds.py\<close>), JSON inputs, permission suggestions (\<open>tools/types.py\<close>), the
  per-call authorization context (\<open>tool_authz/types.py\<close>), and the tool contract itself
  (\<open>tools/tool.py\<close>) as a record of its attributes and methods. A method may raise, so it returns a
  result.
\<close>

section \<open>Tool kinds\<close>

datatype tool_kind =
  Read | Search | Fetch | Think | Orchestrate | Edit | Delete | Move | Execute | Other

definition is_read_only :: "tool_kind \<Rightarrow> bool" where
  "is_read_only k \<longleftrightarrow> k \<in> {Read, Search, Fetch, Think}"

text \<open>\<open>_is_mutating\<close>, written out twice in the code (authorizer and registry).\<close>

definition is_mutating :: "tool_kind \<Rightarrow> bool" where
  "is_mutating k \<longleftrightarrow> k \<in> {Edit, Delete, Move, Execute}"

lemma read_only_not_mutating [simp]: "is_read_only k \<Longrightarrow> \<not> is_mutating k"
  by (auto simp: is_read_only_def is_mutating_def)

section \<open>Tool inputs\<close>

text \<open>A tool input is the JSON object the model sends; keys are looked up with \<open>map_of\<close>.\<close>

datatype json =
  JNull | JBool bool | JInt int | JFloat rat | JStr string
| JArr "json list" | JObj "(string \<times> json) list"

type_synonym dict = "(string \<times> json) list"

section \<open>Risk and permission suggestions\<close>

datatype risk = Low | Medium | High

instantiation risk :: linorder
begin

fun risk_rank :: "risk \<Rightarrow> nat" where
  "risk_rank Low = 0"
| "risk_rank Medium = 1"
| "risk_rank High = 2"

definition less_eq_risk :: "risk \<Rightarrow> risk \<Rightarrow> bool" where
  "less_eq_risk a b \<longleftrightarrow> risk_rank a \<le> risk_rank b"

definition less_risk :: "risk \<Rightarrow> risk \<Rightarrow> bool" where
  "less_risk a b \<longleftrightarrow> risk_rank a < risk_rank b"

instance
proof
  fix a b :: risk
  show "a \<le> b \<Longrightarrow> b \<le> a \<Longrightarrow> a = b"
    by (cases a; cases b) (simp_all add: less_eq_risk_def)
qed (auto simp: less_eq_risk_def less_risk_def)

end

datatype behavior = Allow | Deny | Ask

record suggestion =
  sg_risk :: risk
  sg_decision :: behavior
  sg_reason :: string

section \<open>The authorization context\<close>

datatype permission_mode = Default | Plan | Bypass | Accept_Edits | Auto | Dont_Ask

record authorize_context =
  ctx_session_id :: string
  ctx_agent_depth :: nat
  ctx_mode :: permission_mode
  ctx_cwd :: string
  ctx_connection_auth :: string
  should_avoid_prompts :: bool

section \<open>The tool contract\<close>

text \<open>
  \<open>t_matcher\<close> is \<open>prepare_permission_matcher\<close>: building the closure and calling it may both
  raise. Identity, schema and execution fields that no modelled code reads are left out.
\<close>

record tool =
  t_name :: string
  t_kind :: tool_kind
  t_aliases :: "string list"
  t_always_load :: bool
  t_max_result_size_chars :: nat
  t_concurrency_safe :: bool
  t_user_facing_name :: "dict \<Rightarrow> string result"
  t_activity_description :: "dict \<Rightarrow> string option result"
  t_is_destructive :: "dict \<Rightarrow> bool result"
  t_destructive_warning :: "dict \<Rightarrow> string option result"
  t_default_risk :: "dict \<Rightarrow> authorize_context \<Rightarrow> suggestion result"
  t_matcher :: "dict \<Rightarrow> (string \<Rightarrow> bool result) result"

text \<open>The defaults the abstract base class gives, for a tool of this name and kind.\<close>

definition base_default_risk :: "dict \<Rightarrow> authorize_context \<Rightarrow> suggestion result" where
  "base_default_risk inp ctx =
     Inr \<lparr>sg_risk = Low, sg_decision = Ask, sg_reason = ''no tool-specific risk rule defined''\<rparr>"

definition base_matcher :: "dict \<Rightarrow> (string \<Rightarrow> bool result) result" where
  "base_matcher inp = Inr (\<lambda>_. Inr False)"

definition base_tool :: "string \<Rightarrow> tool_kind \<Rightarrow> tool" where
  "base_tool n k = \<lparr>
     t_name = n, t_kind = k, t_aliases = [], t_always_load = False,
     t_max_result_size_chars = 100000, t_concurrency_safe = is_read_only k,
     t_user_facing_name = (\<lambda>_. Inr n), t_activity_description = (\<lambda>_. Inr None),
     t_is_destructive = (\<lambda>_. Inr False), t_destructive_warning = (\<lambda>_. Inr None),
     t_default_risk = base_default_risk, t_matcher = base_matcher\<rparr>"

text \<open>\<open>tools/matching.py\<close>: the one name test the registry and the rule engine share.\<close>

definition matches_name :: "tool \<Rightarrow> string \<Rightarrow> bool" where
  "matches_name t candidate \<longleftrightarrow> candidate = t_name t \<or> candidate \<in> set (t_aliases t)"

end
