(* ===== verification/Rules.thy ===== *)
theory Rules
  imports Tool_Types
begin

text \<open>
  Permission rules: the rule DSL (\<open>tool_authz/rule_parser.py\<close>) and the layered rule table
  (\<open>tool_authz/rule_store.py\<close>). The parser is shown to be the exact inverse of the escaping rules;
  the store is shown to hand out rules with globally unique ids and to keep its layers in order.
\<close>

section \<open>Rules\<close>

datatype rule_source = USER | PROJECT | LOCAL | FLAG

fun source_value :: "rule_source \<Rightarrow> string" where
  "source_value USER = ''user''"
| "source_value PROJECT = ''project''"
| "source_value LOCAL = ''local''"
| "source_value FLAG = ''flag''"

record rule_value =
  tool_name :: string
  rule_content :: "string option"

record permission_rule =
  source :: rule_source
  layer_index :: nat
  rule_id :: string
  rule_behavior :: behavior
  rvalue :: rule_value
  raw_dsl :: string

section \<open>The rule parser\<close>

abbreviation backslash :: char where "backslash \<equiv> CHR 0x5C"

text \<open>The characters the DSL escapes inside the parentheses.\<close>

definition needs_escape :: "char \<Rightarrow> bool" where
  "needs_escape c \<longleftrightarrow> c \<in> {CHR ''('', CHR '')'', backslash}"

text \<open>
  \<open>_unescape\<close>. The index loop reads left to right and raises at the first bad character, which is
  the recursion's order: each check precedes the recursive call.
\<close>

fun unescape :: "string \<Rightarrow> string result" where
  "unescape [] = Inr []"
| "unescape (ch # cs) =
     (if ch = backslash then
        (case cs of
           [] \<Rightarrow> Inl ''trailing backslash''
         | nxt # rest \<Rightarrow>
             if \<not> needs_escape nxt then Inl (''invalid escape: '' @ [backslash, nxt])
             else mapR (\<lambda>out. nxt # out) (unescape rest))
      else if ch = CHR ''('' \<or> ch = CHR '')'' then Inl (''unescaped paren inside content: '' @ [ch])
      else mapR (\<lambda>out. ch # out) (unescape cs))"

definition validate_tool_name :: "string \<Rightarrow> unit result" where
  "validate_tool_name n = (if n = [] then Inl ''empty tool name'' else Inr ())"

text \<open>
  \<open>_split_tool_and_content\<close>: \<open>takeWhile\<close> up to the first opening paren is the slice
  \<open>stripped[:open_idx]\<close>; the body drops it, the paren and the last character.
\<close>

definition split_tool_and_content :: "string \<Rightarrow> (string \<times> string option) result" where
  "split_tool_and_content raw =
     (let stripped = strip raw in
      if stripped = [] then Inl ''empty rule''
      else if CHR ''('' \<notin> set stripped then
        bindR (validate_tool_name stripped) (\<lambda>_. Inr (stripped, None))
      else
        let before = takeWhile (\<lambda>c. c \<noteq> CHR ''('') stripped;
            name = strip before
        in bindR (validate_tool_name name) (\<lambda>_.
           if last stripped \<noteq> CHR '')'' then Inl ''missing closing paren''
           else bindR (unescape (butlast (drop (Suc (length before)) stripped))) (\<lambda>content.
             if content = [] then Inl ''empty rule content''
             else Inr (name, Some content))))"

definition unparsed :: string where
  "unparsed = ''<unparsed>''"

definition parse_rule :: "string \<Rightarrow> behavior \<Rightarrow> rule_source \<Rightarrow> nat \<Rightarrow> permission_rule" where
  "parse_rule raw b src idx =
     (let rid = source_value src @ '':'' @ show_nat idx in
      case split_tool_and_content raw of
        Inl _ \<Rightarrow>
          \<lparr>source = src, layer_index = idx, rule_id = rid, rule_behavior = Deny,
           rvalue = \<lparr>tool_name = unparsed, rule_content = None\<rparr>, raw_dsl = raw\<rparr>
      | Inr (n, content) \<Rightarrow>
          \<lparr>source = src, layer_index = idx, rule_id = rid, rule_behavior = b,
           rvalue = \<lparr>tool_name = n, rule_content = content\<rparr>, raw_dsl = raw\<rparr>)"

section \<open>The rule store\<close>

record permissions_section =
  allow_rules :: "string list"
  deny_rules :: "string list"
  ask_rules :: "string list"
  bash_llm_judge_enabled :: bool
  bash_llm_judge_fail_closed :: bool

definition default_permissions_section :: permissions_section where
  "default_permissions_section = \<lparr>allow_rules = [], deny_rules = [], ask_rules = [],
     bash_llm_judge_enabled = True, bash_llm_judge_fail_closed = True\<rparr>"

text \<open>One of the three loops of \<open>_build_rules\<close>: rules numbered from \<open>idx\<close>.\<close>

fun build_from :: "behavior \<Rightarrow> rule_source \<Rightarrow> nat \<Rightarrow> string list \<Rightarrow> permission_rule list" where
  "build_from b src idx [] = []"
| "build_from b src idx (raw # raws) = parse_rule raw b src idx # build_from b src (Suc idx) raws"

definition build_rules ::
    "string list \<Rightarrow> string list \<Rightarrow> string list \<Rightarrow> rule_source \<Rightarrow> permission_rule list" where
  "build_rules allow deny ask src =
     build_from Deny src 0 deny
     @ build_from Ask src (length deny) ask
     @ build_from Allow src (length deny + length ask) allow"

definition parse_section :: "permissions_section \<Rightarrow> permission_rule list" where
  "parse_section s = build_rules (allow_rules s) (deny_rules s) (ask_rules s) USER"

record rule_store =
  config_rules :: "permission_rule list"
  flag_rules :: "permission_rule list"

definition empty_store :: rule_store where
  "empty_store = \<lparr>config_rules = [], flag_rules = []\<rparr>"

definition bind_config :: "permissions_section \<Rightarrow> rule_store \<Rightarrow> rule_store" where
  "bind_config sec st = st\<lparr>config_rules := parse_section sec\<rparr>"

text \<open>
  The \<open>changed\<close> handler. \<open>valid\<close> is whether the new section parses; a section of strings always
  does, and the handler keeps the old rules otherwise.
\<close>

definition on_config_change :: "permissions_section result \<Rightarrow> rule_store \<Rightarrow> rule_store" where
  "on_config_change new st =
     (case new of Inl _ \<Rightarrow> st | Inr sec \<Rightarrow> st\<lparr>config_rules := parse_section sec\<rparr>)"

definition load_flag_layer ::
    "string list \<Rightarrow> string list \<Rightarrow> string list \<Rightarrow> rule_store \<Rightarrow> rule_store" where
  "load_flag_layer allow deny ask st = st\<lparr>flag_rules := build_rules allow deny ask FLAG\<rparr>"

definition snapshot_rules :: "rule_store \<Rightarrow> permission_rule list" where
  "snapshot_rules st = config_rules st @ flag_rules st"

section \<open>The parser inverts the escaping rules\<close>

text \<open>The specification: how a content string is written between the parentheses.\<close>

definition escape_dsl :: "string \<Rightarrow> string" where
  "escape_dsl s = concat (map (\<lambda>c. if needs_escape c then [backslash, c] else [c]) s)"

lemma escape_dsl_simps [simp]:
  "escape_dsl [] = []"
  "escape_dsl (c # cs) = (if needs_escape c then [backslash, c] else [c]) @ escape_dsl cs"
  by (simp_all add: escape_dsl_def)

lemma unescape_escape [simp]: "unescape (escape_dsl s) = Inr s"
  by (induction s) (auto simp: needs_escape_def)

lemma escape_unescape: "unescape s = Inr t \<Longrightarrow> escape_dsl t = s"
proof (induction s arbitrary: t rule: unescape.induct)
  case (2 ch cs)
  show ?case
  proof (cases "ch = backslash")
    case True
    with "2.prems" obtain nxt rest out where "cs = nxt # rest" "needs_escape nxt"
      "t = nxt # out" "unescape rest = Inr out"
      by (auto simp: mapR_eq_Inr split: list.splits if_splits)
    with True "2.IH"(1) show ?thesis by simp
  next
    case False
    with "2.prems" obtain out where "\<not> needs_escape ch" "t = ch # out" "unescape cs = Inr out"
      by (auto simp: mapR_eq_Inr needs_escape_def split: if_splits)
    with False "2.IH"(2) show ?thesis by (auto simp: needs_escape_def)
  qed
qed simp

lemma takeWhile_paren:
  "CHR ''('' \<notin> set n \<Longrightarrow> takeWhile (\<lambda>c. c \<noteq> CHR ''('') (n @ CHR ''('' # rest) = n"
  by (induction n) auto

lemma takeWhile_paren_split:
  assumes "CHR ''('' \<in> set s"
  shows "s = takeWhile (\<lambda>c. c \<noteq> CHR ''('') s @ CHR ''('' #
              drop (Suc (length (takeWhile (\<lambda>c. c \<noteq> CHR ''('') s))) s"
  using assms by (induction s) auto

definition plain_name :: "string \<Rightarrow> bool" where
  "plain_name n \<longleftrightarrow> n \<noteq> [] \<and> CHR ''('' \<notin> set n \<and> \<not> py_space (hd n) \<and> \<not> py_space (last n)"

lemma py_space_parens [simp]: "\<not> py_space (CHR '')'')" "\<not> py_space (CHR ''('')"
  by (simp_all add: py_space_def)

lemma split_plain: "plain_name n \<Longrightarrow> split_tool_and_content n = Inr (n, None)"
  by (simp add: split_tool_and_content_def plain_name_def strip_id validate_tool_name_def)

lemma split_scoped:
  assumes "plain_name n" "c \<noteq> []"
  shows "split_tool_and_content (n @ ''('' @ escape_dsl c @ '')'') = Inr (n, Some c)"
proof -
  let ?s = "n @ ''('' @ escape_dsl c @ '')''"
  have strip: "strip ?s = ?s"
    using assms by (intro strip_id) (auto simp: plain_name_def)
  have name: "strip n = n"
    using assms by (simp add: plain_name_def strip_id)
  show ?thesis
    using assms strip by (simp add: split_tool_and_content_def takeWhile_paren name
        plain_name_def validate_tool_name_def)
qed

lemma split_scoped_iff:
  assumes "split_tool_and_content raw = Inr (n, Some c)"
  shows "\<exists>pre. strip raw = pre @ ''('' @ escape_dsl c @ '')'' \<and> n = strip pre
           \<and> CHR ''('' \<notin> set pre \<and> n \<noteq> [] \<and> c \<noteq> []"
proof -
  let ?s = "strip raw" and ?pre = "takeWhile (\<lambda>c. c \<noteq> CHR ''('') (strip raw)"
  let ?body = "drop (Suc (length ?pre)) ?s"
  from assms have paren: "CHR ''('' \<in> set ?s" and last: "last ?s = CHR '')''"
    and name: "n = strip ?pre" "n \<noteq> []" and c: "c \<noteq> []" "unescape (butlast ?body) = Inr c"
    by (auto simp: split_tool_and_content_def Let_def validate_tool_name_def bindR_eq_Inr
        split: if_splits)
  have eq: "?s = ?pre @ CHR ''('' # ?body"
    using paren by (rule takeWhile_paren_split)
  have "?body \<noteq> []"
  proof
    assume "?body = []"
    with eq have "last ?s = CHR ''(''" by (metis last_snoc)
    with last show False by simp
  qed
  then have "?body = butlast ?body @ [CHR '')'']"
    using last eq by (metis append_butlast_last_id last_ConsR last_appendR list.distinct(1))
  with eq c have "?s = ?pre @ ''('' @ escape_dsl c @ '')''"
    by (simp add: escape_unescape)
  moreover have "CHR ''('' \<notin> set ?pre"
    by (auto dest: set_takeWhileD)
  ultimately show ?thesis
    using name c by blast
qed

lemma parse_rule_Inl:
  "split_tool_and_content raw = Inl e \<Longrightarrow>
     tool_name (rvalue (parse_rule raw b src i)) = unparsed
     \<and> rule_behavior (parse_rule raw b src i) = Deny"
  by (simp add: parse_rule_def)

section \<open>Rule ids\<close>

lemma parse_rule_id [simp]: "rule_id (parse_rule raw b src i) = source_value src @ '':'' @ show_nat i"
  by (simp add: parse_rule_def Let_def split: sum.splits prod.splits)

lemma parse_rule_source [simp]: "source (parse_rule raw b src i) = src"
  by (simp add: parse_rule_def Let_def split: sum.splits prod.splits)

lemma build_from_ids:
  "map rule_id (build_from b src i raws) =
     map (\<lambda>j. source_value src @ '':'' @ show_nat j) [i ..< i + length raws]"
  by (induction raws arbitrary: i) (auto simp: upt_rec)

lemma length_build_from [simp]: "length (build_from b src i raws) = length raws"
  by (induction raws arbitrary: i) auto

lemma build_rules_ids:
  "map rule_id (build_rules a d k src) =
     map (\<lambda>j. source_value src @ '':'' @ show_nat j) [0 ..< length d + length k + length a]"
  unfolding build_rules_def map_append build_from_ids upt_split3 by simp

text \<open>The invariant of the store: each layer numbers its rules consecutively under its own source.\<close>

definition layer_ids :: "rule_source \<Rightarrow> permission_rule list \<Rightarrow> bool" where
  "layer_ids src rs \<longleftrightarrow>
     map rule_id rs = map (\<lambda>j. source_value src @ '':'' @ show_nat j) [0 ..< length rs]"

definition store_inv :: "rule_store \<Rightarrow> bool" where
  "store_inv st \<longleftrightarrow> layer_ids USER (config_rules st) \<and> layer_ids FLAG (flag_rules st)"

lemma layer_ids_build [simp]: "layer_ids src (build_rules a d k src)"
  unfolding layer_ids_def build_rules_ids by (simp add: build_rules_def add.assoc)

lemma store_inv_empty [simp]: "store_inv empty_store"
  by (simp add: store_inv_def empty_store_def layer_ids_def)

lemma store_inv_step [simp]:
  "store_inv st \<Longrightarrow> store_inv (bind_config sec st)"
  "store_inv st \<Longrightarrow> store_inv (on_config_change new st)"
  "store_inv st \<Longrightarrow> store_inv (load_flag_layer a d k st)"
  by (simp_all add: store_inv_def bind_config_def on_config_change_def load_flag_layer_def
      parse_section_def split: sum.splits)

lemma layer_ids_distinct: "layer_ids src rs \<Longrightarrow> distinct (map rule_id rs)"
  by (simp add: layer_ids_def distinct_map inj_on_def)

lemma layer_ids_user: "layer_ids USER rs \<Longrightarrow> i \<in> set (map rule_id rs) \<Longrightarrow> hd i = CHR ''u''"
  by (auto simp: layer_ids_def)

lemma layer_ids_flag: "layer_ids FLAG rs \<Longrightarrow> i \<in> set (map rule_id rs) \<Longrightarrow> hd i = CHR ''f''"
  by (auto simp: layer_ids_def)

lemma store_inv_distinct:
  assumes "store_inv st"
  shows "distinct (map rule_id (snapshot_rules st))"
proof -
  have "set (map rule_id (config_rules st)) \<inter> set (map rule_id (flag_rules st)) = {}"
  proof (rule ccontr)
    assume "\<not> ?thesis"
    then obtain i where "i \<in> set (map rule_id (config_rules st))"
      "i \<in> set (map rule_id (flag_rules st))" by blast
    then have "hd i = CHR ''u''" "hd i = CHR ''f''"
      using assms layer_ids_user layer_ids_flag unfolding store_inv_def by blast+
    then show False by simp
  qed
  then show ?thesis
    using assms layer_ids_distinct unfolding store_inv_def snapshot_rules_def
    by (simp only: map_append distinct_append) blast
qed

text \<open>The operations that touch the store, run in any order.\<close>

datatype store_op =
  Bind_Config permissions_section
| Config_Change "permissions_section result"
| Load_Flags "string list" "string list" "string list"

fun store_step :: "store_op \<Rightarrow> rule_store \<Rightarrow> rule_store" where
  "store_step (Bind_Config sec) st = bind_config sec st"
| "store_step (Config_Change new) st = on_config_change new st"
| "store_step (Load_Flags a d k) st = load_flag_layer a d k st"

lemma store_inv_run: "store_inv st \<Longrightarrow> store_inv (fold store_step ops st)"
proof (induction ops arbitrary: st)
  case (Cons op ops)
  then show ?case by (cases op) auto
qed simp

end
