(* ===== verification/Rule_Engine.thy ===== *)
theory Rule_Engine
  imports Rules
begin

text \<open>
  \<open>tool_authz/rule_engine.py\<close>: which rules target a tool, the scan over the rule table with its
  lazily built matcher, and the outcome handed to the authorizer. The scan is shown equal to a
  declarative specification (first deny, else first ask, else first allow), and the interface the
  authorizer relies on is stated as the locale \<open>decision_engine\<close>.
\<close>

section \<open>Which tools a rule targets\<close>

definition mcp_prefix :: string where
  "mcp_prefix = ''mcp__''"

definition rule_matches_tool :: "permission_rule \<Rightarrow> tool \<Rightarrow> bool" where
  "rule_matches_tool rule t =
     (let rule_name = tool_name (rvalue rule) in
      if matches_name t rule_name then True
      else if rule_name = ''mcp__*'' then prefix mcp_prefix (t_name t)
      else if prefix mcp_prefix rule_name
              \<and> \<not> sublist ''__'' (drop (length mcp_prefix) rule_name)
      then prefix (rule_name @ ''__'') (t_name t)
      else False)"

definition is_mcp_server_rule :: "string \<Rightarrow> tool \<Rightarrow> bool" where
  "is_mcp_server_rule rule_tool_name t =
     (if \<not> prefix mcp_prefix rule_tool_name then False
      else \<not> sublist ''__'' (drop (length mcp_prefix) rule_tool_name)
           \<and> prefix (rule_tool_name @ ''__'') (t_name t))"

section \<open>The scan\<close>

record scan =
  matched_deny :: "permission_rule option"
  matched_ask :: "permission_rule option"
  matched_allow :: "permission_rule option"
  matcher_cache :: "(string \<Rightarrow> bool result) option"

definition scan_start :: scan where
  "scan_start = \<lparr>matched_deny = None, matched_ask = None, matched_allow = None,
     matcher_cache = None\<rparr>"

text \<open>Recording a hit; the second component says whether the loop breaks.\<close>

definition record_hit :: "permission_rule \<Rightarrow> scan \<Rightarrow> scan \<times> bool" where
  "record_hit rule sc =
     (if rule_behavior rule = Deny \<and> matched_deny sc = None
      then (sc\<lparr>matched_deny := Some rule\<rparr>, True)
      else if rule_behavior rule = Ask \<and> matched_ask sc = None
      then (sc\<lparr>matched_ask := Some rule\<rparr>, False)
      else if rule_behavior rule = Allow \<and> matched_allow sc = None
      then (sc\<lparr>matched_allow := Some rule\<rparr>, False)
      else (sc, False))"

text \<open>
  Whether the rule's content matches this input, with the matcher built at its first use and kept
  in the scan state afterwards.
\<close>

definition content_hit :: "tool \<Rightarrow> dict \<Rightarrow> permission_rule \<Rightarrow> scan \<Rightarrow> (bool \<times> scan) result" where
  "content_hit t inp rule sc =
     (case rule_content (rvalue rule) of
        None \<Rightarrow> Inr (True, sc)
      | Some pattern \<Rightarrow>
          if is_mcp_server_rule (tool_name (rvalue rule)) t then Inr (True, sc)
          else bindR (case matcher_cache sc of Some m \<Rightarrow> Inr m | None \<Rightarrow> t_matcher t inp)
                 (\<lambda>m. mapR (\<lambda>hit. (hit, sc\<lparr>matcher_cache := Some m\<rparr>)) (m pattern)))"

fun scan_rules :: "tool \<Rightarrow> dict \<Rightarrow> permission_rule list \<Rightarrow> scan \<Rightarrow> scan result" where
  "scan_rules t inp [] sc = Inr sc"
| "scan_rules t inp (rule # rules) sc =
     (if \<not> rule_matches_tool rule t then scan_rules t inp rules sc
      else bindR (content_hit t inp rule sc) (\<lambda>(hit, sc').
        if \<not> hit then scan_rules t inp rules sc'
        else (case record_hit rule sc' of
                (sc'', True) \<Rightarrow> Inr sc''
              | (sc'', False) \<Rightarrow> scan_rules t inp rules sc'')))"

record engine_outcome =
  matched_rule :: "permission_rule option"
  eff_behavior :: "behavior option"
  suggested :: suggestion
  destructive :: bool

definition decide ::
    "permission_rule list \<Rightarrow> tool \<Rightarrow> dict \<Rightarrow> authorize_context \<Rightarrow> engine_outcome result" where
  "decide rules t inp ctx =
     bindR (scan_rules t inp rules scan_start) (\<lambda>sc.
     bindR (t_default_risk t inp ctx) (\<lambda>sug.
     bindR (t_is_destructive t inp) (\<lambda>d.
       Inr (if matched_deny sc \<noteq> None then
              \<lparr>matched_rule = matched_deny sc, eff_behavior = Some Deny,
               suggested = sug, destructive = d\<rparr>
            else if matched_ask sc \<noteq> None then
              \<lparr>matched_rule = matched_ask sc, eff_behavior = Some Ask,
               suggested = sug, destructive = d\<rparr>
            else if matched_allow sc \<noteq> None then
              \<lparr>matched_rule = matched_allow sc, eff_behavior = Some Allow,
               suggested = sug, destructive = d\<rparr>
            else
              \<lparr>matched_rule = None, eff_behavior = None,
               suggested = sug, destructive = d\<rparr>))))"

section \<open>The specification of the scan\<close>

text \<open>\<open>f\<close> says which patterns match the input: what the tool's matcher computes.\<close>

definition applies :: "(string \<Rightarrow> bool) \<Rightarrow> tool \<Rightarrow> permission_rule \<Rightarrow> bool" where
  "applies f t rule \<longleftrightarrow> rule_matches_tool rule t \<and>
     (case rule_content (rvalue rule) of
        None \<Rightarrow> True
      | Some pattern \<Rightarrow> is_mcp_server_rule (tool_name (rvalue rule)) t \<or> f pattern)"

definition first_hit ::
    "(string \<Rightarrow> bool) \<Rightarrow> tool \<Rightarrow> behavior \<Rightarrow> permission_rule list \<Rightarrow> permission_rule option" where
  "first_hit f t b rules = find (\<lambda>r. applies f t r \<and> rule_behavior r = b) rules"

definition effective_rule ::
    "(string \<Rightarrow> bool) \<Rightarrow> tool \<Rightarrow> permission_rule list \<Rightarrow> permission_rule option" where
  "effective_rule f t rules =
     (case first_hit f t Deny rules of
        Some r \<Rightarrow> Some r
      | None \<Rightarrow> (case first_hit f t Ask rules of
          Some r \<Rightarrow> Some r
        | None \<Rightarrow> first_hit f t Allow rules))"

definition matcher_is :: "tool \<Rightarrow> dict \<Rightarrow> (string \<Rightarrow> bool) \<Rightarrow> bool" where
  "matcher_is t inp f \<longleftrightarrow> t_matcher t inp = Inr (\<lambda>p. Inr (f p))"

text \<open>A scan state whose cache, if built, is the tool's matcher, and that has met no deny.\<close>

definition scan_ok :: "(string \<Rightarrow> bool) \<Rightarrow> scan \<Rightarrow> bool" where
  "scan_ok f sc \<longleftrightarrow> matched_deny sc = None \<and>
     (matcher_cache sc = None \<or> matcher_cache sc = Some (\<lambda>p. Inr (f p)))"

lemma content_hit_eq:
  assumes "matcher_is t inp f" "scan_ok f sc"
  shows "\<exists>sc'. content_hit t inp rule sc =
      Inr ((case rule_content (rvalue rule) of
              None \<Rightarrow> True
            | Some p \<Rightarrow> is_mcp_server_rule (tool_name (rvalue rule)) t \<or> f p), sc')
    \<and> scan_ok f sc' \<and> matched_ask sc' = matched_ask sc \<and> matched_allow sc' = matched_allow sc"
  using assms by (auto simp: content_hit_def matcher_is_def scan_ok_def split: option.splits)

definition or_else :: "'a option \<Rightarrow> 'a option \<Rightarrow> 'a option" where
  "or_else a b = (case a of Some x \<Rightarrow> Some x | None \<Rightarrow> b)"

lemma or_else_simps [simp]: "or_else None b = b" "or_else (Some x) b = Some x" "or_else a None = a"
  by (auto simp: or_else_def split: option.splits)

lemma first_hit_simps [simp]:
  "first_hit f t b [] = None"
  "first_hit f t b (r # rs) =
     (if applies f t r \<and> rule_behavior r = b then Some r else first_hit f t b rs)"
  by (simp_all add: first_hit_def)

text \<open>What a scan finds: with a deny it stops there; without one it holds the first ask and allow.\<close>

lemma scan_rules_eq:
  assumes "matcher_is t inp f" "scan_ok f sc"
  shows "\<exists>sc'. scan_rules t inp rules sc = Inr sc'
    \<and> matched_deny sc' = first_hit f t Deny rules
    \<and> (first_hit f t Deny rules = None \<longrightarrow>
         matched_ask sc' = or_else (matched_ask sc) (first_hit f t Ask rules)
         \<and> matched_allow sc' = or_else (matched_allow sc) (first_hit f t Allow rules))"
  using assms(2)
proof (induction rules arbitrary: sc)
  case Nil
  then show ?case by (simp add: scan_ok_def)
next
  case (Cons rule rules)
  show ?case
  proof (cases "rule_matches_tool rule t")
    case False
    then have "\<not> applies f t rule" by (simp add: applies_def)
    with False Cons.IH [OF Cons.prems] show ?thesis by simp
  next
    case True
    obtain sc1 where hit: "content_hit t inp rule sc = Inr (applies f t rule, sc1)"
      and ok: "scan_ok f sc1"
      and same: "matched_ask sc1 = matched_ask sc" "matched_allow sc1 = matched_allow sc"
      using content_hit_eq [OF assms(1) Cons.prems, of rule] True by (auto simp: applies_def)
    show ?thesis
    proof (cases "applies f t rule")
      case False
      with True hit same Cons.IH [OF ok] show ?thesis by simp
    next
      case app: True
      have ok': "scan_ok f (sc1\<lparr>matched_ask := a\<rparr>)" "scan_ok f (sc1\<lparr>matched_allow := b\<rparr>)" for a b
        using ok by (simp_all add: scan_ok_def)
      show ?thesis
        using True hit app same ok Cons.IH [OF ok] Cons.IH [OF ok'(1), of "Some rule"]
          Cons.IH [OF ok'(2), of "Some rule"]
        by (cases "rule_behavior rule"; cases "matched_ask sc"; cases "matched_allow sc")
           (simp_all add: record_hit_def scan_ok_def)
    qed
  qed
qed

lemma first_hit_behavior: "first_hit f t b rules = Some r \<Longrightarrow> rule_behavior r = b"
  by (induction rules) (auto split: if_splits)

lemma first_hit_in: "first_hit f t b rules = Some r \<Longrightarrow> r \<in> set rules \<and> applies f t r"
  by (induction rules) (auto split: if_splits)

lemma first_hit_None: "first_hit f t b rules = None \<longleftrightarrow> (\<forall>r \<in> set rules. applies f t r \<longrightarrow> rule_behavior r \<noteq> b)"
  by (induction rules) auto

lemma decide_eq:
  assumes "matcher_is t inp f" "t_default_risk t inp ctx = Inr sug" "t_is_destructive t inp = Inr d"
  shows "decide rules t inp ctx = Inr
     \<lparr>matched_rule = effective_rule f t rules,
      eff_behavior = map_option rule_behavior (effective_rule f t rules),
      suggested = sug, destructive = d\<rparr>"
proof -
  have "scan_ok f scan_start" by (simp add: scan_ok_def scan_start_def)
  from scan_rules_eq [OF assms(1) this, of rules] obtain sc where
    "scan_rules t inp rules scan_start = Inr sc"
    "matched_deny sc = first_hit f t Deny rules"
    "first_hit f t Deny rules = None \<longrightarrow>
       matched_ask sc = first_hit f t Ask rules \<and> matched_allow sc = first_hit f t Allow rules"
    by (auto simp: scan_start_def)
  then show ?thesis
    using assms(2,3) by (auto simp: decide_def effective_rule_def first_hit_behavior
        split: option.splits)
qed

section \<open>The interface the authorizer relies on\<close>

text \<open>
  An engine hands out an effective behaviour exactly when it hands out a rule of that behaviour,
  the rule comes from the table and targets the tool, and the suggestion and the destructive flag
  are the tool's own answers.
\<close>

locale decision_engine =
  fixes eng :: "permission_rule list \<Rightarrow> tool \<Rightarrow> dict \<Rightarrow> authorize_context \<Rightarrow> engine_outcome result"
  assumes outcome_behavior:
      "eng rules t inp ctx = Inr out \<Longrightarrow>
         eff_behavior out = map_option rule_behavior (matched_rule out)"
    and outcome_rule:
      "eng rules t inp ctx = Inr out \<Longrightarrow> matched_rule out = Some r \<Longrightarrow>
         r \<in> set rules \<and> rule_matches_tool r t"
    and outcome_tool:
      "eng rules t inp ctx = Inr out \<Longrightarrow>
         t_default_risk t inp ctx = Inr (suggested out)
         \<and> t_is_destructive t inp = Inr (destructive out)"
begin

lemma behavior_rule:
  assumes "eng rules t inp ctx = Inr out" "eff_behavior out = Some b"
  shows "\<exists>r \<in> set rules. matched_rule out = Some r \<and> rule_behavior r = b \<and> rule_matches_tool r t"
  using outcome_behavior [OF assms(1)] outcome_rule [OF assms(1)] assms(2)
  by (cases "matched_rule out") auto

lemma no_targeting_rule:
  assumes "eng rules t inp ctx = Inr out" "\<And>r. r \<in> set rules \<Longrightarrow> \<not> rule_matches_tool r t"
  shows "matched_rule out = None \<and> eff_behavior out = None"
proof -
  have "matched_rule out = None"
    using outcome_rule [OF assms(1)] assms(2) by (cases "matched_rule out") auto
  then show ?thesis using outcome_behavior [OF assms(1)] by simp
qed

end

text \<open>The rule engine of the code provides it: the scan only ever records rules it was given.\<close>

definition scan_from :: "permission_rule set \<Rightarrow> tool \<Rightarrow> scan \<Rightarrow> bool" where
  "scan_from R t sc \<longleftrightarrow>
     (\<forall>r. matched_deny sc = Some r \<longrightarrow> r \<in> R \<and> rule_matches_tool r t \<and> rule_behavior r = Deny) \<and>
     (\<forall>r. matched_ask sc = Some r \<longrightarrow> r \<in> R \<and> rule_matches_tool r t \<and> rule_behavior r = Ask) \<and>
     (\<forall>r. matched_allow sc = Some r \<longrightarrow> r \<in> R \<and> rule_matches_tool r t \<and> rule_behavior r = Allow)"

lemma content_hit_from:
  "content_hit t inp rule sc = Inr (hit, sc') \<Longrightarrow> scan_from R t sc \<Longrightarrow> scan_from R t sc'"
  by (auto simp: content_hit_def scan_from_def bindR_eq_Inr mapR_eq_Inr split: option.splits if_splits)

lemma record_hit_from:
  assumes "scan_from R t sc" "rule \<in> R" "rule_matches_tool rule t"
  shows "scan_from R t (fst (record_hit rule sc))"
  using assms by (auto simp: record_hit_def scan_from_def)

lemma scan_rules_from:
  assumes "scan_rules t inp rules sc = Inr sc'" "scan_from R t sc" "set rules \<subseteq> R"
  shows "scan_from R t sc'"
  using assms
proof (induction rules arbitrary: sc)
  case (Cons rule rules)
  show ?case
  proof (cases "rule_matches_tool rule t")
    case False
    with Cons show ?thesis by simp
  next
    case True
    with Cons.prems obtain hit sc1 where hit: "content_hit t inp rule sc = Inr (hit, sc1)"
      by (auto simp: bindR_eq_Inr)
    have from1: "scan_from R t sc1"
      using hit Cons.prems by (blast intro: content_hit_from)
    obtain sc2 stop where rec: "record_hit rule sc1 = (sc2, stop)" by fastforce
    have from2: "scan_from R t sc2"
      using record_hit_from [OF from1, of rule] rec True Cons.prems(3) by simp
    show ?thesis
      using Cons.IH [OF _ from1] Cons.IH [OF _ from2] from2 Cons.prems True hit rec
      by (auto split: if_splits bool.splits)
  qed
qed simp

lemma scan_start_from: "scan_from R t scan_start"
  by (simp add: scan_from_def scan_start_def)

lemma decide_cases:
  assumes "decide rules t inp ctx = Inr out"
  obtains sc where "scan_from (set rules) t sc"
    "t_default_risk t inp ctx = Inr (suggested out)" "t_is_destructive t inp = Inr (destructive out)"
    "matched_rule out = or_else (matched_deny sc) (or_else (matched_ask sc) (matched_allow sc))"
    "eff_behavior out = map_option rule_behavior (matched_rule out)"
proof -
  from assms obtain sc where sc: "scan_rules t inp rules scan_start = Inr sc"
    by (auto simp: decide_def bindR_eq_Inr)
  have "scan_from (set rules) t sc"
    using scan_rules_from [OF sc scan_start_from] by blast
  with assms sc show ?thesis
    by (intro that [of sc]) (auto simp: decide_def bindR_eq_Inr or_else_def scan_from_def
        split: if_splits option.splits)
qed

interpretation re: decision_engine decide
proof
  fix rules t inp ctx out
  assume "decide rules t inp ctx = Inr out"
  then show "eff_behavior out = map_option rule_behavior (matched_rule out)"
    and "t_default_risk t inp ctx = Inr (suggested out) \<and> t_is_destructive t inp = Inr (destructive out)"
    by (auto elim: decide_cases)
next
  fix rules t inp ctx out r
  assume "decide rules t inp ctx = Inr out" "matched_rule out = Some r"
  then show "r \<in> set rules \<and> rule_matches_tool r t"
    by (elim decide_cases) (auto simp: scan_from_def or_else_def split: option.splits)
qed

section \<open>Rules that failed to parse\<close>

lemma unparsed_no_mcp [simp]: "\<not> prefix mcp_prefix unparsed" "unparsed \<noteq> ''mcp__*''"
  by (simp_all add: mcp_prefix_def unparsed_def)

lemma unparsed_never_matches:
  "tool_name (rvalue rule) = unparsed \<Longrightarrow> \<not> matches_name t unparsed \<Longrightarrow> \<not> rule_matches_tool rule t"
  by (simp add: rule_matches_tool_def)

end
