(* ===== verification/Grants.thy ===== *)
theory Grants
  imports Tool_Types
begin

text \<open>
  \<open>tool_authz/session_grant_cache.py\<close>: the per-session memory of \<open>allow_always\<close> answers. The lock
  makes each operation atomic, so an operation is one state change here. What the authorizer relies
  on is the locale \<open>grant_store\<close>; the cache of the code interprets it.
\<close>

record grant_entry =
  signature :: string
  granted_at :: time

type_synonym grant_cache = "string \<rightharpoonup> (string \<rightharpoonup> grant_entry)"

section \<open>Signatures\<close>

text \<open>
  What the signature uses of its host: canonical JSON (\<open>orjson.dumps\<close> with sorted keys, \<open>None\<close> when
  it raises), the \<open>repr\<close> fallback, and the hex digest of SHA-256. Bytes are characters.
\<close>

record host =
  dumps :: "dict \<Rightarrow> string option"
  repr_items :: "dict \<Rightarrow> string"
  sha256_hex :: "string \<Rightarrow> string"

definition utf8_char :: "char \<Rightarrow> string" where
  "utf8_char c = (let n = (of_char c :: nat) in
     if n < 128 then [c] else [char_of (192 + n div 64), char_of (128 + n mod 64)])"

definition utf8 :: "string \<Rightarrow> string" where
  "utf8 s = concat (map utf8_char s)"

definition canonical :: "host \<Rightarrow> dict \<Rightarrow> string" where
  "canonical h inp = (case dumps h inp of Some c \<Rightarrow> c | None \<Rightarrow> utf8 (repr_items h inp))"

definition compute_signature :: "host \<Rightarrow> tool \<Rightarrow> dict \<Rightarrow> string" where
  "compute_signature h t inp = sha256_hex h (utf8 (t_name t) @ '':'' @ canonical h inp)"

section \<open>Operations\<close>

definition cache_open :: "string \<Rightarrow> grant_cache \<Rightarrow> grant_cache" where
  "cache_open sid c = (case c sid of None \<Rightarrow> c(sid \<mapsto> Map.empty) | Some _ \<Rightarrow> c)"

definition cache_close :: "string \<Rightarrow> grant_cache \<Rightarrow> grant_cache" where
  "cache_close sid c = c(sid := None)"

text \<open>The bucket update under the lock, and \<open>grant\<close>, which computes the entry first.\<close>

definition cache_put :: "string \<Rightarrow> string \<Rightarrow> grant_entry \<Rightarrow> grant_cache \<Rightarrow> grant_cache" where
  "cache_put sid sig e c =
     (let bucket = (case c sid of None \<Rightarrow> Map.empty | Some b \<Rightarrow> b) in c(sid \<mapsto> bucket(sig \<mapsto> e)))"

definition cache_grant ::
    "host \<Rightarrow> time \<Rightarrow> string \<Rightarrow> tool \<Rightarrow> dict \<Rightarrow> grant_cache \<Rightarrow> grant_entry \<times> grant_cache" where
  "cache_grant h now sid t inp c =
     (let sig = compute_signature h t inp;
          entry = \<lparr>signature = sig, granted_at = now\<rparr>
      in (entry, cache_put sid sig entry c))"

definition cache_look :: "string \<Rightarrow> string \<Rightarrow> grant_cache \<Rightarrow> grant_entry option" where
  "cache_look sid sig c = (case c sid of None \<Rightarrow> None | Some bucket \<Rightarrow> bucket sig)"

definition cache_check ::
    "host \<Rightarrow> string \<Rightarrow> tool \<Rightarrow> dict \<Rightarrow> grant_cache \<Rightarrow> grant_entry option" where
  "cache_check h sid t inp c = cache_look sid (compute_signature h t inp) c"

definition cache_clear :: "grant_cache \<Rightarrow> grant_cache" where
  "cache_clear c = Map.empty"

section \<open>The interface\<close>

datatype grant_op =
  Open_Session string | Close_Session string | Grant string string grant_entry

fun grant_step ::
    "(string \<Rightarrow> 'c \<Rightarrow> 'c) \<Rightarrow> (string \<Rightarrow> 'c \<Rightarrow> 'c) \<Rightarrow>
     (string \<Rightarrow> string \<Rightarrow> grant_entry \<Rightarrow> 'c \<Rightarrow> 'c) \<Rightarrow> grant_op \<Rightarrow> 'c \<Rightarrow> 'c" where
  "grant_step op cl put (Open_Session sid) c = op sid c"
| "grant_step op cl put (Close_Session sid) c = cl sid c"
| "grant_step op cl put (Grant sid sig e) c = put sid sig e c"

text \<open>The grant for this session and signature that a history leaves in force, if any.\<close>

fun in_force :: "string \<Rightarrow> string \<Rightarrow> grant_entry option \<Rightarrow> grant_op list \<Rightarrow> grant_entry option" where
  "in_force sid sig acc [] = acc"
| "in_force sid sig acc (Open_Session _ # ops) = in_force sid sig acc ops"
| "in_force sid sig acc (Close_Session s # ops) =
     in_force sid sig (if s = sid then None else acc) ops"
| "in_force sid sig acc (Grant s g e # ops) =
     in_force sid sig (if s = sid \<and> g = sig then Some e else acc) ops"

locale grant_store =
  fixes open_s :: "string \<Rightarrow> 'c \<Rightarrow> 'c"
    and close_s :: "string \<Rightarrow> 'c \<Rightarrow> 'c"
    and put :: "string \<Rightarrow> string \<Rightarrow> grant_entry \<Rightarrow> 'c \<Rightarrow> 'c"
    and look :: "string \<Rightarrow> string \<Rightarrow> 'c \<Rightarrow> grant_entry option"
  assumes look_open: "look sid sig (open_s s c) = look sid sig c"
    and look_close: "look sid sig (close_s s c) = (if s = sid then None else look sid sig c)"
    and look_put: "look sid sig (put s g e c) =
          (if s = sid \<and> g = sig then Some e else look sid sig c)"
begin

lemma look_run:
  "look sid sig (fold (grant_step open_s close_s put) ops c) = in_force sid sig (look sid sig c) ops"
proof (induction ops arbitrary: c)
  case (Cons op ops)
  then show ?case
    by (cases op) (simp_all add: look_open look_close look_put)
qed simp

lemma look_other_session:
  assumes "\<forall>s g e. Grant s g e \<in> set ops \<longrightarrow> s \<noteq> sid" "look sid sig c = None"
  shows "look sid sig (fold (grant_step open_s close_s put) ops c) = None"
  using assms
proof (induction ops arbitrary: c)
  case (Cons op ops)
  have step: "look sid sig (grant_step open_s close_s put op c) = None"
    using Cons.prems by (cases op) (auto simp: look_open look_close look_put)
  have tl: "\<forall>s g e. Grant s g e \<in> set ops \<longrightarrow> s \<noteq> sid"
    using Cons.prems(1) by auto
  show ?case using Cons.IH [OF tl step] by simp
qed simp

lemma look_after_close: "look sid sig (close_s sid c) = None"
  by (simp add: look_close)

end

interpretation gc: grant_store cache_open cache_close cache_put cache_look
  by unfold_locales
     (auto simp: cache_look_def cache_open_def cache_close_def cache_put_def split: option.splits)

lemma cache_check_grant:
  "cache_check h sid' t' inp' (snd (cache_grant h now sid t inp c)) =
     (if sid = sid' \<and> compute_signature h t inp = compute_signature h t' inp'
      then Some (fst (cache_grant h now sid t inp c)) else cache_check h sid' t' inp' c)"
  by (simp add: cache_grant_def cache_check_def Let_def gc.look_put)

end
