(* ===== verification/Hooks.thy ===== *)
theory Hooks
  imports Tool_Types
begin

text \<open>
  \<open>hooks/types.py\<close>, \<open>hooks/registry.py\<close> and \<open>HookManager.fire\<close>: lifecycle events, the per-event
  specification, the handler table in registration order, and the fail-open dispatch. A handler is
  user code: a function from the event context to the context it leaves and the way it ended.
\<close>

datatype hook_event =
  PRE_TOOL_USE | POST_TOOL_USE | POST_TOOL_FAILURE
| SESSION_START | SESSION_END
| USER_PROMPT_SUBMIT | POST_SAMPLING | STOP
| PRE_COMPACT | POST_COMPACT
| FILE_CHANGED
| SUBAGENT_START
| PERMISSION_REQUESTED | PERMISSION_DENIED
| PRE_CRON_FIRE | POST_CRON_FIRE
| WORKTREE_CREATE | WORKTREE_REMOVE

record ambient_context =
  amb_session_id :: string
  amb_cwd :: string
  amb_agent_depth :: nat
  amb_mode :: permission_mode
  amb_timestamp :: time

record hook_ctx =
  hc_event :: hook_event
  hc_ambient :: ambient_context
  hc_tool_name :: "string option"
  hc_tool_input :: dict
  hc_tool_output :: "string option"
  hc_error_message :: "string option"
  hc_user_text :: "string option"
  hc_message_count :: "int option"
  hc_token_estimate :: "int option"
  hc_file_path :: "string option"
  hc_change_type :: "string option"
  hc_is_resume :: "bool option"
  hc_stop_reason :: "string option"
  hc_agent_description :: "string option"
  hc_worktree_slug :: "string option"
  hc_worktree_path :: "string option"
  hc_worktree_handled :: bool
  hc_messages :: "string list"

text \<open>The context a call site builds: the fields it sets, every other one at its default.\<close>

definition new_hook_ctx ::
    "hook_event \<Rightarrow> ambient_context \<Rightarrow> string option \<Rightarrow> dict \<Rightarrow> string option \<Rightarrow> string option
       \<Rightarrow> hook_ctx" where
  "new_hook_ctx ev amb name inp out err = \<lparr>
     hc_event = ev, hc_ambient = amb, hc_tool_name = name, hc_tool_input = inp,
     hc_tool_output = out, hc_error_message = err, hc_user_text = None, hc_message_count = None,
     hc_token_estimate = None, hc_file_path = None, hc_change_type = None, hc_is_resume = None,
     hc_stop_reason = None, hc_agent_description = None, hc_worktree_slug = None,
     hc_worktree_path = None, hc_worktree_handled = False, hc_messages = []\<rparr>"

record hook_event_spec =
  can_block :: bool
  accepts_input_mutation :: bool

fun EVENT_SPECS :: "hook_event \<Rightarrow> hook_event_spec" where
  "EVENT_SPECS PRE_TOOL_USE = \<lparr>can_block = True, accepts_input_mutation = True\<rparr>"
| "EVENT_SPECS USER_PROMPT_SUBMIT = \<lparr>can_block = True, accepts_input_mutation = True\<rparr>"
| "EVENT_SPECS PRE_COMPACT = \<lparr>can_block = True, accepts_input_mutation = False\<rparr>"
| "EVENT_SPECS _ = \<lparr>can_block = False, accepts_input_mutation = False\<rparr>"

datatype handler_outcome = Returned | Blocked string | Crashed exn

type_synonym hook_handler = "hook_ctx \<Rightarrow> hook_ctx \<times> handler_outcome"

type_synonym hook_registry = "hook_event \<Rightarrow> hook_handler list"

definition hook_register :: "hook_event \<Rightarrow> hook_handler \<Rightarrow> hook_registry \<Rightarrow> hook_registry" where
  "hook_register ev h r = r(ev := r ev @ [h])"

text \<open>The loop of \<open>fire\<close>: a block stops it on a blocking event only; a crash never does.\<close>

fun fire_handlers :: "bool \<Rightarrow> hook_handler list \<Rightarrow> hook_ctx \<Rightarrow> bool \<times> hook_ctx" where
  "fire_handlers blocking [] ctx = (False, ctx)"
| "fire_handlers blocking (h # hs) ctx =
     (case h ctx of
        (ctx', Returned) \<Rightarrow> fire_handlers blocking hs ctx'
      | (ctx', Blocked r) \<Rightarrow> if blocking then (True, ctx') else fire_handlers blocking hs ctx'
      | (ctx', Crashed e) \<Rightarrow> fire_handlers blocking hs ctx')"

definition fire :: "hook_registry \<Rightarrow> hook_ctx \<Rightarrow> bool \<times> hook_ctx" where
  "fire r ctx = fire_handlers (can_block (EVENT_SPECS (hc_event ctx))) (r (hc_event ctx)) ctx"

section \<open>What a fire can do\<close>

lemma fire_handlers_nonblocking [simp]: "\<not> fst (fire_handlers False hs ctx)"
  by (induction hs arbitrary: ctx) (auto split: prod.splits handler_outcome.splits)

lemma fire_handlers_append:
  "fire_handlers b (hs @ gs) ctx =
     (case fire_handlers b hs ctx of
        (True, ctx') \<Rightarrow> (True, ctx')
      | (False, ctx') \<Rightarrow> fire_handlers b gs ctx')"
  by (induction hs arbitrary: ctx) (auto split: prod.splits handler_outcome.splits)

lemma fire_blocked_event:
  "fst (fire r ctx) \<Longrightarrow> hc_event ctx \<in> {PRE_TOOL_USE, USER_PROMPT_SUBMIT, PRE_COMPACT}"
  by (cases "hc_event ctx") (simp_all add: fire_def)

text \<open>Without a handler that blocks or rewrites, firing is observationally nothing.\<close>

lemma fire_handlers_pure:
  assumes "\<forall>h \<in> set hs. \<forall>c. fst (h c) = c \<and> (\<forall>r. snd (h c) \<noteq> Blocked r)"
  shows "fire_handlers b hs ctx = (False, ctx)"
  using assms
proof (induction hs)
  case (Cons h hs)
  obtain e where "h ctx = (ctx, e)" "\<forall>r. e \<noteq> Blocked r"
    using Cons.prems by (metis list.set_intros(1) prod.collapse)
  with Cons show ?case by (cases e) simp_all
qed simp

end
