(* ===== verification/Plans.thy ===== *)
theory Plans
  imports Prelude
begin

text \<open>
  \<open>plans.py\<close>: one plan file per session, named by a random two-word slug that is cached per
  session. The file system and the random source are parameters; \<open>os.path.normpath\<close> is written out
  (POSIX). The last section gives the path test its guarantee and shows where it is too wide.
\<close>

section \<open>Slugs\<close>

definition adjectives :: "string list" where
  "adjectives =
    [''amber'', ''bold'', ''calm'', ''dark'', ''eager'', ''fair'', ''gentle'', ''happy'',
     ''icy'', ''jade'', ''keen'', ''lush'', ''mild'', ''neat'', ''odd'', ''pale'', ''quick'',
     ''red'', ''shy'', ''tame'', ''ultra'', ''vast'', ''warm'', ''young'', ''zen'', ''azure'',
     ''brisk'', ''clear'', ''deep'', ''epic'', ''fresh'', ''grand'', ''hazy'', ''iron'',
     ''jazzy'', ''kind'', ''lean'', ''merry'', ''noble'', ''open'', ''prime'', ''raw'',
     ''sage'', ''tidy'', ''vivid'', ''wise'', ''crisp'', ''dusty'']"

definition nouns :: "string list" where
  "nouns =
    [''arch'', ''beam'', ''cave'', ''dawn'', ''edge'', ''fern'', ''gate'', ''helm'', ''isle'',
     ''jade'', ''knot'', ''lake'', ''mesa'', ''node'', ''oak'', ''peak'', ''quay'', ''reef'',
     ''star'', ''tide'', ''vale'', ''wave'', ''yard'', ''zone'', ''arc'', ''bolt'', ''cove'',
     ''dusk'', ''elm'', ''ford'', ''glen'', ''haze'', ''ice'', ''jet'', ''kite'', ''loom'',
     ''mist'', ''nest'', ''opal'', ''pine'', ''rain'', ''sage'', ''thorn'', ''vine'', ''wren'',
     ''birch'', ''cliff'', ''delta'']"

text \<open>
  The world a slug is chosen in: the plans directory (as \<open>str\<close> of a path), which files exist, and the
  index pairs the random source yields, call by call.
\<close>

record plan_world =
  plans_dir :: string
  plan_exists :: "string \<Rightarrow> bool"
  draws :: "nat \<Rightarrow> nat \<times> nat"

type_synonym slug_cache = "string \<rightharpoonup> string"

definition generate_slug :: "nat \<times> nat \<Rightarrow> string" where
  "generate_slug d =
     adjectives ! (fst d mod length adjectives) @ ''-'' @ nouns ! (snd d mod length nouns)"

definition MAX_SLUG_RETRIES :: nat where "MAX_SLUG_RETRIES = 10"

definition path_join :: "string \<Rightarrow> string \<Rightarrow> string" where
  "path_join d name = (if d = ''/'' then ''/'' @ name else if d = ''.'' then name else d @ ''/'' @ name)"

text \<open>The retry loop: a slug whose file exists is drawn again, at most \<open>n\<close> times.\<close>

fun retry_slug :: "plan_world \<Rightarrow> nat \<Rightarrow> nat \<Rightarrow> string \<Rightarrow> string" where
  "retry_slug w 0 k slug = slug"
| "retry_slug w (Suc n) k slug =
     (if \<not> plan_exists w (path_join (plans_dir w) (slug @ ''.md'')) then slug
      else retry_slug w n (Suc k) (generate_slug (draws w k)))"

definition get_plan_slug :: "plan_world \<Rightarrow> string \<Rightarrow> slug_cache \<Rightarrow> string \<times> slug_cache" where
  "get_plan_slug w sid cache =
     (case cache sid of
        Some slug \<Rightarrow> (slug, cache)
      | None \<Rightarrow>
          (let slug = retry_slug w MAX_SLUG_RETRIES 1 (generate_slug (draws w 0))
           in (slug, cache(sid \<mapsto> slug))))"

definition plan_file_name :: "string \<Rightarrow> string option \<Rightarrow> string" where
  "plan_file_name slug agent =
     (case agent of
        Some a \<Rightarrow> if a = [] then slug @ ''.md'' else slug @ ''-agent-'' @ a @ ''.md''
      | None \<Rightarrow> slug @ ''.md'')"

definition get_plan_file_path ::
    "plan_world \<Rightarrow> string \<Rightarrow> string option \<Rightarrow> slug_cache \<Rightarrow> string \<times> slug_cache" where
  "get_plan_file_path w sid agent cache =
     (let (slug, cache') = get_plan_slug w sid cache
      in (path_join (plans_dir w) (plan_file_name slug agent), cache'))"

text \<open>\<open>read\<close> is \<open>read_text\<close>: a missing file and any other OS error both read as no plan.\<close>

definition get_plan ::
    "plan_world \<Rightarrow> (string \<Rightarrow> string result) \<Rightarrow> string \<Rightarrow> string option \<Rightarrow> slug_cache
       \<Rightarrow> string option \<times> slug_cache" where
  "get_plan w read sid agent cache =
     (let (path, cache') = get_plan_file_path w sid agent cache
      in (case read path of Inl _ \<Rightarrow> None | Inr s \<Rightarrow> Some s, cache'))"

definition clear_slug_cache :: "string option \<Rightarrow> slug_cache \<Rightarrow> slug_cache" where
  "clear_slug_cache sid cache =
     (case sid of None \<Rightarrow> Map.empty | Some s \<Rightarrow> cache(s := None))"

section \<open>Path normalisation\<close>

text \<open>The component loop of \<open>posixpath.normpath\<close>; \<open>acc\<close> holds the kept components in reverse.\<close>

fun norm_comps :: "bool \<Rightarrow> string list \<Rightarrow> string list \<Rightarrow> string list" where
  "norm_comps absolute acc [] = rev acc"
| "norm_comps absolute acc (c # cs) =
     (if c = [] \<or> c = ''.'' then norm_comps absolute acc cs
      else if c \<noteq> ''..'' \<or> (\<not> absolute \<and> acc = []) \<or> (acc \<noteq> [] \<and> hd acc = ''..'')
      then norm_comps absolute (c # acc) cs
      else norm_comps absolute (tl acc) cs)"

definition initial_slashes :: "string \<Rightarrow> nat" where
  "initial_slashes p =
     (if \<not> prefix ''/'' p then 0 else if prefix ''//'' p \<and> \<not> prefix ''///'' p then 2 else 1)"

definition normpath :: "string \<Rightarrow> string" where
  "normpath p =
     (if p = [] then ''.''
      else let body = join ''/'' (norm_comps (initial_slashes p \<noteq> 0) [] (split_on (CHR ''/'') p));
               out = replicate (initial_slashes p) (CHR ''/'') @ body
           in if out = [] then ''.'' else out)"

definition is_session_plan_file ::
    "plan_world \<Rightarrow> string \<Rightarrow> string \<Rightarrow> slug_cache \<Rightarrow> bool \<times> slug_cache" where
  "is_session_plan_file w path sid cache =
     (let normalized = normpath path;
          (slug, cache') = get_plan_slug w sid cache;
          expected_prefix = path_join (plans_dir w) slug
      in (prefix expected_prefix normalized \<and> suffix ''.md'' normalized, cache'))"

section \<open>Facts\<close>

lemma get_plan_slug_cached:
  "get_plan_slug w sid cache = (slug, cache') \<Longrightarrow> cache' sid = Some slug"
  by (auto simp: get_plan_slug_def Let_def split: option.splits)

lemma get_plan_slug_frame:
  "get_plan_slug w sid cache = (slug, cache') \<Longrightarrow> s \<noteq> sid \<Longrightarrow> cache' s = cache s"
  by (auto simp: get_plan_slug_def Let_def split: option.splits)

text \<open>Asking again, in whatever state the world then is, gives the slug of the first time.\<close>

lemma get_plan_slug_stable:
  "get_plan_slug w sid cache = (slug, cache') \<Longrightarrow> get_plan_slug w' sid cache' = (slug, cache')"
  by (auto simp: get_plan_slug_def Let_def split: option.splits)

lemma retry_slug_generated:
  "slug \<in> range generate_slug \<Longrightarrow> retry_slug w n k slug \<in> range generate_slug"
  by (induction n arbitrary: k slug) auto

lemma split_on_snoc:
  "c \<notin> set f \<Longrightarrow> split_on c (d @ c # f) = split_on c d @ [f]"
proof (induction d)
  case Nil
  then have "split_on c f = [f]" by (induction f) auto
  then show ?case by simp
next
  case (Cons x d)
  then show ?case by (cases "split_on c d") auto
qed

lemma norm_comps_snoc:
  assumes "f \<noteq> []" "f \<noteq> ''.''" "f \<noteq> ''..''"
  shows "norm_comps ab acc (cs @ [f]) = norm_comps ab acc cs @ [f]"
  using assms by (induction ab acc cs rule: norm_comps.induct) auto

lemma join_snoc: "ps \<noteq> [] \<Longrightarrow> join sep (ps @ [p]) = join sep ps @ sep @ p"
  by (induction sep ps rule: join.induct) auto

text \<open>An absolute directory other than a root, already in normal form.\<close>

definition clean_dir :: "string \<Rightarrow> bool" where
  "clean_dir d \<longleftrightarrow> normpath d = d \<and> prefix ''/'' d \<and> d \<notin> {''/'', ''//''}"

lemma clean_dir_comps:
  assumes "clean_dir d"
  shows "norm_comps True [] (split_on (CHR ''/'') d) \<noteq> []"
proof
  assume "norm_comps True [] (split_on (CHR ''/'') d) = []"
  with assms have "d = replicate (initial_slashes d) (CHR ''/'')"
    by (auto simp: clean_dir_def normpath_def initial_slashes_def Let_def split: if_splits)
  with assms show False
    by (auto simp: clean_dir_def initial_slashes_def numeral_2_eq_2 split: if_splits)
qed

lemma initial_slashes_append:
  assumes "d \<notin> {''/'', ''//''}" "prefix ''/'' d"
  shows "initial_slashes (d @ ''/'' @ f) = initial_slashes d"
proof -
  obtain x e where d: "d = CHR ''/'' # x # e"
    using assms by (cases d; cases "tl d") auto
  show ?thesis
    using assms(1) by (cases e) (auto simp: d initial_slashes_def)
qed

lemma normpath_file:
  assumes "clean_dir d" "CHR ''/'' \<notin> set f" "f \<noteq> []" "f \<noteq> ''.''" "f \<noteq> ''..''"
  shows "normpath (d @ ''/'' @ f) = d @ ''/'' @ f"
proof -
  have d: "d \<noteq> []" "prefix ''/'' d" "d \<notin> {''/'', ''//''}" "normpath d = d"
    using assms(1) by (auto simp: clean_dir_def)
  let ?n = "initial_slashes d" and ?cs = "norm_comps True [] (split_on (CHR ''/'') d)"
  have n: "?n \<noteq> 0" using d by (simp add: initial_slashes_def)
  have "d = replicate ?n (CHR ''/'') @ join ''/'' ?cs"
    using d n by (auto simp: normpath_def Let_def split: if_splits)
  moreover have "norm_comps True [] (split_on (CHR ''/'') (d @ ''/'' @ f)) = ?cs @ [f]"
    using assms by (simp add: split_on_snoc norm_comps_snoc)
  ultimately show ?thesis
    using n initial_slashes_append [OF d(3) d(2), of f] clean_dir_comps [OF assms(1)]
    by (simp add: normpath_def Let_def join_snoc)
qed

section \<open>The path test\<close>

definition slug_cache_ok :: "slug_cache \<Rightarrow> bool" where
  "slug_cache_ok cache \<longleftrightarrow> (\<forall>sid slug. cache sid = Some slug \<longrightarrow> slug \<in> range generate_slug)"

lemma slug_cache_ok_empty [simp]: "slug_cache_ok Map.empty"
  by (simp add: slug_cache_ok_def)

lemma get_plan_slug_ok:
  assumes "slug_cache_ok cache" "get_plan_slug w sid cache = (slug, cache')"
  shows "slug \<in> range generate_slug \<and> slug_cache_ok cache'"
proof (cases "cache sid")
  case None
  then have slug: "slug = retry_slug w MAX_SLUG_RETRIES 1 (generate_slug (draws w 0))"
    and cache': "cache' = cache(sid \<mapsto> slug)"
    using assms(2) by (auto simp: get_plan_slug_def Let_def)
  have "slug \<in> range generate_slug"
    unfolding slug by (rule retry_slug_generated) simp
  with cache' assms(1) show ?thesis by (simp add: slug_cache_ok_def)
next
  case (Some a)
  with assms show ?thesis by (auto simp: get_plan_slug_def slug_cache_ok_def)
qed

lemma words_no_slash:
  "\<forall>a \<in> set adjectives. CHR ''/'' \<notin> set a" "\<forall>a \<in> set nouns. CHR ''/'' \<notin> set a"
  by (simp_all add: adjectives_def nouns_def)

lemma generate_slug_no_slash:
  assumes "slug \<in> range generate_slug"
  shows "CHR ''/'' \<notin> set slug"
proof -
  obtain d where slug: "slug = generate_slug d" using assms by blast
  have "0 < length adjectives" "0 < length nouns"
    by (simp_all add: adjectives_def nouns_def)
  then have "adjectives ! (fst d mod length adjectives) \<in> set adjectives"
    "nouns ! (snd d mod length nouns) \<in> set nouns"
    by simp_all
  with words_no_slash show ?thesis
    by (simp add: slug generate_slug_def)
qed

text \<open>The plan file of a session, or of one of its agents, passes the session's path test.\<close>

lemma own_plan_file_accepted:
  assumes "clean_dir (plans_dir w)" "slug_cache_ok cache"
    and "\<forall>a. agent = Some a \<longrightarrow> CHR ''/'' \<notin> set a"
    and "get_plan_file_path w sid agent cache = (path, cache')"
  shows "is_session_plan_file w path sid cache' = (True, cache')"
proof -
  obtain slug where slug: "get_plan_slug w sid cache = (slug, cache')"
    and path: "path = path_join (plans_dir w) (plan_file_name slug agent)"
    using assms(4) by (auto simp: get_plan_file_path_def split: prod.splits)
  let ?f = "plan_file_name slug agent"
  have dir: "plans_dir w \<noteq> ''/''" "plans_dir w \<noteq> ''.''"
    using assms(1) by (auto simp: clean_dir_def)
  have "CHR ''/'' \<notin> set slug"
    using get_plan_slug_ok [OF assms(2) slug] generate_slug_no_slash by blast
  then have noslash: "CHR ''/'' \<notin> set ?f"
    using assms(3) by (auto simp: plan_file_name_def split: option.splits)
  have shape: "\<exists>x. ?f = slug @ x @ ''.md''"
    by (auto simp: plan_file_name_def split: option.splits)
  then obtain x where x: "?f = slug @ x @ ''.md''" ..
  then have "?f \<noteq> []" "?f \<noteq> ''.''" "?f \<noteq> ''..''"
    by (auto simp: append_eq_Cons_conv)
  then have "normpath path = plans_dir w @ ''/'' @ ?f"
    using normpath_file [OF assms(1) noslash] path dir by (simp add: path_join_def)
  moreover have "get_plan_slug w sid cache' = (slug, cache')"
    using slug by (rule get_plan_slug_stable)
  moreover have "suffix ''.md'' (plans_dir w @ ''/'' @ slug @ x @ ''.md'')"
    by (metis append.assoc suffixI)
  ultimately show ?thesis
    using dir x by (simp add: is_session_plan_file_def path_join_def)
qed

lemma accepted_prefix:
  "is_session_plan_file w path sid cache = (True, cache') \<Longrightarrow>
     \<exists>slug. cache' sid = Some slug \<and> prefix (path_join (plans_dir w) slug) (normpath path)"
  by (auto simp: is_session_plan_file_def Let_def split: prod.splits dest: get_plan_slug_cached)

end
