(* ===== verification/Authorizer.thy ===== *)
theory Authorizer
  imports Rule_Engine Grants Classifier Hooks Plans
begin

text \<open>
  \<open>tool_authz/authorizer.py\<close>: the decision whether a tool call may proceed. The state holds the rule
  store, the grant cache, the classifier, the slug cache of \<open>plans.py\<close> (which the plan-file test may
  extend) and the hook events fired so far. Every helper that may raise returns a result; \<open>authorize\<close>
  itself never raises.
\<close>

section \<open>Decisions\<close>

datatype decision_reason =
  Reason_Rule_Matched string behavior string rule_source
| Reason_Default_Risk risk string string
| Reason_Session_Grant time string
| Reason_Mode permission_mode
| Reason_No_Prompt
| Reason_Bash_Classifier verdict "string option"
| Reason_Fail_Closed string

datatype btn_outcome = Allow_Once | Allow_Always | Deny_Once

datatype suggestion_btn = Btn (btn_label: string) (btn_outcome: btn_outcome)

datatype decision =
  Permission_Allow decision_reason "dict option"
| Permission_Deny string decision_reason
| Permission_Ask string decision_reason "suggestion_btn list"

section \<open>State and environment\<close>

record authorizer =
  rules :: rule_store
  grants :: grant_cache
  judge_state :: classifier
  slugs :: slug_cache
  fired :: "hook_ctx list"

definition new_authorizer :: authorizer where
  "new_authorizer = \<lparr>rules = empty_store, grants = Map.empty, judge_state = new_classifier,
     slugs = Map.empty, fired = []\<rparr>"

text \<open>
  The rest of the kernel as the authorizer sees it: \<open>llm\<close> is \<open>model_for\<close> of the LLM manager (\<open>None\<close>
  when the module table has none), \<open>hooks\<close> the hook table (\<open>None\<close> when the hook manager is absent),
  \<open>str_of\<close> Python's \<open>str\<close> of a JSON value that is no string.
\<close>

record authz_env =
  env_host :: host
  env_plans :: plan_world
  env_judge :: judge
  env_llm :: "(string \<Rightarrow> string result) option"
  env_hooks :: "hook_registry option"
  env_now :: time
  str_of :: "json \<Rightarrow> string"

definition SHELL_TOOL_NAMES :: "string set" where
  "SHELL_TOOL_NAMES = {''Bash'', ''PowerShell''}"

section \<open>Lifecycle\<close>

text \<open>\<open>startup\<close>: binding the section may fail, and then the empty rules stay.\<close>

definition startup :: "permissions_section result \<Rightarrow> authorizer \<Rightarrow> authorizer" where
  "startup section st =
     (case section of
        Inl _ \<Rightarrow> st
      | Inr sec \<Rightarrow> st\<lparr>rules := bind_config sec (rules st),
          judge_state := (judge_state st)\<lparr>enabled := bash_llm_judge_enabled sec,
                                          fail_closed := bash_llm_judge_fail_closed sec\<rparr>\<rparr>)"

definition shutdown :: "authorizer \<Rightarrow> authorizer" where
  "shutdown st = st\<lparr>grants := cache_clear (grants st)\<rparr>"

definition on_session_open :: "string \<Rightarrow> authorizer \<Rightarrow> authorizer" where
  "on_session_open sid st =
     st\<lparr>grants := cache_open sid (grants st), judge_state := cl_open sid (judge_state st)\<rparr>"

definition on_session_close :: "string \<Rightarrow> authorizer \<Rightarrow> authorizer" where
  "on_session_close sid st =
     st\<lparr>grants := cache_close sid (grants st), judge_state := cl_close sid (judge_state st)\<rparr>"

definition grant :: "authz_env \<Rightarrow> tool \<Rightarrow> dict \<Rightarrow> authorize_context \<Rightarrow> authorizer \<Rightarrow> authorizer" where
  "grant env t inp ctx st =
     st\<lparr>grants := snd (cache_grant (env_host env) (env_now env) (ctx_session_id ctx) t inp (grants st))\<rparr>"

section \<open>The pool-level deny filter\<close>

definition rule_blocks_tool_name :: "permission_rule \<Rightarrow> string \<Rightarrow> bool" where
  "rule_blocks_tool_name rule name =
     (let target = tool_name (rvalue rule) in
      if target = name then True
      else if target = ''mcp__*'' then prefix mcp_prefix name
      else if prefix mcp_prefix target \<and> \<not> sublist ''__'' (drop (length mcp_prefix) target)
      then prefix (target @ ''__'') name
      else False)"

definition filter_denied_tools :: "string set \<Rightarrow> authorizer \<Rightarrow> string set" where
  "filter_denied_tools names st =
     foldl (\<lambda>denied rule.
              if rule_behavior rule \<noteq> Deny \<or> rule_content (rvalue rule) \<noteq> None then denied
              else denied \<union> {n \<in> names. rule_blocks_tool_name rule n})
           {} (snapshot_rules (rules st))"

section \<open>Helpers of the decision flow\<close>

definition rule_reason :: "permission_rule \<Rightarrow> decision_reason" where
  "rule_reason r = Reason_Rule_Matched (rule_id r) (rule_behavior r) (raw_dsl r) (source r)"

definition default_reason :: "tool \<Rightarrow> suggestion \<Rightarrow> decision_reason" where
  "default_reason t s = Reason_Default_Risk (sg_risk s) (sg_reason s) (t_name t)"

definition is_plan_file_write ::
    "authz_env \<Rightarrow> tool \<Rightarrow> dict \<Rightarrow> authorize_context \<Rightarrow> slug_cache \<Rightarrow> bool \<times> slug_cache" where
  "is_plan_file_write env t inp ctx cache =
     (case map_of inp ''file_path'' of
        Some (JStr path) \<Rightarrow>
          if path = [] then (False, cache)
          else if t_name t \<notin> {''FileEdit'', ''FileWrite''} then (False, cache)
          else is_session_plan_file (env_plans env) path (ctx_session_id ctx) cache
      | _ \<Rightarrow> (False, cache))"

definition truthy :: "string option \<Rightarrow> bool" where
  "truthy s \<longleftrightarrow> s \<noteq> None \<and> s \<noteq> Some []"

definition build_ask_message :: "tool \<Rightarrow> dict \<Rightarrow> string \<Rightarrow> string result" where
  "build_ask_message t inp rsn =
     bindR (t_user_facing_name t inp) (\<lambda>desc.
     bindR (t_activity_description t inp) (\<lambda>hint.
       let base = (if truthy hint
                   then desc @ '': '' @ (case hint of Some h \<Rightarrow> h | None \<Rightarrow> []) @ '' ('' @ rsn @ '')''
                   else desc @ '' ('' @ rsn @ '')'')
       in bindR (t_destructive_warning t inp) (\<lambda>warning.
            Inr (if truthy warning
                 then base @ '' '' @ [CHR 0x97] @ '' '' @ [CHR 0x98] @ '' ''
                      @ (case warning of Some x \<Rightarrow> x | None \<Rightarrow> [])
                 else base))))"

text \<open>
  \<open>_resolve_bash_judge_model\<close>: \<open>None\<close> stands for \<open>(None, None)\<close>, whether the manager is missing, the
  role is unset or the lookup raised otherwise.
\<close>

definition resolve_bash_judge_model :: "authz_env \<Rightarrow> string option" where
  "resolve_bash_judge_model env =
     (case env_llm env of
        None \<Rightarrow> None
      | Some model_for \<Rightarrow> (case model_for ''bash_judge'' of Inl _ \<Rightarrow> None | Inr m \<Rightarrow> Some m))"

definition py_str :: "authz_env \<Rightarrow> json \<Rightarrow> string" where
  "py_str env j = (case j of JStr s \<Rightarrow> s | _ \<Rightarrow> str_of env j)"

definition command_of :: "authz_env \<Rightarrow> dict \<Rightarrow> string" where
  "command_of env inp = (case map_of inp ''command'' of Some j \<Rightarrow> py_str env j | None \<Rightarrow> [])"

section \<open>The decision flow\<close>

definition ask_buttons :: "bool \<Rightarrow> suggestion_btn list" where
  "ask_buttons destr =
     [Btn ''Allow once'' Allow_Once]
     @ (if \<not> destr then [Btn ''Allow always'' Allow_Always] else [])
     @ [Btn ''Deny'' Deny_Once]"

text \<open>Step (c) of \<open>_handle_ask\<close>: building the request.\<close>

definition build_ask :: "tool \<Rightarrow> dict \<Rightarrow> engine_outcome \<Rightarrow> decision result" where
  "build_ask t inp out =
     mapR (\<lambda>msg. Permission_Ask msg
             (case matched_rule out of
                Some r \<Rightarrow> rule_reason r
              | None \<Rightarrow> default_reason t (suggested out))
             (ask_buttons (destructive out)))
          (build_ask_message t inp (sg_reason (suggested out)))"

definition handle_ask ::
    "authz_env \<Rightarrow> tool \<Rightarrow> dict \<Rightarrow> authorize_context \<Rightarrow> engine_outcome \<Rightarrow> authorizer
       \<Rightarrow> decision result \<times> authorizer" where
  "handle_ask env t inp ctx out st =
     (if ctx_mode ctx = Auto \<and> sg_risk (suggested out) = Low
      then (Inr (Permission_Allow (Reason_Mode Auto) None), st)
      else if ctx_mode ctx = Dont_Ask
      then (Inr (Permission_Deny ''dont_ask mode: only pre-approved tools are allowed''
                   (Reason_Mode Dont_Ask)), st)
      else if should_avoid_prompts ctx
      then (Inr (Permission_Deny ''no interactive channel available for permission request''
                   Reason_No_Prompt), st)
      else if t_name t \<in> SHELL_TOOL_NAMES \<and> enabled (judge_state st)
      then
        (let model = resolve_bash_judge_model env;
             (v, cl) = classify (env_judge env) model (ctx_session_id ctx) (command_of env inp)
                         (ctx_cwd ctx) (judge_state st);
             st' = st\<lparr>judge_state := cl\<rparr>
         in case v of
              Inl e \<Rightarrow> (Inl e, st')
            | Inr Safe \<Rightarrow> (Inr (Permission_Allow (Reason_Bash_Classifier Safe model) None), st')
            | Inr Unsafe \<Rightarrow>
                (Inr (Permission_Deny ''bash command classified as unsafe''
                        (Reason_Bash_Classifier Unsafe model)), st')
            | Inr _ \<Rightarrow> (build_ask t inp out, st'))
      else (build_ask t inp out, st))"

definition apply_outcome ::
    "authz_env \<Rightarrow> tool \<Rightarrow> dict \<Rightarrow> authorize_context \<Rightarrow> engine_outcome \<Rightarrow> authorizer
       \<Rightarrow> decision result \<times> authorizer" where
  "apply_outcome env t inp ctx out st =
     (let sug = suggested out in
      if eff_behavior out = Some Deny then
        (case matched_rule out of
           None \<Rightarrow> (Inl ''AssertionError'', st)
         | Some r \<Rightarrow>
             (Inr (Permission_Deny (''tool call denied by rule '' @ rule_id r) (rule_reason r)), st))
      else if sg_decision sug = Deny then
        (Inr (Permission_Deny (''tool call denied: '' @ sg_reason sug) (default_reason t sug)), st)
      else if eff_behavior out = Some Ask \<or> sg_decision sug = Ask then
        handle_ask env t inp ctx out st
      else if eff_behavior out = Some Allow then
        (case matched_rule out of
           None \<Rightarrow> (Inl ''AssertionError'', st)
         | Some r \<Rightarrow> (Inr (Permission_Allow (rule_reason r) None), st))
      else if sg_decision sug = Allow then
        (Inr (Permission_Allow (default_reason t sug) None), st)
      else handle_ask env t inp ctx out st)"

definition authorize_impl ::
    "authz_env \<Rightarrow> tool \<Rightarrow> dict \<Rightarrow> authorize_context \<Rightarrow> authorizer \<Rightarrow> decision result \<times> authorizer"
where
  "authorize_impl env t inp ctx st =
     (case cache_check (env_host env) (ctx_session_id ctx) t inp (grants st) of
        Some g \<Rightarrow> (Inr (Permission_Allow (Reason_Session_Grant (granted_at g) (signature g)) None), st)
      | None \<Rightarrow>
          if ctx_mode ctx = Plan \<and> is_mutating (t_kind t) then
            (let (own, cache) = is_plan_file_write env t inp ctx (slugs st);
                 st' = st\<lparr>slugs := cache\<rparr>
             in if own then (Inr (Permission_Allow (Reason_Mode Plan) None), st')
                else (Inr (Permission_Deny ''plan mode forbids side effects'' (Reason_Mode Plan)), st'))
          else if ctx_mode ctx = Accept_Edits \<and> t_kind t = Edit then
            (Inr (Permission_Allow (Reason_Mode Accept_Edits) None), st)
          else if ctx_mode ctx = Bypass then
            (Inr (Permission_Allow (Reason_Mode Bypass) None), st)
          else
            (case decide (snapshot_rules (rules st)) t inp ctx of
               Inl e \<Rightarrow> (Inl e, st)
             | Inr out \<Rightarrow> apply_outcome env t inp ctx out st))"

text \<open>\<open>_fire_permission_hook\<close>: denials and requests are announced, allowances are silent.\<close>

definition permission_event :: "decision \<Rightarrow> (hook_event \<times> string) option" where
  "permission_event d =
     (case d of
        Permission_Deny msg _ \<Rightarrow> Some (PERMISSION_DENIED, msg)
      | Permission_Ask msg _ _ \<Rightarrow> Some (PERMISSION_REQUESTED, msg)
      | Permission_Allow _ _ \<Rightarrow> None)"

definition fire_permission_hook ::
    "authz_env \<Rightarrow> decision \<Rightarrow> tool \<Rightarrow> authorize_context \<Rightarrow> authorizer \<Rightarrow> authorizer" where
  "fire_permission_hook env d t ctx st =
     (case env_hooks env of
        None \<Rightarrow> st
      | Some reg \<Rightarrow>
          (case permission_event d of
             None \<Rightarrow> st
           | Some (ev, msg) \<Rightarrow>
               (let amb = \<lparr>amb_session_id = ctx_session_id ctx, amb_cwd = ctx_cwd ctx,
                           amb_agent_depth = ctx_agent_depth ctx, amb_mode = ctx_mode ctx,
                           amb_timestamp = env_now env\<rparr>;
                    hctx = new_hook_ctx ev amb (Some (t_name t)) [] None (Some msg)
                in st\<lparr>fired := fired st @ [snd (fire reg hctx)]\<rparr>)))"

definition authorize ::
    "authz_env \<Rightarrow> tool \<Rightarrow> dict \<Rightarrow> authorize_context \<Rightarrow> authorizer \<Rightarrow> decision \<times> authorizer" where
  "authorize env t inp ctx st =
     (let (res, st') = authorize_impl env t inp ctx st;
          d = (case res of
                 Inr d \<Rightarrow> d
               | Inl _ \<Rightarrow> Permission_Deny ''permission check failed''
                           (Reason_Fail_Closed ''authorize_crash''))
      in (d, fire_permission_hook env d t ctx st'))"

section \<open>Frames\<close>

lemma handle_ask_frame:
  "handle_ask env t inp ctx out st = (res, st') \<Longrightarrow>
     rules st' = rules st \<and> grants st' = grants st \<and> slugs st' = slugs st \<and> fired st' = fired st"
  by (auto simp: handle_ask_def Let_def split: if_splits prod.splits sum.splits verdict.splits)

lemma apply_outcome_frame:
  "apply_outcome env t inp ctx out st = (res, st') \<Longrightarrow>
     rules st' = rules st \<and> grants st' = grants st \<and> slugs st' = slugs st \<and> fired st' = fired st"
  by (auto simp: apply_outcome_def Let_def dest: handle_ask_frame split: if_splits option.splits)

lemma authorize_impl_frame:
  "authorize_impl env t inp ctx st = (res, st') \<Longrightarrow>
     rules st' = rules st \<and> grants st' = grants st \<and> fired st' = fired st"
  by (auto simp: authorize_impl_def Let_def dest: apply_outcome_frame
      split: if_splits prod.splits option.splits sum.splits)

lemma fire_permission_hook_frame [simp]:
  "rules (fire_permission_hook env d t ctx st) = rules st"
  "grants (fire_permission_hook env d t ctx st) = grants st"
  "slugs (fire_permission_hook env d t ctx st) = slugs st"
  "judge_state (fire_permission_hook env d t ctx st) = judge_state st"
  by (simp_all add: fire_permission_hook_def Let_def split: option.splits prod.splits)

lemma authorize_frame:
  "rules (snd (authorize env t inp ctx st)) = rules st
   \<and> grants (snd (authorize env t inp ctx st)) = grants st"
  by (cases "authorize_impl env t inp ctx st")
     (auto simp: authorize_def Let_def dest: authorize_impl_frame)

lemma authorize_Inr:
  "fst (authorize_impl env t inp ctx st) = Inr d \<Longrightarrow> fst (authorize env t inp ctx st) = d"
  by (cases "authorize_impl env t inp ctx st") (simp add: authorize_def Let_def)

lemma authorize_Inl:
  "fst (authorize_impl env t inp ctx st) = Inl e \<Longrightarrow>
     fst (authorize env t inp ctx st) =
       Permission_Deny ''permission check failed'' (Reason_Fail_Closed ''authorize_crash'')"
  by (cases "authorize_impl env t inp ctx st") (simp add: authorize_def Let_def)

lemma authorize_not_deny:
  assumes "fst (authorize env t inp ctx st) = d" "\<forall>m r. d \<noteq> Permission_Deny m r"
  shows "fst (authorize_impl env t inp ctx st) = Inr d"
  using assms by (cases "fst (authorize_impl env t inp ctx st)") (auto dest: authorize_Inl authorize_Inr)

section \<open>The modes that decide alone\<close>

definition mode_overrides :: "tool \<Rightarrow> authorize_context \<Rightarrow> bool" where
  "mode_overrides t ctx \<longleftrightarrow>
     (ctx_mode ctx = Plan \<and> is_mutating (t_kind t)) \<or>
     (ctx_mode ctx = Accept_Edits \<and> t_kind t = Edit) \<or> ctx_mode ctx = Bypass"

definition no_grant :: "authz_env \<Rightarrow> tool \<Rightarrow> dict \<Rightarrow> authorize_context \<Rightarrow> authorizer \<Rightarrow> bool" where
  "no_grant env t inp ctx st \<longleftrightarrow>
     cache_check (env_host env) (ctx_session_id ctx) t inp (grants st) = None"

lemma authorize_impl_rules:
  assumes "no_grant env t inp ctx st" "\<not> mode_overrides t ctx"
  shows "authorize_impl env t inp ctx st =
    (case decide (snapshot_rules (rules st)) t inp ctx of
       Inl e \<Rightarrow> (Inl e, st) | Inr out \<Rightarrow> apply_outcome env t inp ctx out st)"
  using assms by (auto simp: authorize_impl_def no_grant_def mode_overrides_def)

text \<open>
  The assertions of \<open>_apply_outcome\<close> cannot fail: an engine that keeps its contract hands out a rule
  with every behaviour.
\<close>

definition outcome_sound :: "engine_outcome \<Rightarrow> bool" where
  "outcome_sound out \<longleftrightarrow> (\<forall>b. eff_behavior out = Some b \<longrightarrow>
     (\<exists>r. matched_rule out = Some r \<and> rule_behavior r = b))"

context decision_engine
begin

lemma eng_outcome_sound: "eng rs t inp ctx = Inr out \<Longrightarrow> outcome_sound out"
  unfolding outcome_sound_def using behavior_rule by blast

end

lemma apply_outcome_deny:
  assumes "outcome_sound out" "eff_behavior out = Some Deny"
  shows "\<exists>r. matched_rule out = Some r \<and> rule_behavior r = Deny \<and>
    apply_outcome env t inp ctx out st =
      (Inr (Permission_Deny (''tool call denied by rule '' @ rule_id r) (rule_reason r)), st)"
  using assms by (auto simp: outcome_sound_def apply_outcome_def)

lemma effective_rule_deny:
  assumes "r \<in> set rs" "applies f t r" "rule_behavior r = Deny"
  shows "\<exists>r'. effective_rule f t rs = Some r' \<and> rule_behavior r' = Deny \<and> r' \<in> set rs \<and> applies f t r'"
proof -
  obtain r' where "first_hit f t Deny rs = Some r'"
    using assms first_hit_None [of f t Deny rs] by (cases "first_hit f t Deny rs") auto
  then show ?thesis
    by (auto simp: effective_rule_def dest: first_hit_behavior first_hit_in)
qed

text \<open>A call whose tool answers all of its contract methods without raising.\<close>

definition answers :: "tool \<Rightarrow> dict \<Rightarrow> authorize_context \<Rightarrow> (string \<Rightarrow> bool) \<Rightarrow> suggestion \<Rightarrow> bool \<Rightarrow> bool"
where
  "answers t inp ctx f sug d \<longleftrightarrow>
     matcher_is t inp f \<and> t_default_risk t inp ctx = Inr sug \<and> t_is_destructive t inp = Inr d"

lemma authorize_impl_effective:
  assumes "no_grant env t inp ctx st" "\<not> mode_overrides t ctx" "answers t inp ctx f sug d"
  shows "authorize_impl env t inp ctx st =
    (let er = effective_rule f t (snapshot_rules (rules st)) in
     apply_outcome env t inp ctx
       \<lparr>matched_rule = er, eff_behavior = map_option rule_behavior er,
        suggested = sug, destructive = d\<rparr> st)"
  using assms decide_eq [of t inp f ctx sug d]
  by (simp add: authorize_impl_rules answers_def Let_def)

lemma deny_rule_denies:
  assumes "no_grant env t inp ctx st" "\<not> mode_overrides t ctx" "answers t inp ctx f sug d"
    and "r \<in> set (snapshot_rules (rules st))" "applies f t r" "rule_behavior r = Deny"
  shows "\<exists>r' \<in> set (snapshot_rules (rules st)). rule_behavior r' = Deny \<and> applies f t r' \<and>
    fst (authorize env t inp ctx st) =
      Permission_Deny (''tool call denied by rule '' @ rule_id r') (rule_reason r')"
proof -
  obtain r' where r': "effective_rule f t (snapshot_rules (rules st)) = Some r'"
    "rule_behavior r' = Deny" "r' \<in> set (snapshot_rules (rules st))" "applies f t r'"
    using effective_rule_deny [OF assms(4-6)] by blast
  have "fst (authorize_impl env t inp ctx st) =
      Inr (Permission_Deny (''tool call denied by rule '' @ rule_id r') (rule_reason r'))"
    using r' by (simp add: authorize_impl_effective [OF assms(1-3)] apply_outcome_def)
  then show ?thesis using r' authorize_Inr by blast
qed

section \<open>The ask path\<close>

lemma handle_ask_Ask:
  assumes "fst (handle_ask env t inp ctx out st) = Inr (Permission_Ask msg rsn btns)"
  shows "btns = ask_buttons (destructive out) \<and> \<not> should_avoid_prompts ctx \<and> ctx_mode ctx \<noteq> Dont_Ask"
  using assms
  by (auto simp: handle_ask_def build_ask_def mapR_eq_Inr Let_def
      split: if_splits prod.splits sum.splits verdict.splits)

lemma apply_outcome_Ask:
  assumes "fst (apply_outcome env t inp ctx out st) = Inr (Permission_Ask msg rsn btns)"
  shows "btns = ask_buttons (destructive out) \<and> \<not> should_avoid_prompts ctx \<and> ctx_mode ctx \<noteq> Dont_Ask"
  using assms by (auto simp: apply_outcome_def Let_def dest: handle_ask_Ask split: if_splits option.splits)

lemma authorize_Ask:
  assumes "fst (authorize env t inp ctx st) = Permission_Ask msg rsn btns"
  shows "\<exists>d. t_is_destructive t inp = Inr d \<and> btns = ask_buttons d
    \<and> \<not> should_avoid_prompts ctx \<and> ctx_mode ctx \<noteq> Dont_Ask \<and> ctx_mode ctx \<noteq> Bypass"
proof -
  have "fst (authorize_impl env t inp ctx st) = Inr (Permission_Ask msg rsn btns)"
    using assms by (rule authorize_not_deny) simp
  then obtain out where out: "decide (snapshot_rules (rules st)) t inp ctx = Inr out"
    and ask: "fst (apply_outcome env t inp ctx out st) = Inr (Permission_Ask msg rsn btns)"
    and "ctx_mode ctx \<noteq> Bypass"
    by (auto simp: authorize_impl_def Let_def split: if_splits option.splits sum.splits prod.splits)
  with apply_outcome_Ask [OF ask] re.outcome_tool [OF out] show ?thesis by blast
qed

section \<open>What an allowance rests on\<close>

text \<open>The allowances of \<open>_handle_ask\<close>: auto mode on a low risk, or a safe verdict of the judge.\<close>

definition ask_allow_grounds ::
    "tool \<Rightarrow> authorize_context \<Rightarrow> engine_outcome \<Rightarrow> authorizer \<Rightarrow> decision_reason \<Rightarrow> bool" where
  "ask_allow_grounds t ctx out st rsn \<longleftrightarrow>
     (ctx_mode ctx = Auto \<and> sg_risk (suggested out) = Low \<and> rsn = Reason_Mode Auto) \<or>
     (ctx_mode ctx \<noteq> Dont_Ask \<and> \<not> should_avoid_prompts ctx \<and> t_name t \<in> SHELL_TOOL_NAMES
      \<and> enabled (judge_state st) \<and> (\<exists>m. rsn = Reason_Bash_Classifier Safe m))"

text \<open>
  The allowances of the rule engine's arbitration: no denial from a rule or from the tool, and then
  an allow rule the tool does not second-guess, or no rule and the tool's own allowance, or the ask
  path's own grounds.
\<close>

definition rule_allow_grounds ::
    "tool \<Rightarrow> authorize_context \<Rightarrow> engine_outcome \<Rightarrow> authorizer \<Rightarrow> decision_reason \<Rightarrow> bool" where
  "rule_allow_grounds t ctx out st rsn \<longleftrightarrow>
     eff_behavior out \<noteq> Some Deny \<and> sg_decision (suggested out) \<noteq> Deny \<and>
     (eff_behavior out = Some Allow \<and> sg_decision (suggested out) = Allow
        \<and> (\<exists>r. matched_rule out = Some r \<and> rsn = rule_reason r)
      \<or> eff_behavior out = None \<and> sg_decision (suggested out) = Allow
        \<and> rsn = default_reason t (suggested out)
      \<or> (eff_behavior out = Some Ask \<or> sg_decision (suggested out) = Ask)
        \<and> ask_allow_grounds t ctx out st rsn)"

lemma handle_ask_Allow:
  assumes "fst (handle_ask env t inp ctx out st) = Inr (Permission_Allow rsn upd)"
  shows "upd = None \<and> ask_allow_grounds t ctx out st rsn"
  using assms
  by (auto simp: handle_ask_def build_ask_def ask_allow_grounds_def mapR_eq_Inr Let_def
      split: if_splits prod.splits sum.splits verdict.splits)

lemma apply_outcome_Allow:
  assumes "fst (apply_outcome env t inp ctx out st) = Inr (Permission_Allow rsn upd)"
    and "outcome_sound out"
  shows "upd = None \<and> rule_allow_grounds t ctx out st rsn"
proof (cases "eff_behavior out = Some Ask \<or> sg_decision (suggested out) = Ask")
  case True
  then have "eff_behavior out \<noteq> Some Deny" "sg_decision (suggested out) \<noteq> Deny"
    "fst (handle_ask env t inp ctx out st) = Inr (Permission_Allow rsn upd)"
    using assms(1) by (auto simp: apply_outcome_def Let_def split: if_splits option.splits)
  with True show ?thesis
    using handle_ask_Allow by (auto simp: rule_allow_grounds_def)
next
  case False
  have "sg_decision (suggested out) \<in> {Allow, Deny, Ask}"
    by (cases "sg_decision (suggested out)") simp_all
  moreover have "eff_behavior out \<in> {None, Some Allow, Some Deny, Some Ask}"
    by (cases "eff_behavior out") (auto intro: behavior.exhaust)
  ultimately show ?thesis
    using False assms(1)
    by (auto simp: apply_outcome_def rule_allow_grounds_def Let_def split: if_splits option.splits)
qed

lemma authorize_Allow:
  assumes "fst (authorize env t inp ctx st) = Permission_Allow rsn upd"
  shows "(\<exists>g. cache_check (env_host env) (ctx_session_id ctx) t inp (grants st) = Some g
            \<and> rsn = Reason_Session_Grant (granted_at g) (signature g))
    \<or> ctx_mode ctx = Plan \<and> is_mutating (t_kind t) \<and> rsn = Reason_Mode Plan
        \<and> fst (is_plan_file_write env t inp ctx (slugs st))
    \<or> ctx_mode ctx = Accept_Edits \<and> t_kind t = Edit \<and> rsn = Reason_Mode Accept_Edits
    \<or> ctx_mode ctx = Bypass \<and> rsn = Reason_Mode Bypass
    \<or> \<not> mode_overrides t ctx \<and> (\<exists>out. decide (snapshot_rules (rules st)) t inp ctx = Inr out
        \<and> rule_allow_grounds t ctx out st rsn)"
proof -
  have impl: "fst (authorize_impl env t inp ctx st) = Inr (Permission_Allow rsn upd)"
    using assms by (rule authorize_not_deny) simp
  show ?thesis
  proof (cases "no_grant env t inp ctx st \<and> \<not> mode_overrides t ctx")
    case True
    then obtain out where out: "decide (snapshot_rules (rules st)) t inp ctx = Inr out"
      and "fst (apply_outcome env t inp ctx out st) = Inr (Permission_Allow rsn upd)"
      using impl by (auto simp: authorize_impl_rules split: sum.splits)
    then have "rule_allow_grounds t ctx out st rsn"
      using apply_outcome_Allow re.eng_outcome_sound by blast
    with True out show ?thesis by blast
  next
    case False
    then show ?thesis
      using impl by (auto simp: authorize_impl_def no_grant_def mode_overrides_def Let_def
          split: if_splits option.splits prod.splits)
  qed
qed

section \<open>The pool filter\<close>

lemma foldl_union_filter:
  "foldl (\<lambda>acc r. if P r then acc else acc \<union> {n \<in> A. Q r n}) B rs =
     B \<union> {n \<in> A. \<exists>r \<in> set rs. \<not> P r \<and> Q r n}"
  by (induction rs arbitrary: B) auto

lemma filter_denied_tools_iff:
  "n \<in> filter_denied_tools names st \<longleftrightarrow> n \<in> names \<and>
     (\<exists>r \<in> set (snapshot_rules (rules st)). rule_behavior r = Deny
        \<and> rule_content (rvalue r) = None \<and> rule_blocks_tool_name r n)"
  by (auto simp: filter_denied_tools_def foldl_union_filter)

lemma blocks_matches: "rule_blocks_tool_name r (t_name t) \<Longrightarrow> rule_matches_tool r t"
  by (auto simp: rule_blocks_tool_name_def rule_matches_tool_def matches_name_def Let_def
      split: if_splits)

lemma filtered_tool_denied:
  assumes "t_name t \<in> filter_denied_tools names st"
    and "no_grant env t inp ctx st" "\<not> mode_overrides t ctx" "answers t inp ctx f sug d"
  shows "\<exists>msg rsn. fst (authorize env t inp ctx st) = Permission_Deny msg rsn"
proof -
  obtain r where r: "r \<in> set (snapshot_rules (rules st))" "rule_behavior r = Deny"
    "rule_content (rvalue r) = None" "rule_blocks_tool_name r (t_name t)"
    using assms(1) by (auto simp: filter_denied_tools_iff)
  then have "applies f t r"
    by (simp add: applies_def blocks_matches)
  then show ?thesis
    using deny_rule_denies [OF assms(2-4) r(1) _ r(2)] by blast
qed

section \<open>Grants\<close>

lemma authorize_granted:
  assumes "cache_check (env_host env) (ctx_session_id ctx) t inp (grants st) = Some g"
  shows "fst (authorize env t inp ctx st) =
    Permission_Allow (Reason_Session_Grant (granted_at g) (signature g)) None"
  using assms by (intro authorize_Inr) (simp add: authorize_impl_def)

lemma handle_ask_grants:
  "fst (handle_ask env t inp ctx out (st\<lparr>grants := g\<rparr>)) = fst (handle_ask env t inp ctx out st)"
  by (auto simp: handle_ask_def Let_def split: if_splits prod.splits sum.splits verdict.splits)

lemma apply_outcome_grants:
  "fst (apply_outcome env t inp ctx out (st\<lparr>grants := g\<rparr>)) = fst (apply_outcome env t inp ctx out st)"
  by (simp add: apply_outcome_def Let_def handle_ask_grants split: option.splits)

lemma authorize_impl_grants:
  assumes "cache_check (env_host env) (ctx_session_id ctx) t inp g =
      cache_check (env_host env) (ctx_session_id ctx) t inp (grants st)"
  shows "fst (authorize_impl env t inp ctx (st\<lparr>grants := g\<rparr>)) = fst (authorize_impl env t inp ctx st)"
  using assms
  by (cases "is_plan_file_write env t inp ctx (slugs st)";
      cases "decide (snapshot_rules (rules st)) t inp ctx";
      cases "cache_check (env_host env) (ctx_session_id ctx) t inp (grants st)")
     (simp_all add: authorize_impl_def Let_def apply_outcome_grants)

lemma authorize_grants:
  assumes "cache_check (env_host env) (ctx_session_id ctx) t inp g =
      cache_check (env_host env) (ctx_session_id ctx) t inp (grants st)"
  shows "fst (authorize env t inp ctx (st\<lparr>grants := g\<rparr>)) = fst (authorize env t inp ctx st)"
  using authorize_impl_grants [OF assms]
  by (cases "fst (authorize_impl env t inp ctx st)") (simp_all add: authorize_Inl authorize_Inr)

section \<open>Plan mode\<close>

lemma is_plan_file_write_True:
  assumes "is_plan_file_write env t inp ctx cache = (True, cache')"
  shows "t_name t \<in> {''FileEdit'', ''FileWrite''} \<and>
    (\<exists>path slug. map_of inp ''file_path'' = Some (JStr path) \<and>
       cache' (ctx_session_id ctx) = Some slug \<and>
       prefix (path_join (plans_dir (env_plans env)) slug) (normpath path))"
  using assms accepted_prefix
  by (fastforce simp: is_plan_file_write_def split: option.splits json.splits if_splits)

lemma authorize_plan:
  assumes "no_grant env t inp ctx st" "ctx_mode ctx = Plan" "is_mutating (t_kind t)"
  shows "fst (authorize env t inp ctx st) =
    (if fst (is_plan_file_write env t inp ctx (slugs st)) then Permission_Allow (Reason_Mode Plan) None
     else Permission_Deny ''plan mode forbids side effects'' (Reason_Mode Plan))"
  using assms
  by (intro authorize_Inr) (auto simp: authorize_impl_def no_grant_def Let_def split: prod.splits)

end
