(* ===== verification/Authz_Properties.thy ===== *)
theory Authz_Properties
  imports Authorizer
begin

text \<open>
  The properties of the authorization subsystem (\<open>tool_authz/\<close> and \<open>plans.py\<close>) and their witnesses:
  rule parsing, rule ids, the rule engine, grants, the judge's budget, and the decision flow.
\<close>

section \<open>A concrete kernel for the witnesses\<close>

definition sample_host :: host where
  "sample_host = \<lparr>dumps = (\<lambda>d. if d = [] then Some ''{}'' else None), repr_items = (\<lambda>d. ''[]''),
     sha256_hex = (\<lambda>s. s)\<rparr>"

definition sample_world :: plan_world where
  "sample_world = \<lparr>plans_dir = ''/h/plans'', plan_exists = (\<lambda>_. False), draws = (\<lambda>_. (0, 0))\<rparr>"

definition sample_judge :: judge where
  "sample_judge = \<lparr>prompts = None, stream = (\<lambda>_ _ _. ([Text_Chunk ''[]''], None)),
     loads = (\<lambda>s. if s = ''[]'' then Some (JArr []) else None)\<rparr>"

definition sample_env :: authz_env where
  "sample_env = \<lparr>env_host = sample_host, env_plans = sample_world, env_judge = sample_judge,
     env_llm = Some (\<lambda>_. Inr ''m''), env_hooks = Some (\<lambda>_. []), env_now = 0, str_of = (\<lambda>_. [])\<rparr>"

definition sample_ctx :: "permission_mode \<Rightarrow> authorize_context" where
  "sample_ctx m = \<lparr>ctx_session_id = ''s'', ctx_agent_depth = 0, ctx_mode = m, ctx_cwd = ''/w'',
     ctx_connection_auth = [], should_avoid_prompts = False\<rparr>"

definition sample_rule :: "string \<Rightarrow> behavior \<Rightarrow> permission_rule" where
  "sample_rule n b = \<lparr>source = USER, layer_index = 0, rule_id = ''r'', rule_behavior = b,
     rvalue = \<lparr>tool_name = n, rule_content = None\<rparr>, raw_dsl = n\<rparr>"

definition sample_state :: "permission_rule list \<Rightarrow> authorizer" where
  "sample_state rs = new_authorizer\<lparr>rules := \<lparr>config_rules = rs, flag_rules = []\<rparr>\<rparr>"

lemmas sample_defs = sample_host_def sample_world_def sample_judge_def sample_env_def sample_ctx_def
  sample_rule_def sample_state_def new_authorizer_def new_classifier_def empty_store_def
  snapshot_rules_def

lemma sample_no_grant [simp]: "no_grant sample_env t inp (sample_ctx m) (sample_state rs)"
  by (simp add: no_grant_def sample_defs cache_check_def cache_look_def)

lemma sample_mode [simp]: "mode_overrides t (sample_ctx Default) = False"
  "mode_overrides t (sample_ctx Dont_Ask) = False"
  by (simp_all add: mode_overrides_def sample_ctx_def)

lemma sample_not_mode: "\<not> mode_overrides t (sample_ctx Default)" "\<not> mode_overrides t (sample_ctx Dont_Ask)"
  by simp_all

lemma sample_answers [simp]:
  "answers (base_tool n k) inp ctx (\<lambda>_. False)
     \<lparr>sg_risk = Low, sg_decision = Ask, sg_reason = ''no tool-specific risk rule defined''\<rparr> False"
  by (simp add: answers_def matcher_is_def base_tool_def base_matcher_def base_default_risk_def)

lemma sample_rules [simp]: "snapshot_rules (rules (sample_state rs)) = rs"
  by (simp add: sample_defs)

section \<open>Rules\<close>

text \<open>
  C39: The rule DSL round-trips: for a tool name without parentheses or outer spaces and any
  non-empty content, the scoped rule written with escapes parses to exactly that name and content,
  the rule keeps the behaviour it was listed under, and its id is its source and index.
\<close>

theorem parse_rule_roundtrip:
  assumes "plain_name n" "c \<noteq> []"
  shows "parse_rule (n @ ''('' @ escape_dsl c @ '')'') b src i =
    \<lparr>source = src, layer_index = i, rule_id = source_value src @ '':'' @ show_nat i,
     rule_behavior = b, rvalue = \<lparr>tool_name = n, rule_content = Some c\<rparr>,
     raw_dsl = n @ ''('' @ escape_dsl c @ '')''\<rparr>"
  unfolding parse_rule_def Let_def split_scoped [OF assms] by simp

theorem parse_rule_roundtrip_witness:
  "rvalue (parse_rule (''Bash'' @ ''('' @ escape_dsl ''a(b)'' @ '')'') Deny USER 0) =
     \<lparr>tool_name = ''Bash'', rule_content = Some ''a(b)''\<rparr>"
  using parse_rule_roundtrip [of "''Bash''" "''a(b)''" Deny USER 0]
  by (simp add: plain_name_def py_space_def)

text \<open>
  A rule string is accepted with content only if it is, up to outer whitespace, a name, an
  opening paren, the escaped content and a closing paren; every other string becomes a deny rule
  for the tool name no real tool has, so it can match no tool that is not called by that name.
\<close>

lemma parse_rule_sound:
  "case rule_content (rvalue (parse_rule raw b src i)) of
     Some c \<Rightarrow> c \<noteq> [] \<and> rule_behavior (parse_rule raw b src i) = b \<and>
       (\<exists>pre. strip raw = pre @ ''('' @ escape_dsl c @ '')'' \<and> CHR ''('' \<notin> set pre
          \<and> tool_name (rvalue (parse_rule raw b src i)) = strip pre)
   | None \<Rightarrow>
       tool_name (rvalue (parse_rule raw b src i)) = strip raw
         \<and> rule_behavior (parse_rule raw b src i) = b
       \<or> tool_name (rvalue (parse_rule raw b src i)) = unparsed
         \<and> rule_behavior (parse_rule raw b src i) = Deny
         \<and> (\<forall>t. matches_name t unparsed \<or> \<not> rule_matches_tool (parse_rule raw b src i) t)"
proof (cases "split_tool_and_content raw")
  case (Inl e)
  then have "tool_name (rvalue (parse_rule raw b src i)) = unparsed"
    "rule_behavior (parse_rule raw b src i) = Deny"
    by (simp_all add: parse_rule_Inl)
  moreover have "rule_content (rvalue (parse_rule raw b src i)) = None"
    using Inl by (simp add: parse_rule_def)
  ultimately show ?thesis using unparsed_never_matches by auto
next
  case (Inr p)
  then obtain n content where p: "split_tool_and_content raw = Inr (n, content)" by (cases p) simp
  show ?thesis
  proof (cases content)
    case None
    with p show ?thesis
      by (simp add: parse_rule_def Let_def)
        (auto simp: split_tool_and_content_def Let_def bindR_eq_Inr split: if_splits)
  next
    case (Some c)
    with p show ?thesis using split_scoped_iff [of raw n c] by (auto simp: parse_rule_def)
  qed
qed

lemma parse_rule_sound_witness:
  "rule_behavior (parse_rule ''Bash(git'' Allow USER 0) = Deny
   \<and> \<not> rule_matches_tool (parse_rule ''Bash(git'' Allow USER 0) (base_tool ''Bash'' Execute)"
proof -
  have content: "rule_content (rvalue (parse_rule ''Bash(git'' Allow USER 0)) = None"
    and name: "tool_name (rvalue (parse_rule ''Bash(git'' Allow USER 0)) \<noteq> strip ''Bash(git''"
    by code_simp+
  have "\<not> matches_name (base_tool ''Bash'' Execute) unparsed"
    by (simp add: matches_name_def base_tool_def unparsed_def)
  then show ?thesis
    using parse_rule_sound [of "''Bash(git''" Allow USER 0] content name by auto
qed

text \<open>
  However configuration binds, configuration changes (valid or not) and flag loads interleave,
  no two rules of the table the engine sees have the same id.
\<close>

lemma rule_ids_distinct:
  "distinct (map rule_id (snapshot_rules (fold store_step ops empty_store)))"
  by (intro store_inv_distinct store_inv_run store_inv_empty)

text \<open>
  C33: The one-pass scan of the rule table, with its memoised matcher and its early stop, computes
  the declarative priority: the first applying deny rule, else the first applying ask rule, else
  the first applying allow rule.
\<close>

theorem decide_effective:
  assumes "matcher_is t inp f" "t_default_risk t inp ctx = Inr sug" "t_is_destructive t inp = Inr d"
  shows "decide rs t inp ctx = Inr
     \<lparr>matched_rule = effective_rule f t rs,
      eff_behavior = map_option rule_behavior (effective_rule f t rs),
      suggested = sug, destructive = d\<rparr>"
  using assms by (rule decide_eq)

theorem decide_effective_witness:
  "map_option rule_id (matched_rule (projr (decide
     [sample_rule ''T'' Allow, (sample_rule ''T'' Deny)\<lparr>rule_id := ''d''\<rparr>] (base_tool ''T'' Other)
     [] (sample_ctx Default)))) = Some ''d''"
  using decide_effective [of "base_tool ''T'' Other" "[]" "\<lambda>_. False" "sample_ctx Default"
      "\<lparr>sg_risk = Low, sg_decision = Ask, sg_reason = ''no tool-specific risk rule defined''\<rparr>" False
      "[sample_rule ''T'' Allow, (sample_rule ''T'' Deny)\<lparr>rule_id := ''d''\<rparr>]"]
  by (simp add: matcher_is_def base_tool_def base_matcher_def base_default_risk_def
      effective_rule_def first_hit_def applies_def rule_matches_tool_def matches_name_def
      sample_rule_def)

section \<open>Denials\<close>

text \<open>
  C1: Deny rules win: with no session grant and outside the modes that decide alone, if any deny
  rule of the table applies to the call then the call is denied, and the message names an
  applying deny rule - whatever allow and ask rules surround it and whatever the tool suggests.
\<close>

theorem deny_rule_wins:
  assumes "no_grant env t inp ctx st" "\<not> mode_overrides t ctx" "answers t inp ctx f sug d"
    and "r \<in> set (snapshot_rules (rules st))" "applies f t r" "rule_behavior r = Deny"
  shows "\<exists>r' \<in> set (snapshot_rules (rules st)). rule_behavior r' = Deny \<and> applies f t r' \<and>
    fst (authorize env t inp ctx st) =
      Permission_Deny (''tool call denied by rule '' @ rule_id r') (rule_reason r')"
  using assms by (rule deny_rule_denies)

lemma sample_applies [simp]: "applies f (base_tool n k) (sample_rule n b)"
  by (simp add: applies_def sample_rule_def rule_matches_tool_def base_tool_def matches_name_def)

lemma sample_behavior [simp]: "rule_behavior (sample_rule n b) = b"
  by (simp add: sample_rule_def)

theorem deny_rule_wins_witness:
  "\<exists>r' \<in> {sample_rule ''T'' Allow, sample_rule ''T'' Deny}. rule_behavior r' = Deny \<and>
    fst (authorize sample_env (base_tool ''T'' Other) [] (sample_ctx Default)
           (sample_state [sample_rule ''T'' Allow, sample_rule ''T'' Deny])) =
      Permission_Deny (''tool call denied by rule '' @ rule_id r') (rule_reason r')"
  using deny_rule_wins [of sample_env "base_tool ''T'' Other" "[]" "sample_ctx Default"
      "sample_state [sample_rule ''T'' Allow, sample_rule ''T'' Deny]" _ _ _ "sample_rule ''T'' Deny",
      OF sample_no_grant _ sample_answers]
  by simp

text \<open>
  Defence in depth: a tool that the pool filter hides from the model is also denied if it is
  called anyway, under the same conditions under which deny rules win.
\<close>

lemma filtered_call_denied:
  assumes "t_name t \<in> filter_denied_tools names st"
    and "no_grant env t inp ctx st" "\<not> mode_overrides t ctx" "answers t inp ctx f sug d"
  shows "\<exists>msg rsn. fst (authorize env t inp ctx st) = Permission_Deny msg rsn"
  using assms by (rule filtered_tool_denied)

lemma filtered_call_denied_witness:
  "\<exists>msg rsn. fst (authorize sample_env (base_tool ''mcp__srv__x'' Other) [] (sample_ctx Default)
     (sample_state [sample_rule ''mcp__srv'' Deny])) = Permission_Deny msg rsn"
proof -
  have "t_name (base_tool ''mcp__srv__x'' Other) \<in>
      filter_denied_tools {''mcp__srv__x'', ''Bash''} (sample_state [sample_rule ''mcp__srv'' Deny])"
    by (simp add: filter_denied_tools_iff base_tool_def sample_rule_def rule_blocks_tool_name_def
        mcp_prefix_def sublist_code)
  then show ?thesis
    using filtered_call_denied [OF _ sample_no_grant _ sample_answers] by simp
qed

text \<open>
  In don't-ask mode a call whose tool asks is denied even when an allow rule matches it: the
  tool's own \<open>ask\<close> outranks the rule, and the mode then refuses. (The branch's comment says that
  pre-approved allow-rule tools still execute.)
\<close>

lemma dont_ask_ignores_allow_rule:
  assumes "no_grant env t inp ctx st" "ctx_mode ctx = Dont_Ask" "answers t inp ctx f sug d"
    and "sg_decision sug = Ask"
    and "effective_rule f t (snapshot_rules (rules st)) = Some r" "rule_behavior r = Allow"
  shows "fst (authorize env t inp ctx st) =
    Permission_Deny ''dont_ask mode: only pre-approved tools are allowed'' (Reason_Mode Dont_Ask)"
proof -
  have "\<not> mode_overrides t ctx" using assms(2) by (simp add: mode_overrides_def)
  then have "fst (authorize_impl env t inp ctx st) = Inr (Permission_Deny
      ''dont_ask mode: only pre-approved tools are allowed'' (Reason_Mode Dont_Ask))"
    using assms by (simp add: authorize_impl_effective apply_outcome_def handle_ask_def)
  then show ?thesis by (rule authorize_Inr)
qed

lemma dont_ask_ignores_allow_rule_witness:
  "fst (authorize sample_env (base_tool ''T'' Other) [] (sample_ctx Dont_Ask)
     (sample_state [sample_rule ''T'' Allow])) =
    Permission_Deny ''dont_ask mode: only pre-approved tools are allowed'' (Reason_Mode Dont_Ask)"
  by (rule dont_ask_ignores_allow_rule [where r = "sample_rule ''T'' Allow", OF sample_no_grant _ sample_answers])
     (simp_all add: sample_ctx_def effective_rule_def first_hit_def)

section \<open>Allowances\<close>




text \<open>
  The session's own plan file, or that of one of its agents, is writable in plan mode: with a
  normalised absolute plans directory, the path \<open>get_plan_file_path\<close> hands out is accepted.
\<close>

lemma own_plan_writable:
  assumes "clean_dir (plans_dir (env_plans env))" "slug_cache_ok (slugs st)"
    and "\<forall>a. agent = Some a \<longrightarrow> CHR ''/'' \<notin> set a"
    and "get_plan_file_path (env_plans env) (ctx_session_id ctx) agent (slugs st) = (path, cache)"
    and "ctx_mode ctx = Plan" "t_name t = ''FileWrite''" "t_kind t = Edit"
    and "map_of inp ''file_path'' = Some (JStr path)"
    and "no_grant env t inp ctx (st\<lparr>slugs := cache\<rparr>)"
  shows "fst (authorize env t inp ctx (st\<lparr>slugs := cache\<rparr>)) = Permission_Allow (Reason_Mode Plan) None"
proof -
  have own: "is_session_plan_file (env_plans env) path (ctx_session_id ctx) cache = (True, cache)"
    using own_plan_file_accepted [OF assms(1-4)] .
  have "path \<noteq> []"
    using assms(1,4) by (auto simp: get_plan_file_path_def path_join_def clean_dir_def
        split: prod.splits if_splits)
  then have "is_plan_file_write env t inp ctx cache = (True, cache)"
    using assms(6,8) own by (simp add: is_plan_file_write_def)
  then show ?thesis
    using assms(5,7,9) by (simp add: authorize_plan is_mutating_def)
qed


lemma sample_own_plan:
  "get_plan_file_path sample_world ''s'' None Map.empty =
     (''/h/plans/'' @ generate_slug (0, 0) @ ''.md'', [''s'' \<mapsto> generate_slug (0, 0)])"
  by (simp add: get_plan_file_path_def get_plan_slug_def plan_file_name_def path_join_def
      sample_world_def MAX_SLUG_RETRIES_def numeral_eq_Suc Let_def)

lemma sample_clean [simp]: "clean_dir (plans_dir sample_world)"
  by (simp add: clean_dir_def sample_world_def normpath_def initial_slashes_def Let_def)

lemma own_plan_writable_witness:
  "fst (authorize sample_env (base_tool ''FileWrite'' Edit)
      [(''file_path'', JStr (''/h/plans/'' @ generate_slug (0, 0) @ ''.md''))] (sample_ctx Plan)
      ((sample_state [])\<lparr>slugs := [''s'' \<mapsto> generate_slug (0, 0)]\<rparr>)) =
   Permission_Allow (Reason_Mode Plan) None"
  by (rule own_plan_writable [where agent = None and st = "sample_state []"
        and path = "''/h/plans/'' @ generate_slug (0, 0) @ ''.md''"])
     (use sample_own_plan in \<open>simp_all add: sample_env_def sample_ctx_def base_tool_def
        sample_state_def new_authorizer_def no_grant_def cache_check_def cache_look_def\<close>)


text \<open>
  C35: Grants round-trip and stay in their session: after \<open>allow always\<close> was answered for one call,
  exactly the calls of that session with the same signature are allowed on that grant, and every
  other call is decided as if nothing had been granted.
\<close>

theorem grant_roundtrip:
  "fst (authorize env t inp ctx (grant env gt ginp gctx st)) =
     (if ctx_session_id gctx = ctx_session_id ctx
         \<and> compute_signature (env_host env) gt ginp = compute_signature (env_host env) t inp
      then Permission_Allow (Reason_Session_Grant (env_now env)
             (compute_signature (env_host env) t inp)) None
      else fst (authorize env t inp ctx st))"
proof (cases "ctx_session_id gctx = ctx_session_id ctx
    \<and> compute_signature (env_host env) gt ginp = compute_signature (env_host env) t inp")
  case True
  then show ?thesis
    by (subst authorize_granted
          [where g = "fst (cache_grant (env_host env) (env_now env) (ctx_session_id gctx) gt ginp (grants st))"])
       (simp_all add: grant_def cache_check_grant, simp add: cache_grant_def Let_def)
next
  case False
  then show ?thesis
    unfolding grant_def by (subst authorize_grants) (auto simp: cache_check_grant)
qed

text \<open>
  C40: The grant cache implements its specification: after any history of session opens, closes
  and grants, a lookup finds the last grant of that signature in that session since the session
  was last closed, and nothing else.
\<close>

theorem grants_in_force:
  "cache_look sid sig (fold (grant_step cache_open cache_close cache_put) ops Map.empty) =
     in_force sid sig None ops"
  using gc.look_run [of sid sig ops Map.empty] by (simp add: cache_look_def)

section \<open>Requests, hooks and the judge\<close>

text \<open>
  The user is asked only through a channel that exists, and offered \<open>Allow always\<close> exactly
  when the tool says the input is not destructive; \<open>Allow once\<close> and \<open>Deny\<close> are always there.
\<close>

lemma ask_request_shape:
  assumes "fst (authorize env t inp ctx st) = Permission_Ask msg rsn btns"
  shows "\<not> should_avoid_prompts ctx \<and> ctx_mode ctx \<noteq> Dont_Ask \<and> ctx_mode ctx \<noteq> Bypass
    \<and> Allow_Once \<in> set (map btn_outcome btns) \<and> Deny_Once \<in> set (map btn_outcome btns)
    \<and> (Allow_Always \<in> set (map btn_outcome btns) \<longleftrightarrow> t_is_destructive t inp = Inr False)
    \<and> distinct (map btn_outcome btns)"
  using authorize_Ask [OF assms] by (auto simp: ask_buttons_def)

lemma ask_request_shape_witness:
  "Allow_Always \<in> set (map btn_outcome (ask_buttons False))"
proof -
  have "fst (authorize sample_env (base_tool ''T'' Other) [] (sample_ctx Default) (sample_state [])) =
      Permission_Ask ''T (no tool-specific risk rule defined)''
        (Reason_Default_Risk Low ''no tool-specific risk rule defined'' ''T'') (ask_buttons False)"
    by (rule authorize_Inr)
      (simp add: authorize_impl_effective [OF sample_no_grant sample_not_mode(1) sample_answers]
        apply_outcome_def handle_ask_def effective_rule_def first_hit_def build_ask_def
        build_ask_message_def default_reason_def truthy_def Let_def,
       simp add: sample_ctx_def base_tool_def SHELL_TOOL_NAMES_def)
  from ask_request_shape [OF this] show ?thesis by (simp add: base_tool_def)
qed

text \<open>
  Every denial and every request fires exactly one hook, of its own event type, for the tool
  of the call and with the message of the decision; an allowance fires none.
\<close>

lemma permission_hook_once:
  assumes "env_hooks env = Some reg"
  shows "case fst (authorize env t inp ctx st) of
      Permission_Allow _ _ \<Rightarrow> fired (snd (authorize env t inp ctx st)) = fired st
    | Permission_Deny msg _ \<Rightarrow> (\<exists>h. fired (snd (authorize env t inp ctx st)) = fired st @ [snd (fire reg h)]
        \<and> hc_event h = PERMISSION_DENIED \<and> hc_tool_name h = Some (t_name t)
        \<and> hc_error_message h = Some msg)
    | Permission_Ask msg _ _ \<Rightarrow> (\<exists>h. fired (snd (authorize env t inp ctx st)) = fired st @ [snd (fire reg h)]
        \<and> hc_event h = PERMISSION_REQUESTED \<and> hc_tool_name h = Some (t_name t)
        \<and> hc_error_message h = Some msg)"
proof -
  obtain res st' where impl: "authorize_impl env t inp ctx st = (res, st')" by fastforce
  have "fired st' = fired st" using authorize_impl_frame [OF impl] by simp
  then show ?thesis
    using assms by (auto simp: authorize_def impl Let_def fire_permission_hook_def permission_event_def
        new_hook_ctx_def split: sum.splits decision.splits)
qed

lemma permission_hook_once_witness:
  "length (fired (snd (authorize sample_env (base_tool ''T'' Other) [] (sample_ctx Dont_Ask)
     (sample_state [])))) = 1"
proof -
  have d: "fst (authorize sample_env (base_tool ''T'' Other) [] (sample_ctx Dont_Ask) (sample_state [])) =
      Permission_Deny ''dont_ask mode: only pre-approved tools are allowed'' (Reason_Mode Dont_Ask)"
    by (rule authorize_Inr)
      (simp add: authorize_impl_effective [OF sample_no_grant sample_not_mode(2) sample_answers]
        apply_outcome_def handle_ask_def effective_rule_def first_hit_def, simp add: sample_ctx_def)
  have "env_hooks sample_env = Some (\<lambda>_. [])" by (simp add: sample_env_def)
  from permission_hook_once [OF this, of "base_tool ''T'' Other" "[]" "sample_ctx Dont_Ask" "sample_state []"]
  show ?thesis using d by (auto simp: sample_state_def new_authorizer_def)
qed


text \<open>
  A judge that answers with JSON that is no object makes the whole call fail closed: the answer
  is denied as a crashed permission check, not treated as an unknown verdict that falls through to
  asking the user (as the parser's documentation has it).
\<close>

lemma nonobject_verdict_denies:
  assumes "no_grant env t inp ctx st" "\<not> mode_overrides t ctx" "answers t inp ctx f sug d"
    and "effective_rule f t (snapshot_rules (rules st)) = None" "sg_decision sug = Ask"
    and "ctx_mode ctx = Default" "\<not> should_avoid_prompts ctx" "t_name t \<in> SHELL_TOOL_NAMES"
    and "enabled (judge_state st)" "\<not> budget_exceeded (counters_for (judge_state st) (ctx_session_id ctx))"
    and "resolve_bash_judge_model env = Some m"
    and "stream_to_text (env_judge env) m (command_of env inp) (ctx_cwd ctx) = Inr answer"
    and "loads (env_judge env) (strip_fence answer) = Some j" "\<forall>o'. j \<noteq> JObj o'"
  shows "fst (authorize env t inp ctx st) =
    Permission_Deny ''permission check failed'' (Reason_Fail_Closed ''authorize_crash'')"
proof -
  have parse: "parse_verdict (loads (env_judge env)) answer = Inl ''AttributeError''"
    using assms(13,14) by (auto simp: parse_verdict_def split: json.splits)
  have "fst (classify (env_judge env) (Some m) (ctx_session_id ctx) (command_of env inp)
      (ctx_cwd ctx) (judge_state st)) = Inl ''AttributeError''"
    using assms(9,10,12) parse by (simp add: classify_def Let_def cl_open_def counters_for_def)
  then have "fst (authorize_impl env t inp ctx st) = Inl ''AttributeError''"
    using assms(4-9,11) by (auto simp: authorize_impl_effective [OF assms(1-3)] apply_outcome_def
        handle_ask_def Let_def case_prod_beta split: sum.splits)
  then show ?thesis by (rule authorize_Inl)
qed


lemma nonobject_verdict_denies_witness:
  "fst (authorize sample_env (base_tool ''Bash'' Execute) [(''command'', JStr ''ls'')]
     (sample_ctx Default) (sample_state [])) =
    Permission_Deny ''permission check failed'' (Reason_Fail_Closed ''authorize_crash'')"
  by (rule nonobject_verdict_denies [where m = "''m''" and answer = "''[]''" and j = "JArr []",
        OF sample_no_grant sample_not_mode(1) sample_answers])
     (simp_all add: sample_defs effective_rule_def first_hit_def SHELL_TOOL_NAMES_def base_tool_def
        budget_exceeded_def counters_for_def new_counters_def MAX_CONSECUTIVE_def MAX_TOTAL_def
        resolve_bash_judge_model_def stream_to_text_def judge_texts_def strip_def lstrip_def
        rstrip_def py_space_def strip_fence_def fence_def)

end
