(* ===== verification/Py_Text.thy ===== *)
theory Py_Text
  imports Prelude
begin

text \<open>
  The parts of Python's standard library that the kernel's text tests use: \<open>re\<close> searches (as a
  regular-expression datatype with its matcher), \<open>shlex.split\<close>, \<open>fnmatch.fnmatch\<close> and \<open>repr\<close> of a
  string. Characters are the code points below 256.
\<close>

section \<open>Regular expressions\<close>

text \<open>\<open>\w\<close> for the code points below 256: what \<open>str.isalnum\<close> accepts, and the underscore.\<close>

definition word_char :: "char \<Rightarrow> bool" where
  "word_char c = (let n = (of_char c :: nat) in
     48 \<le> n \<and> n \<le> 57 \<or> 65 \<le> n \<and> n \<le> 90 \<or> 97 \<le> n \<and> n \<le> 122 \<or> n = 95
     \<or> 192 \<le> n \<and> n \<noteq> 215 \<and> n \<noteq> 247 \<or> n \<in> {170, 178, 179, 181, 185, 186, 188, 189, 190})"

definition ascii_letter :: "char \<Rightarrow> bool" where
  "ascii_letter c = (let n = (of_char c :: nat) in 65 \<le> n \<and> n \<le> 90 \<or> 97 \<le> n \<and> n \<le> 122)"

definition digit_char :: "char \<Rightarrow> bool" where
  "digit_char c = (let n = (of_char c :: nat) in 48 \<le> n \<and> n \<le> 57)"

datatype regex =
  Cls "char \<Rightarrow> bool"
| Eps
| Seq regex regex
| Alt regex regex
| Star regex
| Word_Boundary
| Line_Start
| Line_End
| Not_Ahead regex

text \<open>
  A position in the text is the character before it, if any, and the text after it. \<open>ends\<close> lists
  the positions where a match that begins at a position may end; whether a search succeeds does
  not depend on the order in which Python would try them. A star is iterated at most as often as
  characters are left, and only iterations that advance are kept.
\<close>

type_synonym pos = "char option \<times> string"

fun word_at :: "char option \<Rightarrow> bool" where
  "word_at None = False"
| "word_at (Some c) = word_char c"

fun peek :: "string \<Rightarrow> char option" where
  "peek [] = None"
| "peek (c # cs) = Some c"

fun star_ends :: "(pos \<Rightarrow> pos list) \<Rightarrow> nat \<Rightarrow> pos \<Rightarrow> pos list" where
  "star_ends f 0 p = [p]"
| "star_ends f (Suc n) p =
     p # concat (map (star_ends f n) (filter (\<lambda>q. length (snd q) < length (snd p)) (f p)))"

fun ends :: "regex \<Rightarrow> pos \<Rightarrow> pos list" where
  "ends (Cls P) (b, s) = (case s of [] \<Rightarrow> [] | c # cs \<Rightarrow> if P c then [(Some c, cs)] else [])"
| "ends Eps p = [p]"
| "ends (Seq r1 r2) p = concat (map (ends r2) (ends r1 p))"
| "ends (Alt r1 r2) p = ends r1 p @ ends r2 p"
| "ends (Star r) p = star_ends (ends r) (length (snd p)) p"
| "ends Word_Boundary (b, s) = (if word_at b \<noteq> word_at (peek s) then [(b, s)] else [])"
| "ends Line_Start (b, s) = (if b = None then [(b, s)] else [])"
| "ends Line_End (b, s) = (if s = [] \<or> s = [CHR 0x0A] then [(b, s)] else [])"
| "ends (Not_Ahead r) p = (if ends r p = [] then [p] else [])"

fun search_from :: "regex \<Rightarrow> char option \<Rightarrow> string \<Rightarrow> bool" where
  "search_from r b [] = (ends r (b, []) \<noteq> [])"
| "search_from r b (c # cs) = (ends r (b, c # cs) \<noteq> [] \<or> search_from r (Some c) cs)"

text \<open>\<open>pattern.search(s)\<close> as a truth value.\<close>

definition re_search :: "regex \<Rightarrow> string \<Rightarrow> bool" where
  "re_search r s = search_from r None s"

subsection \<open>Building patterns\<close>

definition lit :: "string \<Rightarrow> regex" where
  "lit s = foldr (\<lambda>c. Seq (Cls ((=) c))) s Eps"

text \<open>A literal under \<open>re.IGNORECASE\<close>, given in lower case.\<close>

definition ilit :: "string \<Rightarrow> regex" where
  "ilit s = foldr (\<lambda>c. Seq (Cls (\<lambda>x. lower_char x = c))) s Eps"

definition seqs :: "regex list \<Rightarrow> regex" where
  "seqs rs = foldr Seq rs Eps"

fun alts :: "regex list \<Rightarrow> regex" where
  "alts [] = Cls (\<lambda>_. False)"
| "alts [r] = r"
| "alts (r # rs) = Alt r (alts rs)"

definition plus :: "regex \<Rightarrow> regex" where
  "plus r = Seq r (Star r)"

definition opt :: "regex \<Rightarrow> regex" where
  "opt r = Alt r Eps"

definition times :: "nat \<Rightarrow> regex \<Rightarrow> regex" where
  "times n r = seqs (replicate n r)"

definition ws :: regex where "ws = Cls py_space"
definition any_char :: regex where "any_char = Cls (\<lambda>c. c \<noteq> CHR 0x0A)"
definition one_of :: "string \<Rightarrow> regex" where "one_of cs = Cls (\<lambda>c. c \<in> set cs)"

subsection \<open>What a search finds\<close>

lemma search_from_append:
  assumes "search_from r (if pre = [] then b else Some (last pre)) s"
  shows "search_from r b (pre @ s)"
  using assms
proof (induction pre arbitrary: b)
  case (Cons c pre)
  then show ?case by (cases "pre = []") (auto split: if_splits)
qed simp

lemma search_from_iff:
  "search_from r b s \<longleftrightarrow>
     (\<exists>pre t. s = pre @ t \<and> ends r (if pre = [] then b else Some (last pre), t) \<noteq> [])"
proof (induction s arbitrary: b)
  case (Cons c cs)
  show ?case
  proof
    assume "search_from r b (c # cs)"
    then consider "ends r (b, c # cs) \<noteq> []" | "search_from r (Some c) cs" by auto
    then show "\<exists>pre t. c # cs = pre @ t \<and> ends r (if pre = [] then b else Some (last pre), t) \<noteq> []"
    proof cases
      case 1
      then show ?thesis by (intro exI [of _ "[]"] exI [of _ "c # cs"]) simp
    next
      case 2
      then obtain pre t where "cs = pre @ t" "ends r (if pre = [] then Some c else Some (last pre), t) \<noteq> []"
        using Cons.IH by blast
      then show ?thesis by (intro exI [of _ "c # pre"] exI [of _ t]) (auto split: if_splits)
    qed
  next
    assume "\<exists>pre t. c # cs = pre @ t \<and> ends r (if pre = [] then b else Some (last pre), t) \<noteq> []"
    then obtain pre t where pre: "c # cs = pre @ t" "ends r (if pre = [] then b else Some (last pre), t) \<noteq> []"
      by blast
    show "search_from r b (c # cs)"
    proof (cases pre)
      case Nil
      with pre have "ends r (b, c # cs) \<noteq> []" by simp
      then show ?thesis by simp
    next
      case (Cons a pre')
      with pre have "cs = pre' @ t" "a = c"
        "ends r (if pre' = [] then Some c else Some (last pre'), t) \<noteq> []"
        by (auto split: if_splits)
      then have "search_from r (Some c) cs" using Cons.IH by blast
      then show ?thesis by simp
    qed
  qed
qed simp

lemma ends_lit: "ends (lit w) (b, s) =
   (if prefix w s then [(if w = [] then b else Some (last w), drop (length w) s)] else [])"
proof (induction w arbitrary: b s)
  case (Cons c w)
  then show ?case by (cases s) (auto simp: lit_def)
qed (simp add: lit_def)

section \<open>shlex.split\<close>

text \<open>
  The POSIX tokenizer with whitespace splitting, no comments and no punctuation characters. The
  states are those of \<open>read_token\<close>: between tokens, inside a word, inside quotes, and after a
  backslash (with the state to return to). \<open>tok\<close> is the token so far in reverse; \<open>quoted\<close> keeps an
  empty quoted token alive.
\<close>

datatype shlex_state = Between | In_Word | In_Quote char | After_Escape shlex_state

definition shlex_ws :: "char \<Rightarrow> bool" where
  "shlex_ws c \<longleftrightarrow> c \<in> {CHR 0x20, CHR 0x09, CHR 0x0D, CHR 0x0A}"

definition backslash_char :: char where "backslash_char = CHR 0x5C"
definition squote :: char where "squote = CHR 0x27"
definition dquote :: char where "dquote = CHR 0x22"

fun shlex_go :: "shlex_state \<Rightarrow> string \<Rightarrow> bool \<Rightarrow> string \<Rightarrow> string list result" where
  "shlex_go (In_Quote q) tok quoted [] = Inl ''No closing quotation''"
| "shlex_go (After_Escape st) tok quoted [] = Inl ''No escaped character''"
| "shlex_go Between tok quoted [] = Inr (if tok \<noteq> [] \<or> quoted then [rev tok] else [])"
| "shlex_go In_Word tok quoted [] = Inr (if tok \<noteq> [] \<or> quoted then [rev tok] else [])"
| "shlex_go Between tok quoted (c # cs) =
     (if shlex_ws c then
        (if tok \<noteq> [] \<or> quoted then mapR (\<lambda>ts. rev tok # ts) (shlex_go Between [] False cs)
         else shlex_go Between tok quoted cs)
      else if c = backslash_char then shlex_go (After_Escape In_Word) tok quoted cs
      else if c = squote \<or> c = dquote then shlex_go (In_Quote c) tok quoted cs
      else shlex_go In_Word [c] quoted cs)"
| "shlex_go (In_Quote q) tok quoted (c # cs) =
     (if c = q then shlex_go In_Word tok True cs
      else if c = backslash_char \<and> q = dquote then shlex_go (After_Escape (In_Quote q)) tok True cs
      else shlex_go (In_Quote q) (c # tok) True cs)"
| "shlex_go (After_Escape st) tok quoted (c # cs) =
     (let tok' = (case st of
                    In_Quote q \<Rightarrow> if c \<noteq> backslash_char \<and> c \<noteq> q then c # backslash_char # tok else c # tok
                  | _ \<Rightarrow> c # tok)
      in shlex_go st tok' quoted cs)"
| "shlex_go In_Word tok quoted (c # cs) =
     (if shlex_ws c then
        (if tok \<noteq> [] \<or> quoted then mapR (\<lambda>ts. rev tok # ts) (shlex_go Between [] False cs)
         else shlex_go Between tok quoted cs)
      else if c = squote \<or> c = dquote then shlex_go (In_Quote c) tok quoted cs
      else if c = backslash_char then shlex_go (After_Escape In_Word) tok quoted cs
      else shlex_go In_Word (c # tok) quoted cs)"

definition shlex_split :: "string \<Rightarrow> string list result" where
  "shlex_split s = shlex_go Between [] False s"

section \<open>fnmatch.fnmatch\<close>

text \<open>
  Shell patterns, on a system whose file names are case-sensitive. The members of a bracket class
  are read left to right: a character, or a range that is empty when it runs backwards. A bracket
  that never closes is an ordinary character.
\<close>

fun class_mem :: "string \<Rightarrow> char \<Rightarrow> bool" where
  "class_mem (a # b # c # rest) x =
     (if b = CHR ''-'' then (of_char a :: nat) \<le> of_char x \<and> (of_char x :: nat) \<le> of_char c \<or> class_mem rest x
      else x = a \<or> class_mem (b # c # rest) x)"
| "class_mem cs x = (x \<in> set cs)"

definition in_class :: "string \<Rightarrow> char \<Rightarrow> bool" where
  "in_class body x =
     (case body of
        [] \<Rightarrow> False
      | c # rest \<Rightarrow> if c = CHR ''!'' then \<not> class_mem rest x else class_mem body x)"

text \<open>The body of a class after its bracket, and the pattern after it; a leading \<open>]\<close> is a member.\<close>

definition class_body :: "string \<Rightarrow> (string \<times> string) option" where
  "class_body p =
     (let neg = takeWhile (\<lambda>c. c = CHR ''!'') (take 1 p);
          p1 = drop (length neg) p;
          lead = takeWhile (\<lambda>c. c = CHR '']'') (take 1 p1);
          p2 = drop (length lead) p1;
          mid = takeWhile (\<lambda>c. c \<noteq> CHR '']'') p2
      in if CHR '']'' \<in> set p2 then Some (neg @ lead @ mid, drop (Suc (length mid)) p2) else None)"

lemma class_body_shorter: "class_body p = Some (body, rest) \<Longrightarrow> length rest < Suc (length p)"
  by (auto simp: class_body_def Let_def split: if_splits)

function (sequential) fnmatch :: "string \<Rightarrow> string \<Rightarrow> bool" where
  "fnmatch [] [] = True"
| "fnmatch (c # cs) [] = False"
| "fnmatch s (p # ps) =
     (if p = CHR ''*'' then fnmatch s ps \<or> (case s of [] \<Rightarrow> False | c # cs \<Rightarrow> fnmatch cs (p # ps))
      else case s of
        [] \<Rightarrow> False
      | c # cs \<Rightarrow>
          if p = CHR ''?'' then fnmatch cs ps
          else if p = CHR ''['' then
            (case class_body ps of
               None \<Rightarrow> c = p \<and> fnmatch cs ps
             | Some (body, rest) \<Rightarrow> in_class body c \<and> fnmatch cs rest)
          else c = p \<and> fnmatch cs ps)"
  by pat_completeness auto
termination
  by (relation "measure (\<lambda>(s, p). length s + length p)") (auto dest: class_body_shorter)

text \<open>Patterns without special characters match exactly themselves; a final star, any extension.\<close>

definition glob_plain :: "string \<Rightarrow> bool" where
  "glob_plain p \<longleftrightarrow> set p \<inter> {CHR ''*'', CHR ''?'', CHR ''[''} = {}"

lemma fnmatch_star: "fnmatch s ''*''"
  by (induction s) simp_all

lemma fnmatch_plain_append:
  "glob_plain p \<Longrightarrow> fnmatch s (p @ q) \<longleftrightarrow> (\<exists>r. s = p @ r \<and> fnmatch r q)"
proof (induction p arbitrary: s)
  case (Cons a p)
  then show ?case by (cases s) (auto simp: glob_plain_def)
qed simp

section \<open>repr of a string\<close>

definition hex_digit :: "nat \<Rightarrow> char" where
  "hex_digit d = (if d < 10 then char_of (48 + d) else char_of (87 + d))"

definition repr_char :: "char \<Rightarrow> char \<Rightarrow> string" where
  "repr_char q c = (let n = (of_char c :: nat) in
     if c = q \<or> c = backslash_char then [backslash_char, c]
     else if n = 9 then [backslash_char, CHR ''t'']
     else if n = 10 then [backslash_char, CHR ''n'']
     else if n = 13 then [backslash_char, CHR ''r'']
     else if n < 32 \<or> 127 \<le> n \<and> n \<le> 160 \<or> n = 173
       then [backslash_char, CHR ''x'', hex_digit (n div 16), hex_digit (n mod 16)]
     else [c])"

definition py_repr :: "string \<Rightarrow> string" where
  "py_repr s =
     (let q = (if squote \<in> set s \<and> dquote \<notin> set s then dquote else squote)
      in [q] @ concat (map (repr_char q) s) @ [q])"

end
