(* ===== verification/Bash_Risk.thy ===== *)
theory Bash_Risk
  imports Tool_Types Py_Text
begin

text \<open>
  \<open>tools/builtin/bash.py\<close>, the part the authorizer reads: the command lists and pattern tables, the
  risk a command line is given, the permission matcher and the destructive tests. Running the
  shell is not modelled.
\<close>

section \<open>The tables\<close>

definition ALLOWLIST_SAFE_COMMANDS :: "string list" where
  "ALLOWLIST_SAFE_COMMANDS =
     [''ls'', ''pwd'', ''cat'', ''head'', ''tail'', ''wc'', ''grep'', ''find'', ''echo'', ''printf'',
      ''which'', ''type'', ''file'', ''stat'', ''date'', ''uname'', ''hostname'', ''whoami'', ''id'',
      ''env'', ''git'', ''python'', ''python3'', ''uv'', ''node'', ''npm'', ''pnpm'', ''cargo'', ''go'',
      ''make'', ''pytest'', ''ruff'', ''mypy'', ''tsc'', ''yarn'']"

definition COMPOUND_SAFE_COMMANDS :: "string list" where
  "COMPOUND_SAFE_COMMANDS =
     [''ls'', ''tree'', ''du'', ''find'', ''fd'', ''locate'', ''grep'', ''rg'', ''ag'', ''ack'',
      ''which'', ''whereis'',
      ''cat'', ''head'', ''tail'', ''less'', ''more'', ''wc'', ''stat'', ''file'', ''strings'', ''jq'',
      ''yq'', ''awk'', ''cut'', ''sort'', ''uniq'', ''tr'', ''column'', ''diff'', ''comm'',
      ''echo'', ''printf'', ''true'', ''false'', ''pwd'', ''whoami'', ''date'', ''uname'', ''env'',
      ''printenv'', ''hostname'', ''id'', ''uptime'', ''free'', ''df'', ''lsblk'', ''lscpu'',
      ''cloc'', ''sha256sum'', ''md5sum'', ''xxd'', ''hexdump'', ''base64'', ''man'', ''type'',
      ''command'']"

definition GIT_READ_ONLY :: "string list" where
  "GIT_READ_ONLY =
     [''status'', ''log'', ''diff'', ''show'', ''branch'', ''remote'', ''tag'', ''describe'',
      ''rev-parse'', ''rev-list'', ''ls-files'', ''ls-tree'', ''stash list'', ''shortlog'', ''blame'']"

text \<open>
  A compiled pattern is its text, which messages quote, and the expression the text denotes.
  \<open>pat\<close> writes the text with a percent sign for the backslash, which no pattern contains.
\<close>

type_synonym compiled = "string \<times> regex"

definition pat :: "string \<Rightarrow> string" where
  "pat s = map (\<lambda>c. if c = CHR ''%'' then backslash_char else c) s"

definition DANGEROUS_PATTERNS :: "compiled list" where
  "DANGEROUS_PATTERNS =
     [(pat ''%brm%s+(-[rRf]+%s+)?[/~]'',
         seqs [Word_Boundary, lit ''rm'', plus ws,
               opt (seqs [lit ''-'', plus (one_of ''rRf''), plus ws]), one_of ''/~'']),
      (pat ''%bdd%s+.*%bof=/dev/'',
         seqs [Word_Boundary, lit ''dd'', plus ws, Star any_char, Word_Boundary, lit ''of=/dev/'']),
      (pat ''%bmkfs%.'', seqs [Word_Boundary, lit ''mkfs.'']),
      (pat '':%(%)%s*%{.*;:'', seqs [lit '':()'', Star ws, lit ''{'', Star any_char, lit '';:'']),
      (pat ''%bchmod%s+-R%s+[0-7]{3,4}%s+[/~]'',
         seqs [Word_Boundary, lit ''chmod'', plus ws, lit ''-R'', plus ws,
               times 3 (one_of ''01234567''), opt (one_of ''01234567''), plus ws, one_of ''/~'']),
      (pat ''%bshutdown%b'', seqs [Word_Boundary, lit ''shutdown'', Word_Boundary]),
      (pat ''%breboot%b'', seqs [Word_Boundary, lit ''reboot'', Word_Boundary]),
      (pat ''%bhalt%b'', seqs [Word_Boundary, lit ''halt'', Word_Boundary]),
      (pat ''%bgit%s+push%s+.*--force%b'',
         seqs [Word_Boundary, lit ''git'', plus ws, lit ''push'', plus ws, Star any_char,
               lit ''--force'', Word_Boundary]),
      (pat ''%bgit%s+push%s+.*-f%b(?!orce-with-lease)'',
         seqs [Word_Boundary, lit ''git'', plus ws, lit ''push'', plus ws, Star any_char,
               lit ''-f'', Word_Boundary, Not_Ahead (lit ''orce-with-lease'')])]"

text \<open>\<open>[^;&|\n]\<close>, and the start of a line or of a command: \<open>(^|[;&|\n]\s*)\<close>.\<close>

definition no_sep :: regex where
  "no_sep = Cls (\<lambda>c. c \<notin> {CHR '';'', CHR ''&'', CHR ''|'', CHR 0x0A})"

definition cmd_start :: regex where
  "cmd_start = Alt Line_Start
     (seqs [Cls (\<lambda>c. c \<in> {CHR '';'', CHR ''&'', CHR ''|'', CHR 0x0A}), Star ws])"

abbreviation letters :: regex where
  "letters \<equiv> Star (Cls ascii_letter)"

definition DESTRUCTIVE_WARNINGS :: "(regex \<times> string) list" where
  "DESTRUCTIVE_WARNINGS =
     [(seqs [Word_Boundary, lit ''git'', plus ws, lit ''reset'', plus ws, lit ''--hard'', Word_Boundary],
       ''may discard uncommitted changes''),
      (seqs [Word_Boundary, lit ''git'', plus ws, lit ''push'', Word_Boundary, Star no_sep, plus ws,
             alts [lit ''--force'', lit ''--force-with-lease'', lit ''-f''], Word_Boundary],
       ''may overwrite remote history''),
      (seqs [Word_Boundary, lit ''git'', plus ws, lit ''clean'', Word_Boundary,
             Not_Ahead (seqs [Star no_sep,
               alts [seqs [lit ''-'', letters, lit ''n''], lit ''--dry-run'']]),
             Star no_sep, lit ''-'', letters, lit ''f''],
       ''may permanently delete untracked files''),
      (seqs [Word_Boundary, lit ''git'', plus ws, lit ''checkout'', plus ws,
             opt (seqs [lit ''--'', plus ws]), lit ''.''],
       ''may discard all working tree changes''),
      (seqs [Word_Boundary, lit ''git'', plus ws, lit ''restore'', plus ws,
             opt (seqs [lit ''--'', plus ws]), lit ''.''],
       ''may discard all working tree changes''),
      (seqs [Word_Boundary, lit ''git'', plus ws, lit ''stash'', plus ws,
             alts [lit ''drop'', lit ''clear''], Word_Boundary],
       ''may permanently delete stashed changes''),
      (seqs [Word_Boundary, lit ''git'', plus ws, lit ''branch'', plus ws,
             alts [seqs [lit ''-D'', ws], seqs [lit ''--delete'', plus ws, lit ''--force''],
                   seqs [lit ''--force'', plus ws, lit ''--delete'']]],
       ''may force-delete a branch''),
      (alts [seqs [cmd_start, lit ''rm'', plus ws, lit ''-'', letters, one_of ''rR'', letters, lit ''f''],
             seqs [cmd_start, lit ''rm'', plus ws, lit ''-'', letters, lit ''f'', letters, one_of ''rR'']],
       ''may recursively force-remove files''),
      (seqs [cmd_start, lit ''rm'', plus ws, lit ''-'', letters, one_of ''rR''],
       ''may recursively remove files''),
      (seqs [Word_Boundary, alts [ilit ''drop'', ilit ''truncate''], plus ws,
             alts [ilit ''table'', ilit ''database'', ilit ''schema''], Word_Boundary],
       ''may drop or truncate database objects''),
      (seqs [Word_Boundary, ilit ''delete'', plus ws, ilit ''from'', plus ws, plus (Cls word_char), Star ws,
             Alt (Cls (\<lambda>c. c \<in> {CHR '';'', dquote, squote, CHR 0x0A})) Line_End],
       ''may delete all rows from a table''),
      (seqs [Word_Boundary, lit ''kubectl'', plus ws, lit ''delete'', Word_Boundary],
       ''may delete Kubernetes resources''),
      (seqs [Word_Boundary, lit ''terraform'', plus ws, lit ''destroy'', Word_Boundary],
       ''may destroy infrastructure'')]"

section \<open>Taking a command line apart\<close>

text \<open>\<open>_argv_head\<close>: \<open>None\<close> when the line does not tokenize or has no token.\<close>

definition argv_head :: "string \<Rightarrow> string option" where
  "argv_head command =
     (case shlex_split command of
        Inl _ \<Rightarrow> None
      | Inr [] \<Rightarrow> None
      | Inr (t # _) \<Rightarrow> Some t)"

text \<open>
  \<open>re.split(r"\s*(?:&&|\|\||[;|])\s*", ...)\<close> without the spaces around the operators, which the
  strip of every part removes; a double operator wins over a single one.
\<close>

fun split_ops :: "string \<Rightarrow> string list" where
  "split_ops [] = [[]]"
| "split_ops [c] = (if c = CHR '';'' \<or> c = CHR ''|'' then [[], []] else [[c]])"
| "split_ops (c # d # cs) =
     (if (c = CHR ''&'' \<or> c = CHR ''|'') \<and> d = c then [] # split_ops cs
      else if c = CHR '';'' \<or> c = CHR ''|'' then [] # split_ops (d # cs)
      else (case split_ops (d # cs) of [] \<Rightarrow> [[c]] | p # ps \<Rightarrow> (c # p) # ps))"

definition extract_commands :: "string \<Rightarrow> string list" where
  "extract_commands command =
     filter (\<lambda>p. p \<noteq> []) (map strip (split_ops (strip command)))"

definition base_command :: "string \<Rightarrow> string \<times> string option" where
  "base_command fragment =
     (case split_ws fragment of
        [] \<Rightarrow> ([], None)
      | [h] \<Rightarrow> (h, None)
      | h # s # _ \<Rightarrow> if h = ''git'' then (h, Some s) else (h, None))"

definition fragment_safe :: "string list \<Rightarrow> string \<Rightarrow> bool" where
  "fragment_safe extra frag =
     (let (h, git_sub) = base_command frag in
      if h = [] then False
      else if h = ''git'' then (case git_sub of None \<Rightarrow> False | Some s \<Rightarrow> s \<in> set GIT_READ_ONLY)
      else h \<in> set COMPOUND_SAFE_COMMANDS \<union> set extra)"

definition is_compound_safe :: "string \<Rightarrow> string list \<Rightarrow> bool" where
  "is_compound_safe command extra =
     (let fragments = extract_commands command
      in fragments \<noteq> [] \<and> list_all (fragment_safe extra) fragments)"

section \<open>What the authorizer asks the tool\<close>

definition compound_tokens :: "string list" where
  "compound_tokens = [''&&'', ''||'', ''|'', '';'']"

definition dangerous_match :: "string \<Rightarrow> string option" where
  "dangerous_match command = map_option fst (find (\<lambda>p. re_search (snd p) command) DANGEROUS_PATTERNS)"

definition suggest :: "risk \<Rightarrow> behavior \<Rightarrow> string \<Rightarrow> suggestion result" where
  "suggest r b why = Inr \<lparr>sg_risk = r, sg_decision = b, sg_reason = why\<rparr>"

text \<open>\<open>default_risk\<close> on a command string, its branches in the code's order.\<close>

definition command_risk :: "string list \<Rightarrow> string \<Rightarrow> suggestion result" where
  "command_risk extra command =
     (if strip command = [] then suggest Medium Ask ''empty command''
      else case dangerous_match command of
        Some p \<Rightarrow> suggest High Deny (''matches dangerous pattern '' @ py_repr p)
      | None \<Rightarrow>
          if sublist ''$('' command \<or> sublist ''`'' command
          then suggest Medium Ask ''sub-shell needs review''
          else if \<exists>tok \<in> set compound_tokens. sublist tok command then
            (if is_compound_safe command extra
             then suggest Low Allow ''all sub-commands in read-only list''
             else suggest Medium Ask ''compound command needs review'')
          else case argv_head command of
            None \<Rightarrow> suggest Medium Ask ''could not parse argv''
          | Some h \<Rightarrow>
              if h \<in> set ALLOWLIST_SAFE_COMMANDS \<union> set extra
              then suggest Low Allow (''safe allowlist: '' @ py_repr h)
              else suggest Medium Ask (''unclassified command: '' @ py_repr h))"

definition bash_default_risk ::
    "string list \<Rightarrow> dict \<Rightarrow> authorize_context \<Rightarrow> suggestion result" where
  "bash_default_risk extra inp ctx =
     (case map_of inp ''command'' of
        Some (JStr command) \<Rightarrow> command_risk extra command
      | _ \<Rightarrow> suggest Medium Ask ''empty command'')"

text \<open>\<open>str(input.get("command", ""))\<close>; \<open>str_json\<close> is \<open>str\<close> of a value that is no string.\<close>

definition command_text :: "(json \<Rightarrow> string) \<Rightarrow> dict \<Rightarrow> string" where
  "command_text str_json inp =
     (case map_of inp ''command'' of
        None \<Rightarrow> []
      | Some (JStr s) \<Rightarrow> s
      | Some j \<Rightarrow> str_json j)"

definition command_matches :: "string \<Rightarrow> string \<Rightarrow> bool" where
  "command_matches command pattern =
     (if suffix '':*'' pattern then
        (let prf = rstrip (take (length pattern - 2) pattern)
         in command = prf \<or> prefix (prf @ '' '') command)
      else if CHR ''*'' \<in> set pattern \<or> CHR ''?'' \<in> set pattern then fnmatch command pattern
      else command = pattern)"

definition bash_matcher :: "(json \<Rightarrow> string) \<Rightarrow> dict \<Rightarrow> (string \<Rightarrow> bool result) result" where
  "bash_matcher str_json inp = Inr (\<lambda>pattern. Inr (command_matches (command_text str_json inp) pattern))"

definition bash_is_destructive :: "(json \<Rightarrow> string) \<Rightarrow> dict \<Rightarrow> bool result" where
  "bash_is_destructive str_json inp =
     Inr (\<exists>p \<in> set DANGEROUS_PATTERNS. re_search (snd p) (command_text str_json inp))"

definition bash_destructive_warning :: "(json \<Rightarrow> string) \<Rightarrow> dict \<Rightarrow> string option result" where
  "bash_destructive_warning str_json inp =
     (let warnings = map snd (filter (\<lambda>p. re_search (fst p) (command_text str_json inp)) DESTRUCTIVE_WARNINGS)
      in Inr (if warnings = [] then None else Some (join ''; '' warnings)))"

definition bash_validate_input :: "dict \<Rightarrow> unit result" where
  "bash_validate_input inp =
     (case map_of inp ''command'' of
        Some (JStr command) \<Rightarrow>
          if strip command = [] then Inl ''command must be a non-empty string''
          else if 32000 < length command then Inl ''command exceeds 32,000 character limit''
          else Inr ()
      | _ \<Rightarrow> Inl ''command must be a non-empty string'')"

definition bash_tool :: "string list \<Rightarrow> (json \<Rightarrow> string) \<Rightarrow> tool" where
  "bash_tool extra str_json =
     (base_tool ''Bash'' Execute)
       \<lparr>t_is_destructive := bash_is_destructive str_json,
        t_destructive_warning := bash_destructive_warning str_json,
        t_default_risk := bash_default_risk extra,
        t_matcher := bash_matcher str_json\<rparr>"

section \<open>The split is a split\<close>

definition operators :: "string set" where
  "operators = {''&&'', ''||'', '';'', ''|''}"

definition operator_free :: "string \<Rightarrow> bool" where
  "operator_free p \<longleftrightarrow> CHR '';'' \<notin> set p \<and> CHR ''|'' \<notin> set p \<and> \<not> sublist ''&&'' p"

fun weave :: "string list \<Rightarrow> string list \<Rightarrow> string" where
  "weave (p # ps) (x # xs) = p @ x @ weave ps xs"
| "weave (p # ps) [] = p"
| "weave [] xs = []"

lemma split_ops_not_Nil [simp]: "split_ops s \<noteq> []"
  by (induction s rule: split_ops.induct) (auto split: list.splits)

lemma split_ops_first: "hd (split_ops s) = [] \<or> (s \<noteq> [] \<and> hd (hd (split_ops s)) = hd s)"
  by (induction s rule: split_ops.induct) (auto split: list.splits)

lemma sublist_amp_Cons:
  "sublist ''&&'' (c # p) \<longleftrightarrow> (c = CHR ''&'' \<and> p \<noteq> [] \<and> hd p = CHR ''&'') \<or> sublist ''&&'' p"
  by (cases p) (auto simp: sublist_Cons_right)

lemma operator_free_Nil [simp]: "operator_free []"
  by (simp add: operator_free_def)

lemma split_ops_free: "p \<in> set (split_ops s) \<Longrightarrow> operator_free p"
proof (induction s arbitrary: p rule: split_ops.induct)
  case (2 c)
  then show ?case by (auto simp: operator_free_def sublist_amp_Cons split: if_splits)
next
  case (3 c d cs)
  obtain q qs where q: "split_ops (d # cs) = q # qs" by (cases "split_ops (d # cs)") auto
  have first: "q = [] \<or> hd q = d" using split_ops_first [of "d # cs"] q by simp
  consider (double) "(c = CHR ''&'' \<or> c = CHR ''|'') \<and> d = c"
    | (single) "\<not> ((c = CHR ''&'' \<or> c = CHR ''|'') \<and> d = c)" "c = CHR '';'' \<or> c = CHR ''|''"
    | (plain) "\<not> ((c = CHR ''&'' \<or> c = CHR ''|'') \<and> d = c)" "\<not> (c = CHR '';'' \<or> c = CHR ''|'')"
    by blast
  then show ?case
  proof cases
    case double
    then have "split_ops (c # d # cs) = [] # split_ops cs" by simp
    with "3.IH"(1) [OF double] "3.prems" show ?thesis by auto
  next
    case single
    then have "split_ops (c # d # cs) = [] # split_ops (d # cs)" by auto
    with "3.IH"(2) [OF single] "3.prems" show ?thesis by auto
  next
    case plain
    then have eq: "split_ops (c # d # cs) = (c # q) # qs" using q by auto
    have "operator_free q" using "3.IH"(3) [OF plain] q by simp
    with plain first have "operator_free (c # q)"
      by (auto simp: operator_free_def sublist_amp_Cons)
    with "3.IH"(3) [OF plain] "3.prems" q eq show ?thesis by auto
  qed
qed simp

lemma split_ops_weave:
  "\<exists>seps. set seps \<subseteq> operators \<and> length (split_ops s) = Suc (length seps) \<and> weave (split_ops s) seps = s"
proof (induction s rule: split_ops.induct)
  case (2 c)
  show ?case
    by (cases "c = CHR '';'' \<or> c = CHR ''|''")
      (auto simp: operators_def intro: exI [of _ "[[c]]"] exI [of _ "[]"])
next
  case (3 c d cs)
  consider (double) "(c = CHR ''&'' \<or> c = CHR ''|'') \<and> d = c"
    | (single) "\<not> ((c = CHR ''&'' \<or> c = CHR ''|'') \<and> d = c)" "c = CHR '';'' \<or> c = CHR ''|''"
    | (plain) "\<not> ((c = CHR ''&'' \<or> c = CHR ''|'') \<and> d = c)" "\<not> (c = CHR '';'' \<or> c = CHR ''|'')"
    by blast
  then show ?case
  proof cases
    case double
    then obtain seps where "set seps \<subseteq> operators" "length (split_ops cs) = Suc (length seps)"
      "weave (split_ops cs) seps = cs" using "3.IH"(1) by blast
    with double show ?thesis
      by (intro exI [of _ "[c, c] # seps"]) (auto simp: operators_def)
  next
    case single
    then obtain seps where "set seps \<subseteq> operators" "length (split_ops (d # cs)) = Suc (length seps)"
      "weave (split_ops (d # cs)) seps = d # cs" using "3.IH"(2) by blast
    with single show ?thesis
      by (intro exI [of _ "[c] # seps"]) (auto simp: operators_def)
  next
    case plain
    then obtain seps where seps: "set seps \<subseteq> operators" "length (split_ops (d # cs)) = Suc (length seps)"
      "weave (split_ops (d # cs)) seps = d # cs" using "3.IH"(3) by blast
    obtain q qs where q: "split_ops (d # cs) = q # qs" by (cases "split_ops (d # cs)") auto
    have "weave ((c # q) # qs) seps = c # weave (q # qs) seps" by (cases seps) simp_all
    moreover have "split_ops (c # d # cs) = (c # q) # qs" using plain q by auto
    ultimately show ?thesis using seps q by (intro exI [of _ seps]) simp
  qed
qed (simp add: exI [of _ "[]"])

section \<open>The first word of a line\<close>

definition word_like :: "string \<Rightarrow> bool" where
  "word_like w \<longleftrightarrow> w \<noteq> [] \<and>
     (\<forall>c \<in> set w. \<not> shlex_ws c \<and> c \<noteq> squote \<and> c \<noteq> dquote \<and> c \<noteq> backslash_char)"

lemma shlex_go_word:
  assumes "\<forall>c \<in> set w. \<not> shlex_ws c \<and> c \<noteq> squote \<and> c \<noteq> dquote \<and> c \<noteq> backslash_char"
    and "tok \<noteq> []" "shlex_ws sep"
  shows "shlex_go In_Word tok q (w @ sep # rest) =
    mapR (\<lambda>ts. (rev tok @ w) # ts) (shlex_go Between [] False rest)"
  using assms(1,2)
proof (induction w arbitrary: tok)
  case Nil
  then show ?case using assms(3) by simp
next
  case (Cons c w)
  then show ?case by simp
qed

lemma argv_head_word:
  assumes "word_like w" "shlex_ws sep" "shlex_split rest = Inr ts"
  shows "argv_head (w @ sep # rest) = Some w"
proof -
  obtain c w' where w: "w = c # w'" using assms(1) by (cases w) (auto simp: word_like_def)
  have "shlex_split (w @ sep # rest) = mapR (\<lambda>ts. ([c] @ w') # ts) (shlex_split rest)"
    using assms(1) shlex_go_word [of w' "[c]" sep False rest, OF _ _ assms(2)]
    by (simp add: w word_like_def shlex_split_def)
  with assms(3) w show ?thesis by (simp add: argv_head_def)
qed

lemma allowlist_word_like: "w \<in> set ALLOWLIST_SAFE_COMMANDS \<Longrightarrow> word_like w"
  by (auto simp: ALLOWLIST_SAFE_COMMANDS_def word_like_def shlex_ws_def squote_def dquote_def
      backslash_char_def)

lemma strip_append_ne: "w \<noteq> [] \<Longrightarrow> \<not> py_space (hd w) \<Longrightarrow> strip (w @ s) \<noteq> []"
  by (cases w) (auto simp: strip_def lstrip_def rstrip_def dropWhile_eq_Nil_conv)

section \<open>Searching\<close>

lemma ends_Seq_I:
  "q \<in> set (ends r1 p) \<Longrightarrow> x \<in> set (ends r2 q) \<Longrightarrow> x \<in> set (ends (Seq r1 r2) p)"
  by auto

lemma star_self: "p \<in> set (ends (Star r) p)"
  by (cases "length (snd p)") simp_all

lemma star_ends_self: "p \<in> set (star_ends f n p)"
  by (cases n) simp_all

lemma dangerous_match_iff:
  "dangerous_match command \<noteq> None \<longleftrightarrow> (\<exists>p \<in> set DANGEROUS_PATTERNS. re_search (snd p) command)"
  unfolding dangerous_match_def by (metis find_None_iff option.map_disc_iff)

end
