(* ===== verification/Bash_Properties.thy ===== *)
theory Bash_Properties
  imports Bash_Risk Authz_Properties
begin

text \<open>
  The properties of the Bash tool's risk assessment (\<open>tools/builtin/bash.py\<close>), alone and together
  with the authorizer.
\<close>

lemma bash_answers:
  assumes "bash_default_risk extra inp ctx = Inr sug"
  shows "answers (bash_tool extra sj) inp ctx (command_matches (command_text sj inp)) sug
     (\<exists>p \<in> set DANGEROUS_PATTERNS. re_search (snd p) (command_text sj inp))"
  using assms by (simp add: answers_def matcher_is_def bash_tool_def base_tool_def bash_matcher_def
      bash_is_destructive_def)

lemma command_risk_dangerous:
  assumes "strip c \<noteq> []" "dangerous_match c = Some p"
  shows "command_risk extra c =
     Inr \<lparr>sg_risk = High, sg_decision = Deny, sg_reason = ''matches dangerous pattern '' @ py_repr p\<rparr>"
  using assms by (simp add: command_risk_def suggest_def)

text \<open>
  C38: A command that matches a dangerous pattern is denied: with no session grant and outside the
  modes that decide alone, no rule of the table - whatever its behaviour - lets a Bash command
  through, or even to the user, when a dangerous pattern matches it.
\<close>

theorem dangerous_command_denied:
  assumes "no_grant env (bash_tool extra sj) inp ctx st" "\<not> mode_overrides (bash_tool extra sj) ctx"
    and "map_of inp ''command'' = Some (JStr c)" "strip c \<noteq> []"
    and "p \<in> set DANGEROUS_PATTERNS" "re_search (snd p) c"
  shows "\<exists>msg rsn. fst (authorize env (bash_tool extra sj) inp ctx st) = Permission_Deny msg rsn"
proof -
  obtain q where q: "dangerous_match c = Some q"
    using assms(5,6) dangerous_match_iff [of c] by blast
  define sug where
    "sug = \<lparr>sg_risk = High, sg_decision = Deny, sg_reason = ''matches dangerous pattern '' @ py_repr q\<rparr>"
  have "bash_default_risk extra inp ctx = Inr sug"
    using assms(3) command_risk_dangerous [OF assms(4) q] by (simp add: bash_default_risk_def sug_def)
  note ans = bash_answers [OF this, of sj]
  let ?er = "effective_rule (command_matches (command_text sj inp)) (bash_tool extra sj)
     (snapshot_rules (rules st))"
  have "\<exists>msg rsn. fst (authorize_impl env (bash_tool extra sj) inp ctx st) = Inr (Permission_Deny msg rsn)"
    unfolding authorize_impl_effective [OF assms(1,2) ans] Let_def
    by (cases ?er) (auto simp: apply_outcome_def sug_def Let_def)
  then show ?thesis using authorize_Inr by blast
qed

lemma halt_pattern:
  "(pat ''%bhalt%b'', seqs [Word_Boundary, lit ''halt'', Word_Boundary]) \<in> set DANGEROUS_PATTERNS"
  by (simp add: DANGEROUS_PATTERNS_def)

theorem dangerous_command_denied_witness:
  "\<exists>msg rsn. fst (authorize sample_env (bash_tool [] (\<lambda>_. [])) [(''command'', JStr ''ls; halt'')]
     (sample_ctx Default) (sample_state [sample_rule ''Bash'' Allow])) = Permission_Deny msg rsn"
proof -
  have "re_search (snd (pat ''%bhalt%b'', seqs [Word_Boundary, lit ''halt'', Word_Boundary])) ''ls; halt''"
    by code_simp
  moreover have "strip ''ls; halt'' \<noteq> []" by code_simp
  ultimately show ?thesis
    using dangerous_command_denied [OF sample_no_grant sample_not_mode(1) _ _ halt_pattern] by simp
qed

text \<open>
  C37: What the risk assessment lets through: a command is allowed without asking only if no
  dangerous pattern matches, it holds no sub-shell token, and either it holds no operator and its
  first shell word is allowlisted, or it is a sequence of operator-free parts joined by operators
  of which every non-blank one starts with a command of the read-only list (or \<open>git\<close> and a
  read-only subcommand).
\<close>

theorem allowed_command_shape:
  assumes "command_risk extra command = Inr s" "sg_decision s = Allow"
  shows "dangerous_match command = None \<and> \<not> sublist ''$('' command \<and> \<not> sublist ''`'' command \<and>
    ((\<forall>op \<in> operators. \<not> sublist op command) \<and>
        (\<exists>h ts. shlex_split command = Inr (h # ts) \<and> h \<in> set ALLOWLIST_SAFE_COMMANDS \<union> set extra)
     \<or> (\<exists>parts seps. weave parts seps = strip command \<and> length parts = Suc (length seps)
          \<and> set seps \<subseteq> operators \<and> (\<forall>p \<in> set parts. operator_free p)
          \<and> (\<exists>p \<in> set parts. strip p \<noteq> [])
          \<and> (\<forall>p \<in> set parts. strip p \<noteq> [] \<longrightarrow>
               (\<exists>h ws. split_ws (strip p) = h # ws \<and>
                  (if h = ''git'' then ws \<noteq> [] \<and> hd ws \<in> set GIT_READ_ONLY
                   else h \<in> set COMPOUND_SAFE_COMMANDS \<union> set extra)))))"
proof -
  have base: "dangerous_match command = None" "\<not> sublist ''$('' command" "\<not> sublist ''`'' command"
    using assms by (auto simp: command_risk_def suggest_def split: if_splits option.splits)
  consider (simple) "\<forall>tok \<in> set compound_tokens. \<not> sublist tok command"
      "\<exists>h. argv_head command = Some h \<and> h \<in> set ALLOWLIST_SAFE_COMMANDS \<union> set extra"
    | (compound) "is_compound_safe command extra"
    using assms base by (auto simp: command_risk_def suggest_def split: if_splits option.splits)
  then show ?thesis
  proof cases
    case simple
    then show ?thesis
      using base by (fastforce simp: argv_head_def operators_def compound_tokens_def
          split: sum.splits list.splits)
  next
    case compound
    obtain seps where seps: "set seps \<subseteq> operators" "length (split_ops (strip command)) = Suc (length seps)"
      "weave (split_ops (strip command)) seps = strip command"
      using split_ops_weave by blast
    have safe: "fragment_safe extra (strip p)" if "p \<in> set (split_ops (strip command))" "strip p \<noteq> []" for p
      using compound that by (auto simp: is_compound_safe_def extract_commands_def list_all_iff Let_def)
    have "\<exists>p \<in> set (split_ops (strip command)). strip p \<noteq> []"
      using compound by (auto simp: is_compound_safe_def extract_commands_def Let_def filter_empty_conv)
    moreover have "\<exists>h ws. split_ws (strip p) = h # ws \<and>
        (if h = ''git'' then ws \<noteq> [] \<and> hd ws \<in> set GIT_READ_ONLY
         else h \<in> set COMPOUND_SAFE_COMMANDS \<union> set extra)"
      if "p \<in> set (split_ops (strip command))" "strip p \<noteq> []" for p
      using safe [OF that]
      by (auto simp: fragment_safe_def base_command_def split: list.splits if_splits)
    ultimately show ?thesis using base seps split_ops_free by blast
  qed
qed

theorem allowed_command_shape_witness:
  "\<exists>parts seps. weave parts seps = ''cat a|wc'' \<and> set seps \<subseteq> operators
     \<and> (\<forall>p \<in> set parts. operator_free p) \<and> (\<exists>p \<in> set parts. strip p \<noteq> [])"
proof -
  have risk: "command_risk [] ''cat a|wc'' = Inr \<lparr>sg_risk = Low, sg_decision = Allow,
      sg_reason = ''all sub-commands in read-only list''\<rparr>"
    by code_simp
  have "sublist ''|'' ''cat a|wc''" "''|'' \<in> operators" "strip ''cat a|wc'' = ''cat a|wc''"
    by (code_simp, simp add: operators_def, code_simp)
  then show ?thesis
    using allowed_command_shape [OF risk] by auto
qed

text \<open>
  Outside compound commands only the first word counts: an allowlisted command followed by a
  space or a line break is allowed whatever tokenizable text follows it, background operators,
  redirections and further lines included, as long as the operators of the code's list, the
  sub-shell tokens and the dangerous patterns are absent.
\<close>

lemma first_word_decides:
  assumes "w \<in> set ALLOWLIST_SAFE_COMMANDS" "shlex_ws sep" "shlex_split rest = Inr ts"
    and "\<forall>op \<in> operators \<union> {''$('', ''`''}. \<not> sublist op (w @ sep # rest)"
    and "dangerous_match (w @ sep # rest) = None"
  shows "command_risk extra (w @ sep # rest) =
    Inr \<lparr>sg_risk = Low, sg_decision = Allow, sg_reason = ''safe allowlist: '' @ py_repr w\<rparr>"
proof -
  have "argv_head (w @ sep # rest) = Some w"
    using argv_head_word [OF allowlist_word_like [OF assms(1)] assms(2,3)] .
  moreover have "w \<noteq> [] \<and> \<not> py_space (hd w)"
    using assms(1) by (auto simp: ALLOWLIST_SAFE_COMMANDS_def py_space_def)
  then have "strip (w @ sep # rest) \<noteq> []" by (simp add: strip_append_ne)
  moreover have "\<forall>tok \<in> set compound_tokens. \<not> sublist tok (w @ sep # rest)"
    "\<not> sublist ''$('' (w @ sep # rest)" "\<not> sublist ''`'' (w @ sep # rest)"
    using assms(4) by (auto simp: operators_def compound_tokens_def)
  ultimately show ?thesis
    using assms(1,5) by (simp add: command_risk_def suggest_def)
qed

lemma first_word_decides_witness:
  "command_risk [] (''ls'' @ CHR 0x0A # ''rm -r x & echo y > z'') =
    Inr \<lparr>sg_risk = Low, sg_decision = Allow, sg_reason = ''safe allowlist: '' @ py_repr ''ls''\<rparr>"
proof (rule first_word_decides)
  show "shlex_split ''rm -r x & echo y > z'' = Inr [''rm'', ''-r'', ''x'', ''&'', ''echo'', ''y'', ''>'', ''z'']"
    by code_simp
  show "dangerous_match (''ls'' @ CHR 0x0A # ''rm -r x & echo y > z'') = None"
    by code_simp
qed (simp_all add: ALLOWLIST_SAFE_COMMANDS_def shlex_ws_def operators_def sublist_code)

text \<open>
  A force push is denied even when it is the safe kind: the pattern for \<open>--force\<close> ends in a
  word boundary, which the hyphen of \<open>--force-with-lease\<close> satisfies, so the exception the next
  pattern makes for it never takes effect.
\<close>

lemma force_pattern:
  "(pat ''%bgit%s+push%s+.*--force%b'',
     seqs [Word_Boundary, lit ''git'', plus ws, lit ''push'', plus ws, Star any_char,
           lit ''--force'', Word_Boundary]) \<in> set DANGEROUS_PATTERNS"
  by (simp add: DANGEROUS_PATTERNS_def)

lemma force_search:
  "re_search (seqs [Word_Boundary, lit ''git'', plus ws, lit ''push'', plus ws, Star any_char,
     lit ''--force'', Word_Boundary]) (''git push --force-with-lease'' @ rest)"
proof -
  let ?t1 = "'' push --force-with-lease'' @ rest" and ?t2 = "''push --force-with-lease'' @ rest"
  let ?t3 = "'' --force-with-lease'' @ rest" and ?t4 = "''--force-with-lease'' @ rest"
  let ?t5 = "''-with-lease'' @ rest"
  have ws_step: "(Some CHR 0x20, t) \<in> set (ends (plus ws) (b, CHR 0x20 # t))" for b t
    by (simp add: plus_def ws_def py_space_def star_ends_self)
  have wb: "(None, ''git'' @ ?t1) \<in> set (ends Word_Boundary (None, ''git'' @ ?t1))"
    "(Some (CHR ''e''), ?t5) \<in> set (ends Word_Boundary (Some (CHR ''e''), ?t5))"
    by (simp_all add: word_char_def)
  have lits: "(Some (CHR ''t''), ?t1) \<in> set (ends (lit ''git'') (None, ''git'' @ ?t1))"
    "(Some (CHR ''h''), ?t3) \<in> set (ends (lit ''push'') (Some CHR 0x20, ?t2))"
    "(Some (CHR ''e''), ?t5) \<in> set (ends (lit ''--force'') (Some CHR 0x20, ?t4))"
    by (simp_all add: ends_lit)
  have steps: "(Some CHR 0x20, ?t2) \<in> set (ends (plus ws) (Some (CHR ''t''), ?t1))"
    "(Some CHR 0x20, ?t4) \<in> set (ends (plus ws) (Some (CHR ''h''), ?t3))"
    using ws_step by simp_all
  have eps: "(Some (CHR ''e''), ?t5) \<in> set (ends Eps (Some (CHR ''e''), ?t5))" by simp
  have "(Some (CHR ''e''), ?t5) \<in> set (ends (seqs [Word_Boundary, lit ''git'', plus ws, lit ''push'',
      plus ws, Star any_char, lit ''--force'', Word_Boundary]) (None, ''git'' @ ?t1))"
    unfolding seqs_def foldr.simps comp_apply
    by (rule ends_Seq_I [OF wb(1)], rule ends_Seq_I [OF lits(1)], rule ends_Seq_I [OF steps(1)],
        rule ends_Seq_I [OF lits(2)], rule ends_Seq_I [OF steps(2)], rule ends_Seq_I [OF star_self],
        rule ends_Seq_I [OF lits(3)], rule ends_Seq_I [OF wb(2)]) simp
  then have "ends (seqs [Word_Boundary, lit ''git'', plus ws, lit ''push'', plus ws, Star any_char,
      lit ''--force'', Word_Boundary]) (None, ''git push --force-with-lease'' @ rest) \<noteq> []"
    by auto
  then show ?thesis
    unfolding re_search_def search_from_iff
    by (intro exI [of _ "[]"] exI [of _ "''git push --force-with-lease'' @ rest"]) simp
qed

lemma force_with_lease_denied:
  "\<exists>why. command_risk extra (''git push --force-with-lease'' @ rest) =
     Inr \<lparr>sg_risk = High, sg_decision = Deny, sg_reason = why\<rparr>"
proof -
  have "dangerous_match (''git push --force-with-lease'' @ rest) \<noteq> None"
    unfolding dangerous_match_iff using force_pattern force_search by force
  then obtain p where "dangerous_match (''git push --force-with-lease'' @ rest) = Some p" by blast
  moreover have "strip (''git push --force-with-lease'' @ rest) \<noteq> []"
    by (rule strip_append_ne) (simp_all add: py_space_def)
  ultimately show ?thesis using command_risk_dangerous by blast
qed

end
