(* ===== verification/Tool_Registry.thy ===== *)
theory Tool_Registry
  imports Tool_Types Py_Text "HOL-Library.List_Lexorder" "HOL-Library.Char_ord"
begin

text \<open>
  \<open>tools/registry.py\<close>, the MCP synchronisation and the session pool of \<open>tools/__init__.py\<close>, the
  MCP proxy tools of \<open>tools/mcp_adapter.py\<close>, and the batch partition of
  \<open>orchestrator/tools_exec/partition.py\<close>. The registry is the dictionary of the code, in insertion
  order. A tool's schema is a function of the tool (\<open>to_schema\<close>), a parameter of the snapshot.
\<close>

section \<open>The registry\<close>

datatype layer = Core | Deferred

type_synonym tool_registry = "(string \<times> tool \<times> layer) list"

definition reg_add :: "tool \<Rightarrow> layer \<Rightarrow> tool_registry \<Rightarrow> tool_registry result" where
  "reg_add t l reg =
     (if map_of reg (t_name t) \<noteq> None then Inl ''already registered''
      else if \<exists>a \<in> set (t_aliases t). map_of reg a \<noteq> None then Inl ''alias conflict''
      else Inr (AList.update (t_name t) (t, l) reg))"

definition reg_promote :: "string \<Rightarrow> tool_registry \<Rightarrow> bool \<times> tool_registry" where
  "reg_promote name reg =
     (case map_of reg name of
        Some (t, Deferred) \<Rightarrow> (True, AList.update name (t, Core) reg)
      | _ \<Rightarrow> (False, reg))"

definition reg_remove :: "string \<Rightarrow> tool_registry \<Rightarrow> tool_registry" where
  "reg_remove name reg = AList.delete name reg"

definition all_tools :: "tool_registry \<Rightarrow> (tool \<times> layer) list" where
  "all_tools reg = map snd reg"

fun reg_lookup :: "string \<Rightarrow> tool_registry \<Rightarrow> tool option" where
  "reg_lookup name [] = None"
| "reg_lookup name ((k, t, l) # reg) = (if matches_name t name then Some t else reg_lookup name reg)"

section \<open>Snapshots\<close>

definition REPL_HIDDEN_TOOLS :: "string list" where
  "REPL_HIDDEN_TOOLS =
     [''Bash'', ''Cmd'', ''PowerShell'', ''Python'', ''FileRead'', ''FileEdit'', ''FileWrite'', ''Glob'',
      ''Grep'', ''Agent'']"

record snapshot_opts =
  plan_mode :: bool
  repl_mode :: bool
  agent_whitelist :: "string set option"
  denied_names :: "string set"

record 's tool_snapshot =
  schemas :: "'s list"
  snap_lookup :: "string \<rightharpoonup> tool"
  deferred_names :: "string set"
  deferred_listing :: string

text \<open>The loop of \<open>snapshot\<close>: the core tools, the stubs and the lookup table it accumulates.\<close>

record snap_acc =
  acc_core :: "tool list"
  acc_stubs :: "string list"
  acc_lookup :: "string \<rightharpoonup> tool"

definition add_lookup :: "tool \<Rightarrow> (string \<rightharpoonup> tool) \<Rightarrow> (string \<rightharpoonup> tool)" where
  "add_lookup t m = fold (\<lambda>a m. m(a \<mapsto> t)) (t_aliases t) (m(t_name t \<mapsto> t))"

definition skipped :: "snapshot_opts \<Rightarrow> tool \<Rightarrow> bool" where
  "skipped o' t \<longleftrightarrow> t_name t \<in> denied_names o'
     \<or> (\<exists>w. agent_whitelist o' = Some w \<and> t_name t \<notin> w)
     \<or> plan_mode o' \<and> is_mutating (t_kind t)"

definition hidden_by_repl :: "snapshot_opts \<Rightarrow> tool \<Rightarrow> bool" where
  "hidden_by_repl o' t \<longleftrightarrow> repl_mode o' \<and> t_name t \<in> set REPL_HIDDEN_TOOLS"

definition snap_step :: "snapshot_opts \<Rightarrow> tool \<times> layer \<Rightarrow> snap_acc \<Rightarrow> snap_acc" where
  "snap_step o' = (\<lambda>(t, l) acc.
     if skipped o' t then acc
     else
       (let acc1 = (if hidden_by_repl o' t then acc
                    else if l = Deferred \<and> \<not> t_always_load t
                    then acc\<lparr>acc_stubs := acc_stubs acc @ [t_name t]\<rparr>
                    else acc\<lparr>acc_core := acc_core acc @ [t]\<rparr>)
        in acc1\<lparr>acc_lookup := add_lookup t (acc_lookup acc1)\<rparr>))"

definition snap_scan :: "snapshot_opts \<Rightarrow> tool_registry \<Rightarrow> snap_acc" where
  "snap_scan o' reg =
     fold (snap_step o') (all_tools reg) \<lparr>acc_core = [], acc_stubs = [], acc_lookup = Map.empty\<rparr>"

definition listing_text :: "string list \<Rightarrow> string" where
  "listing_text stubs =
     ''The following deferred tools are now available via ToolSearch. ''
     @ ''Their schemas are NOT loaded '' @ [CHR 0x97] @ '' calling them directly will ''
     @ ''fail with InputValidationError. Use ToolSearch with query ''
     @ ''\"select:<name>[,<name>...]\" to load tool schemas before ''
     @ ''calling them:'' @ [CHR 0x0A] @ join [CHR 0x0A] stubs"

text \<open>\<open>render\<close> is the prompt manager's template, if it has one.\<close>

definition snapshot ::
    "(tool \<Rightarrow> 's) \<Rightarrow> (string \<Rightarrow> string) option \<Rightarrow> snapshot_opts \<Rightarrow> tool_registry \<Rightarrow> 's tool_snapshot"
where
  "snapshot to_schema render o' reg =
     (let acc = snap_scan o' reg; core = sort_key t_name (acc_core acc); stubs = sort (acc_stubs acc)
      in \<lparr>schemas = map to_schema core, snap_lookup = acc_lookup acc, deferred_names = set stubs,
          deferred_listing = (if stubs = [] then []
            else case render of
              Some f \<Rightarrow> f (join [CHR 0x0A] stubs)
            | None \<Rightarrow> listing_text stubs)\<rparr>)"

text \<open>
  \<open>ToolManager.snapshot_for_session\<close>: the deny list is the authorizer's answer for all registered
  names, empty when there is no authorizer.
\<close>

definition snapshot_for_session ::
    "(tool \<Rightarrow> 's) \<Rightarrow> (string \<Rightarrow> string) option \<Rightarrow> (string set \<Rightarrow> string set) option \<Rightarrow> bool
       \<Rightarrow> bool \<Rightarrow> string set option \<Rightarrow> tool_registry \<Rightarrow> 's tool_snapshot" where
  "snapshot_for_session to_schema render filter_denied repl plan whitelist reg =
     (let names = set (map (t_name \<circ> fst) (all_tools reg));
          denied = (case filter_denied of None \<Rightarrow> {} | Some f \<Rightarrow> f names)
      in snapshot to_schema render
           \<lparr>plan_mode = plan, repl_mode = repl, agent_whitelist = whitelist, denied_names = denied\<rparr> reg)"

section \<open>MCP tools\<close>

definition normalize_char :: "char \<Rightarrow> char" where
  "normalize_char c =
     (if ascii_letter c \<or> digit_char c \<or> c = CHR ''_'' \<or> c = CHR ''-'' then c else CHR ''_'')"

definition normalize :: "string \<Rightarrow> string" where
  "normalize s = map normalize_char s"

definition build_mcp_tool_name :: "string \<Rightarrow> string \<Rightarrow> string" where
  "build_mcp_tool_name server name = ''mcp__'' @ normalize server @ ''__'' @ normalize name"

definition mcp_adapter :: "string \<Rightarrow> string \<Rightarrow> tool" where
  "mcp_adapter server name =
     (base_tool (build_mcp_tool_name server name) Other)
       \<lparr>t_user_facing_name := (\<lambda>_. Inr (server @ ''/'' @ name)),
        t_default_risk := (\<lambda>_ _. Inr \<lparr>sg_risk = Medium, sg_decision = Ask,
                                        sg_reason = ''MCP tool (external server)''\<rparr>)\<rparr>"

definition mcp_auth_tool :: "string \<Rightarrow> tool" where
  "mcp_auth_tool server =
     (base_tool (''mcp__'' @ normalize server @ ''__authenticate'') Other)
       \<lparr>t_default_risk := (\<lambda>_ _. Inr \<lparr>sg_risk = High, sg_decision = Ask,
                                        sg_reason = ''opens browser for OAuth authorization''\<rparr>)\<rparr>"

text \<open>Registration that logs a conflict and goes on.\<close>

definition try_add :: "tool \<Rightarrow> tool_registry \<Rightarrow> tool_registry" where
  "try_add t reg = (case reg_add t Core reg of Inl _ \<Rightarrow> reg | Inr reg' \<Rightarrow> reg')"

text \<open>
  \<open>_sync_mcp\<close>: the proxies of the connected servers and the pseudo-tools of the servers that need
  authentication replace every tool with an MCP name.
\<close>

definition sync_mcp :: "(string \<times> string list) list \<Rightarrow> string list \<Rightarrow> tool_registry \<Rightarrow> tool_registry" where
  "sync_mcp conns needs_auth reg =
     (let old = filter (prefix ''mcp__'') (map fst reg);
          reg1 = fold reg_remove old reg;
          reg2 = fold try_add
                   (concat (map (\<lambda>(server, names). map (mcp_adapter server) names) conns)) reg1
      in fold try_add (map mcp_auth_tool needs_auth) reg2)"

text \<open>\<open>extract_text_content\<close>: one line per block; a missing key reads as the empty string.\<close>

datatype mcp_block = Mcp_Text string | Mcp_Image | Mcp_Resource string | Mcp_Other string

fun block_line :: "mcp_block \<Rightarrow> string" where
  "block_line (Mcp_Text s) = s"
| "block_line Mcp_Image = ''[image]''"
| "block_line (Mcp_Resource uri) = ''[resource: '' @ uri @ '']''"
| "block_line (Mcp_Other t) = ''['' @ t @ '']''"

definition extract_text_content :: "mcp_block list \<Rightarrow> string" where
  "extract_text_content blocks = join [CHR 0x0A] (map block_line blocks)"

section \<open>Batches\<close>

text \<open>
  The loop of \<open>partition_tool_calls\<close>, with the pending safe calls as \<open>acc\<close>; \<open>safe\<close> is whether the
  lookup finds a concurrency-safe tool for the call.
\<close>

fun partition_go :: "('c \<Rightarrow> bool) \<Rightarrow> 'c list \<Rightarrow> 'c list \<Rightarrow> 'c list list" where
  "partition_go safe acc [] = (if acc = [] then [] else [acc])"
| "partition_go safe acc (c # cs) =
     (if safe c then partition_go safe (acc @ [c]) cs
      else (if acc = [] then [] else [acc]) @ [c] # partition_go safe [] cs)"

definition call_safe :: "(string \<Rightarrow> tool option) option \<Rightarrow> string \<Rightarrow> bool" where
  "call_safe lookup name =
     (case lookup of
        None \<Rightarrow> False
      | Some f \<Rightarrow> (case f name of None \<Rightarrow> False | Some t \<Rightarrow> t_concurrency_safe t))"

definition partition_tool_calls ::
    "('c \<Rightarrow> string) \<Rightarrow> (string \<Rightarrow> tool option) option \<Rightarrow> 'c list \<Rightarrow> 'c list list" where
  "partition_tool_calls call_name lookup calls = partition_go (\<lambda>c. call_safe lookup (call_name c)) [] calls"

section \<open>The registry invariant\<close>

definition reg_ok :: "tool_registry \<Rightarrow> bool" where
  "reg_ok reg \<longleftrightarrow> distinct (map fst reg) \<and> (\<forall>(k, t, l) \<in> set reg. k = t_name t)"

lemma reg_ok_Nil [simp]: "reg_ok []"
  by (simp add: reg_ok_def)

lemma reg_add_ok: "reg_ok reg \<Longrightarrow> reg_add t l reg = Inr reg' \<Longrightarrow> reg_ok reg'"
  by (auto simp: reg_add_def reg_ok_def update_fresh map_of_eq_None_iff split: if_splits)

lemma reg_add_appends: "reg_add t l reg = Inr reg' \<Longrightarrow> reg' = reg @ [(t_name t, t, l)]"
  using update_fresh [of reg "t_name t" "(t, l)"]
  by (cases "map_of reg (t_name t)") (simp_all add: reg_add_def split: if_splits)

lemma update_same_key:
  "map_of reg k = Some v \<Longrightarrow> distinct (map fst reg) \<Longrightarrow>
     set (AList.update k w reg) = insert (k, w) (set reg - {(k, v)})"
  by (induction reg) (force split: if_splits dest: map_of_SomeD)+

lemma reg_promote_ok:
  assumes "reg_ok reg"
  shows "reg_ok (snd (reg_promote name reg))"
proof (cases "\<exists>t. map_of reg name = Some (t, Deferred)")
  case True
  then obtain t where t: "map_of reg name = Some (t, Deferred)" by blast
  have "t_name t = name"
    using assms map_of_SomeD [OF t] by (auto simp: reg_ok_def)
  then show ?thesis
    using assms t update_same_key [OF t, of "(t, Core)"]
    by (auto simp: reg_ok_def reg_promote_def distinct_update)
next
  case False
  then show ?thesis
    using assms by (auto simp: reg_promote_def split: option.splits layer.splits)
qed

lemma reg_remove_ok: "reg_ok reg \<Longrightarrow> reg_ok (reg_remove name reg)"
  using filter_is_subset by (simp add: reg_ok_def reg_remove_def distinct_delete) (auto simp: AList.delete_eq)

lemma try_add_ok: "reg_ok reg \<Longrightarrow> reg_ok (try_add t reg)"
  by (auto simp: try_add_def dest: reg_add_ok split: sum.splits)

lemma fold_ok:
  assumes "\<And>x r. reg_ok r \<Longrightarrow> reg_ok (f x r)" "reg_ok reg"
  shows "reg_ok (fold f xs reg)"
  using assms(2) by (induction xs arbitrary: reg) (simp_all add: assms(1))

lemma sync_mcp_ok: "reg_ok reg \<Longrightarrow> reg_ok (sync_mcp c a reg)"
  by (simp add: sync_mcp_def Let_def fold_ok try_add_ok reg_remove_ok)

text \<open>The operations of the registry in any order.\<close>

datatype reg_op =
  Register tool layer | Promote string | Unregister string
| Sync "(string \<times> string list) list" "string list"

fun reg_step :: "reg_op \<Rightarrow> tool_registry \<Rightarrow> tool_registry" where
  "reg_step (Register t l) reg = (case reg_add t l reg of Inl _ \<Rightarrow> reg | Inr reg' \<Rightarrow> reg')"
| "reg_step (Promote name) reg = snd (reg_promote name reg)"
| "reg_step (Unregister name) reg = reg_remove name reg"
| "reg_step (Sync c a) reg = sync_mcp c a reg"

lemma reg_step_ok: "reg_ok reg \<Longrightarrow> reg_ok (reg_step op reg)"
  by (cases op) (auto simp: reg_promote_ok reg_remove_ok sync_mcp_ok dest: reg_add_ok split: sum.splits)

lemma reg_run_ok: "reg_ok (fold reg_step ops [])"
  by (rule fold_ok) (simp_all add: reg_step_ok)

section \<open>What a snapshot holds\<close>

definition visible :: "snapshot_opts \<Rightarrow> tool \<times> layer \<Rightarrow> bool" where
  "visible o' = (\<lambda>(t, l). \<not> skipped o' t \<and> \<not> hidden_by_repl o' t)"

definition as_stub :: "tool \<times> layer \<Rightarrow> bool" where
  "as_stub = (\<lambda>(t, l). l = Deferred \<and> \<not> t_always_load t)"

lemma snap_fold:
  "fold (snap_step o') tls acc =
     \<lparr>acc_core = acc_core acc @ map fst (filter (\<lambda>p. visible o' p \<and> \<not> as_stub p) tls),
      acc_stubs = acc_stubs acc @ map (t_name \<circ> fst) (filter (\<lambda>p. visible o' p \<and> as_stub p) tls),
      acc_lookup = fold add_lookup (filter (\<lambda>t. \<not> skipped o' t) (map fst tls)) (acc_lookup acc)\<rparr>"
proof (induction tls arbitrary: acc)
  case (Cons p tls)
  then show ?case
    by (cases p) (auto simp: snap_step_def Let_def visible_def as_stub_def)
qed simp

lemmas snap_scan_eq = snap_scan_def [unfolded snap_fold, simplified]

lemma reg_ok_names: "reg_ok reg \<Longrightarrow> map (t_name \<circ> fst) (all_tools reg) = map fst reg"
  by (auto simp: reg_ok_def all_tools_def)

lemma add_lookup_ran: "ran (add_lookup t m) \<subseteq> insert t (ran m)"
proof -
  have "ran (fold (\<lambda>a m. m(a \<mapsto> t)) as m) \<subseteq> insert t (ran m)" for as m
  proof (induction as arbitrary: m)
    case (Cons a as)
    have "ran (m(a \<mapsto> t)) \<subseteq> insert t (ran m)" by (auto simp: ran_def)
    then show ?case using Cons.IH [of "m(a \<mapsto> t)"] unfolding fold_simps by blast
  qed auto
  from this [of "t_aliases t" "m(t_name t \<mapsto> t)"] show ?thesis
    by (auto simp: add_lookup_def ran_def split: if_splits)
qed

lemma fold_add_lookup_ran: "ran (fold add_lookup ts m) \<subseteq> set ts \<union> ran m"
proof (induction ts arbitrary: m)
  case (Cons t ts)
  show ?case using Cons.IH [of "add_lookup t m"] add_lookup_ran [of t m] by auto
qed simp

section \<open>Batches keep the order\<close>

lemma partition_go_concat: "concat (partition_go safe acc cs) = acc @ cs"
  by (induction cs arbitrary: acc) auto

lemma partition_go_batches:
  "list_all safe acc \<Longrightarrow> b \<in> set (partition_go safe acc cs) \<Longrightarrow>
     b \<noteq> [] \<and> (list_all safe b \<or> (\<exists>c. b = [c] \<and> \<not> safe c))"
proof (induction cs arbitrary: acc)
  case (Cons c cs)
  show ?case
    using Cons.IH [of "acc @ [c]"] Cons.IH [of "[]"] Cons.prems by (auto split: if_splits)
qed (auto split: if_splits)


lemma partition_go_maximal:
  "list_all safe acc \<Longrightarrow>
     successively (\<lambda>b1 b2. \<not> (list_all safe b1 \<and> list_all safe b2)) (partition_go safe acc cs)"
proof (induction cs arbitrary: acc)
  case (Cons c cs)
  show ?case
    using Cons.IH [of "acc @ [c]"] Cons.IH [of "[]"] Cons.prems
    by (auto simp: successively_Cons)
qed simp

section \<open>Names of MCP tools\<close>

lemma normalize_append: "normalize (a @ b) = normalize a @ normalize b"
  by (simp add: normalize_def)

lemma normalize_sep [simp]: "normalize ''__'' = ''__''"
  by (simp add: normalize_def normalize_char_def)

lemma normalize_underscore [simp]: "normalize (CHR ''_'' # s) = CHR ''_'' # normalize s"
  by (simp add: normalize_def normalize_char_def)

definition plain_server :: "string \<Rightarrow> bool" where
  "plain_server s \<longleftrightarrow> \<not> sublist ''__'' (normalize s) \<and> \<not> suffix ''_'' (normalize s)"

lemma sep_split:
  assumes "\<not> sublist ''__'' a" "\<not> suffix ''_'' a" "\<not> sublist ''__'' b" "\<not> suffix ''_'' b"
    and "a @ ''__'' @ x = b @ ''__'' @ y"
  shows "a = b \<and> x = y"
proof -
  have *: "\<not> (\<exists>z. z \<noteq> [] \<and> b' = a' @ z)"
    if "\<not> sublist ''__'' b'" "\<not> suffix ''_'' b'" "a' @ ''__'' @ x' = b' @ ''__'' @ y'" for a' b' x' y'
  proof
    assume "\<exists>z. z \<noteq> [] \<and> b' = a' @ z"
    then obtain z where z: "z \<noteq> []" "b' = a' @ z" by blast
    with that(3) have eq: "''__'' @ x' = z @ ''__'' @ y'" by simp
    then obtain z1 where "z = CHR ''_'' # z1" using z(1) by (cases z) auto
    moreover from this eq have "CHR ''_'' # x' = z1 @ ''__'' @ y'" by simp
    ultimately consider "z = ''_''" | z2 where "z = CHR ''_'' # CHR ''_'' # z2"
      by (cases z1) auto
    then show False
      using that(1,2) z(2) by cases (auto simp: suffix_def sublist_def)
  qed
  consider z where "b = a @ z" | z where "a = b @ z"
    using assms(5) by (auto simp: append_eq_append_conv2)
  then show ?thesis
  proof cases
    case 1
    with *[of b a x y] assms show ?thesis by auto
  next
    case 2
    with *[of a b y x] assms show ?thesis by auto
  qed
qed

end
