(* ===== verification/Registry_Properties.thy ===== *)
theory Registry_Properties
  imports Tool_Registry Authz_Properties
begin

text \<open>
  The properties of the tool registry, of the pool a session sees, of MCP tool names and of the
  batch partition.
\<close>

text \<open>
  After any sequence of registrations, promotions, removals and MCP synchronisations, a
  snapshot lists exactly the registered tools its options leave visible and that are not stubs,
  sorted by name and without repetition; the deferred names are the visible stubs; and nothing a
  filter removed can be resolved through the snapshot's lookup.
\<close>

lemma snapshot_exact:
  "let reg = fold reg_step ops []; snap = snapshot (\<lambda>t. t) render o' reg in
     sorted (map t_name (schemas snap)) \<and> distinct (map t_name (schemas snap))
     \<and> set (schemas snap) = {t. \<exists>l. (t, l) \<in> set (all_tools reg) \<and> visible o' (t, l) \<and> \<not> as_stub (t, l)}
     \<and> deferred_names snap = {t_name t | t l. (t, l) \<in> set (all_tools reg) \<and> visible o' (t, l) \<and> as_stub (t, l)}
     \<and> (\<forall>t \<in> ran (snap_lookup snap). \<not> skipped o' t)"
proof -
  let ?reg = "fold reg_step ops []"
  have "distinct (map (t_name \<circ> fst) (all_tools ?reg))"
    using reg_run_ok [of ops] reg_ok_names [OF reg_run_ok] by (simp add: reg_ok_def)
  then have "distinct (map (t_name \<circ> fst) (filter P (all_tools ?reg)))" for P
    by (rule distinct_map_filter)
  then have dist: "distinct (map t_name (map fst (filter P (all_tools ?reg))))" for P
    by (simp add: comp_def)
  have "ran (acc_lookup (snap_scan o' ?reg)) \<subseteq> {t. \<not> skipped o' t}"
    using fold_add_lookup_ran [of "filter (\<lambda>t. \<not> skipped o' t) (map fst (all_tools ?reg))" Map.empty]
    by (auto simp: snap_scan_eq)
  then show ?thesis
    using dist by (auto simp: snapshot_def Let_def snap_scan_eq distinct_map inj_on_def image_iff) blast
qed


lemma snapshot_exact_witness:
  "set (schemas (snapshot (\<lambda>t. t) None
      \<lparr>plan_mode = True, repl_mode = False, agent_whitelist = None, denied_names = {}\<rparr>
      (fold reg_step [Register (base_tool ''W'' Edit) Core, Register (base_tool ''R'' Read) Core] [])))
    = {base_tool ''R'' Read}"
proof -
  have reg: "fold reg_step [Register (base_tool ''W'' Edit) Core, Register (base_tool ''R'' Read) Core] [] =
      [(''W'', base_tool ''W'' Edit, Core), (''R'', base_tool ''R'' Read, Core)]"
    by (simp add: reg_add_def base_tool_def)
  have exact: "set (schemas (snapshot (\<lambda>t. t) None o' (fold reg_step ops []))) =
      {t. \<exists>l. (t, l) \<in> set (all_tools (fold reg_step ops [])) \<and> visible o' (t, l) \<and> \<not> as_stub (t, l)}"
    for o' ops
    using snapshot_exact [of ops None o'] by (simp add: Let_def)
  show ?thesis
    unfolding exact unfolding reg
    by (auto simp: all_tools_def visible_def as_stub_def skipped_def hidden_by_repl_def is_mutating_def base_tool_def)
qed

text \<open>
  The pool of a session agrees with the authorizer: a tool whose schema the model is sent is
  blocked by no unscoped deny rule of the table and, in plan mode, cannot have side effects.
\<close>

lemma session_pool_agrees:
  assumes "t \<in> set (schemas (snapshot_for_session (\<lambda>t. t) render
      (Some (\<lambda>names. filter_denied_tools names st)) repl plan whitelist reg))"
    and "r \<in> set (snapshot_rules (rules st))" "rule_behavior r = Deny" "rule_content (rvalue r) = None"
  shows "\<not> rule_blocks_tool_name r (t_name t) \<and> (plan \<longrightarrow> \<not> is_mutating (t_kind t))"
proof -
  have "t \<in> fst ` set (all_tools reg)"
    and "\<not> skipped \<lparr>plan_mode = plan, repl_mode = repl, agent_whitelist = whitelist,
       denied_names = filter_denied_tools (set (map (t_name \<circ> fst) (all_tools reg))) st\<rparr> t"
    using assms(1) by (auto simp: snapshot_for_session_def snapshot_def Let_def snap_scan_eq visible_def)
  moreover from this(1) have "t_name t \<in> set (map (t_name \<circ> fst) (all_tools reg))" by auto
  ultimately show ?thesis
    using assms(2-4) by (auto simp: skipped_def filter_denied_tools_iff)
qed

lemma session_pool_agrees_witness:
  "\<not> rule_blocks_tool_name (sample_rule ''B'' Deny) ''A''"
proof -
  have blocks: "rule_blocks_tool_name (sample_rule ''B'' Deny) ''B''"
    "\<not> rule_blocks_tool_name (sample_rule ''B'' Deny) ''A''"
    by (simp_all add: rule_blocks_tool_name_def sample_rule_def mcp_prefix_def)
  have "base_tool ''A'' Read \<in> set (schemas (snapshot_for_session (\<lambda>t. t) None
      (Some (\<lambda>names. filter_denied_tools names (sample_state [sample_rule ''B'' Deny]))) False True None
      [(''A'', base_tool ''A'' Read, Core), (''B'', base_tool ''B'' Read, Core)]))"
    using blocks by (simp add: snapshot_for_session_def snapshot_def Let_def snap_scan_eq all_tools_def visible_def
        as_stub_def skipped_def hidden_by_repl_def filter_denied_tools_iff base_tool_def is_mutating_def
        sample_rule_def)
  from session_pool_agrees [OF this, of "sample_rule ''B'' Deny"] show ?thesis
    by (simp add: sample_rule_def base_tool_def)
qed

text \<open>
  Registration does not protect aliases: a tool named like the alias of a registered tool is
  accepted, and then the registry resolves that name to the aliased tool while the snapshot's
  lookup resolves it to the new one.
\<close>

lemma name_shadowed_by_alias:
  assumes "t_aliases a = [n]" "t_name a \<noteq> n" "t_name b = n" "t_aliases b = []"
  shows "\<exists>reg. bindR (reg_add a la []) (reg_add b lb) = Inr reg \<and> reg_lookup n reg = Some a
    \<and> snap_lookup (snapshot to_schema render
         \<lparr>plan_mode = False, repl_mode = False, agent_whitelist = None, denied_names = {}\<rparr> reg) n = Some b"
  using assms by (intro exI [of _ "[(t_name a, a, la), (n, b, lb)]"])
    (simp add: reg_add_def matches_name_def snapshot_def Let_def snap_scan_eq all_tools_def skipped_def
      add_lookup_def)

lemma name_shadowed_by_alias_witness:
  "reg_lookup ''B'' (projr (bindR (reg_add ((base_tool ''A'' Read)\<lparr>t_aliases := [''B'']\<rparr>) Core [])
     (reg_add (base_tool ''B'' Execute) Core))) = Some ((base_tool ''A'' Read)\<lparr>t_aliases := [''B'']\<rparr>)"
  using name_shadowed_by_alias [of "(base_tool ''A'' Read)\<lparr>t_aliases := [''B'']\<rparr>" "''B''"
      "base_tool ''B'' Execute" Core Core "\<lambda>_. ()" None]
  by (auto simp: base_tool_def)

text \<open>
  Names of MCP tools identify server and tool as long as no normalised server name holds a
  double underscore or ends in an underscore.
\<close>

lemma mcp_name_injective:
  assumes "plain_server s" "plain_server s'"
  shows "build_mcp_tool_name s n = build_mcp_tool_name s' n' \<longleftrightarrow>
    normalize s = normalize s' \<and> normalize n = normalize n'"
  using assms sep_split [of "normalize s" "normalize s'" "normalize n" "normalize n'"]
  by (auto simp: build_mcp_tool_name_def plain_server_def)

lemma mcp_name_injective_witness:
  "build_mcp_tool_name ''git'' ''log'' \<noteq> build_mcp_tool_name ''gi'' ''t__log''"
proof -
  have "normalize ''git'' = ''git''" "normalize ''gi'' = ''gi''"
    by code_simp+
  then have "plain_server ''git''" "plain_server ''gi''" "normalize ''git'' \<noteq> normalize ''gi''"
    by (simp_all add: plain_server_def sublist_code suffix_def)
  then show ?thesis using mcp_name_injective by blast
qed

text \<open>
  Without that condition they do not: for every server \<open>a\<close>, every \<open>b\<close> and every tool \<open>c\<close>, the
  tool \<open>c\<close> of server \<open>a__b\<close> has the name of the tool \<open>b__c\<close> of server \<open>a\<close>, so the second one to be
  registered is rejected; and a rule for server \<open>a\<close> covers the tools of server \<open>a__b\<close>.
\<close>

lemma mcp_name_collision:
  "build_mcp_tool_name (a @ ''__'' @ b) c = build_mcp_tool_name a (b @ ''__'' @ c)
   \<and> (sublist ''__'' (normalize a) \<or> (\<forall>r. tool_name (rvalue r) = ''mcp__'' @ normalize a \<longrightarrow>
        rule_matches_tool r (mcp_adapter (a @ ''__'' @ b) c)))
   \<and> reg_add (mcp_adapter a (b @ ''__'' @ c)) Core [(build_mcp_tool_name (a @ ''__'' @ b) c, t, l)]
       = Inl ''already registered''"
  by (auto simp: build_mcp_tool_name_def normalize_append mcp_adapter_def base_tool_def reg_add_def
      rule_matches_tool_def mcp_prefix_def matches_name_def Let_def)

lemma mcp_name_collision_witness:
  "build_mcp_tool_name ''a__b'' ''c'' = build_mcp_tool_name ''a'' ''b__c''
   \<and> rule_matches_tool (sample_rule ''mcp__a'' Allow) (mcp_adapter ''a__b'' ''c'')"
proof -
  have "normalize ''a'' = ''a''" by code_simp
  then have "\<not> sublist ''__'' (normalize ''a'')" "tool_name (rvalue (sample_rule ''mcp__a'' Allow)) = ''mcp__'' @ normalize ''a''"
    by (simp_all add: sublist_code sample_rule_def)
  then show ?thesis
    using mcp_name_collision [of "''a''" "''b''" "''c''" "base_tool [] Other" Core] by simp
qed

text \<open>
  The batches of tool calls keep the model's order, hold every call once, run together only
  calls of tools that declare themselves concurrency-safe, and are maximal: no two neighbouring
  batches could have been one.
\<close>

lemma partition_batches:
  "let safe = (\<lambda>c. call_safe lookup (call_name c)); bs = partition_tool_calls call_name lookup calls in
     concat bs = calls \<and> (\<forall>b \<in> set bs. b \<noteq> [] \<and> (list_all safe b \<or> length b = 1))
     \<and> successively (\<lambda>b1 b2. \<not> (list_all safe b1 \<and> list_all safe b2)) bs"
proof -
  let ?safe = "\<lambda>c. call_safe lookup (call_name c)"
  have "\<forall>b \<in> set (partition_go ?safe [] calls). b \<noteq> [] \<and> (list_all ?safe b \<or> length b = 1)"
    using partition_go_batches [of ?safe "[]" _ calls] by fastforce
  then show ?thesis
    using partition_go_maximal [of ?safe "[]" calls]
    by (simp add: partition_tool_calls_def Let_def partition_go_concat)
qed


lemma partition_batches_witness:
  "let reader = (base_tool ''R'' Read); lookup = Some (\<lambda>n. if n = ''R'' then Some reader else None);
       bs = partition_tool_calls id lookup [''R'', ''R'', ''W'', ''R''] in
     concat bs = [''R'', ''R'', ''W'', ''R''] \<and> (\<forall>b \<in> set bs. b \<noteq> [])"
  using partition_batches [of "Some (\<lambda>n. if n = ''R'' then Some (base_tool ''R'' Read) else None)" id
      "[''R'', ''R'', ''W'', ''R'']"]
  by (auto simp: Let_def)

end
