(* ===== verification/Schedule_Types.thy ===== *)
theory Schedule_Types
  imports Py_Text
begin

text \<open>
  \<open>schedule/types.py\<close>, \<open>schedule/schedule_parser.py\<close> and \<open>schedule/errors.py\<close>: the cron task
  record, schedule expressions and the next fire time, and the classification and backoff of
  failures. The third-party \<open>croniter\<close> and the ISO date parser are parameters.
\<close>

section \<open>Data\<close>

datatype cron_status = Active | Paused | Expired | Completed | Deleted

datatype schedule_kind = Cron | Every | At | Delay

record schedule =
  sch_kind :: schedule_kind
  sch_expr :: string
  interval_seconds :: time
  run_at :: time

record repeat_config =
  max_count :: "nat option"
  max_duration_seconds :: "time option"
  until :: "time option"

definition is_exhausted :: "repeat_config \<Rightarrow> nat \<Rightarrow> time \<Rightarrow> time \<Rightarrow> bool" where
  "is_exhausted rc fire_count created_at now =
     (if \<exists>n. max_count rc = Some n \<and> n \<le> fire_count then True
      else if \<exists>d. max_duration_seconds rc = Some d \<and> d \<le> now - created_at then True
      else if \<exists>u. until rc = Some u \<and> u \<le> now then True
      else False)"

record delivery_config =
  dl_target :: string
  dl_on_failure :: bool
  dl_silent_pattern :: string

record failure_alert_config =
  fa_after :: nat
  fa_cooldown_seconds :: time
  fa_target :: string

record cron_task =
  ct_id :: string
  ct_schedule :: schedule
  ct_prompt :: string
  ct_description :: string
  ct_recurring :: bool
  ct_durable :: bool
  ct_skills :: "string list"
  ct_model :: "string option"
  ct_timeout_seconds :: time
  ct_inactivity_timeout :: time
  ct_delivery :: delivery_config
  ct_session_id :: "string option"
  ct_project_dir :: "string option"
  ct_created_at :: time
  ct_last_fired_at :: "time option"
  ct_next_fire_at :: "time option"
  ct_status :: cron_status
  ct_fire_count :: nat
  ct_consecutive_failures :: nat
  ct_repeat :: repeat_config
  ct_max_age_seconds :: time
  ct_failure_alert :: "failure_alert_config option"
  ct_last_failure_alert_at :: "time option"
  ct_running_by :: "string option"
  ct_running_heartbeat :: "time option"

datatype exec_status = Exec_Running | Exec_Completed | Exec_Failed | Exec_Timeout

record cron_execution =
  ex_id :: string
  ex_task_id :: string
  ex_session_id :: string
  ex_started_at :: time
  ex_ended_at :: "time option"
  ex_duration_ms :: "time option"
  ex_status :: exec_status
  ex_error :: "string option"
  ex_stop_reason :: "string option"
  ex_summary :: "string option"
  ex_delivery_status :: "string option"
  ex_delivery_error :: "string option"

section \<open>Schedule expressions\<close>

text \<open>
  The clock, the ISO parser (\<open>None\<close> where it raises \<open>ValueError\<close>), whether \<open>croniter\<close> accepts an
  expression, and its next fire time after a base time (which may raise).
\<close>

record clockwork =
  cw_iso :: "string \<Rightarrow> time option"
  cw_cron_valid :: "string \<Rightarrow> bool"
  cw_cron_next :: "string \<Rightarrow> time \<Rightarrow> time result"

text \<open>\<open>float\<close> of a digit string, exactly.\<close>

definition digits_value :: "string \<Rightarrow> nat" where
  "digits_value s = foldl (\<lambda>a c. 10 * a + (of_char c - 48)) 0 s"

definition decimal_value :: "string \<Rightarrow> string \<Rightarrow> rat" where
  "decimal_value whole fdigits = of_nat (digits_value whole) + of_nat (digits_value fdigits) / 10 ^ length fdigits"

definition unit_multiplier :: "char \<Rightarrow> rat option" where
  "unit_multiplier u =
     (let l = lower_char u in
      if l = CHR ''s'' then Some 1 else if l = CHR ''m'' then Some 60
      else if l = CHR ''h'' then Some 3600 else if l = CHR ''d'' then Some 86400 else None)"

text \<open>
  \<open>(\d+(?:\.\d+)?)\s*([smhd])$\<close> against a whole string, as seconds: the pattern has one way to
  match, so it is read off left to right.
\<close>

definition parse_amount :: "string \<Rightarrow> rat option" where
  "parse_amount s =
     (let whole = takeWhile digit_char s; r1 = dropWhile digit_char s;
          fdigits = (if prefix ''.'' r1 then takeWhile digit_char (tl r1) else []);
          r2 = (if fdigits = [] then r1 else drop (Suc (length fdigits)) r1);
          r3 = dropWhile py_space r2
      in if whole = [] then None
         else case r3 of
           [u] \<Rightarrow> map_option (\<lambda>k. decimal_value whole fdigits * k) (unit_multiplier u)
         | _ \<Rightarrow> None)"

text \<open>\<open>every\s+\<close> in any case, and what follows it.\<close>

definition after_every :: "string \<Rightarrow> string option" where
  "after_every s =
     (let rest = drop 5 s in
      if lower (take 5 s) = ''every'' \<and> rest \<noteq> [] \<and> py_space (hd rest)
      then Some (dropWhile py_space rest) else None)"

definition mk_schedule :: "schedule_kind \<Rightarrow> string \<Rightarrow> time \<Rightarrow> time \<Rightarrow> schedule" where
  "mk_schedule k e i r = \<lparr>sch_kind = k, sch_expr = e, interval_seconds = i, run_at = r\<rparr>"

definition parse_schedule :: "clockwork \<Rightarrow> time \<Rightarrow> string \<Rightarrow> schedule result" where
  "parse_schedule cw now raw =
     (let expr = strip raw in
      if expr = [] then Inl ''schedule expression cannot be empty''
      else case Option.bind (after_every expr) parse_amount of
        Some secs \<Rightarrow>
          if secs < 1 then Inl (''interval too short: '' @ expr) else Inr (mk_schedule Every [] secs 0)
      | None \<Rightarrow>
          (case parse_amount expr of
             Some secs \<Rightarrow>
               if secs < 1 then Inl (''delay too short: '' @ expr)
               else Inr (mk_schedule At [] 0 (now + secs))
           | None \<Rightarrow>
               (case cw_iso cw expr of
                  Some ts \<Rightarrow> Inr (mk_schedule At [] 0 ts)
                | None \<Rightarrow>
                    if cw_cron_valid cw expr then Inr (mk_schedule Cron expr 0 0)
                    else Inl (''unrecognised schedule expression: '' @ py_repr expr))))"

definition compute_next_fire :: "clockwork \<Rightarrow> schedule \<Rightarrow> time \<Rightarrow> time result" where
  "compute_next_fire cw s from_time =
     (case sch_kind s of
        Cron \<Rightarrow> cw_cron_next cw (sch_expr s) from_time
      | Every \<Rightarrow> Inr (from_time + interval_seconds s)
      | At \<Rightarrow> Inr (run_at s)
      | Delay \<Rightarrow> Inl ''cannot compute next_fire'')"

section \<open>Failures\<close>

text \<open>\<open>re.IGNORECASE\<close> patterns are written in lower case with \<open>ilit\<close>.\<close>

definition any_of :: "string \<Rightarrow> regex" where "any_of cs = one_of cs"

definition TRANSIENT_PATTERNS :: "(string \<times> regex) list" where
  "TRANSIENT_PATTERNS =
     [(''rate_limit'', alts [seqs [ilit ''rate'', any_of ''_ '', ilit ''limit''], ilit ''too many requests'',
                             ilit ''429'', ilit ''resource has been exhausted'']),
      (''overloaded'', alts [seqs [Word_Boundary, ilit ''529'', Word_Boundary], ilit ''overloaded'',
                             ilit ''high demand'', ilit ''capacity exceeded'']),
      (''network'', alts [ilit ''network'', ilit ''econnreset'', ilit ''econnrefused'', ilit ''fetch failed'',
                          ilit ''socket'']),
      (''timeout'', alts [ilit ''timeout'', ilit ''etimedout'']),
      (''server_error'', seqs [Word_Boundary, lit ''5'', times 2 (Cls digit_char), Word_Boundary])]"

definition PERMANENT_PATTERNS :: "regex list" where
  "PERMANENT_PATTERNS =
     [ilit ''unsupported channel'', ilit ''chat not found'',
      seqs [ilit ''bot'', Star any_char, ilit ''not'', Star any_char, ilit ''member''],
      ilit ''forbidden'',
      seqs [ilit ''invalid'', Star any_char, ilit ''api'', any_of ''_ '', ilit ''key''],
      seqs [ilit ''authentication'', Star any_char, ilit ''failed'']]"

definition is_transient_error :: "string \<Rightarrow> bool" where
  "is_transient_error err =
     (if err = [] then False
      else if \<exists>p \<in> set PERMANENT_PATTERNS. re_search p err then False
      else \<exists>p \<in> set TRANSIENT_PATTERNS. re_search (snd p) err)"

definition BACKOFF_SCHEDULE_S :: "time list" where
  "BACKOFF_SCHEDULE_S = [30, 60, 300, 900, 3600]"

definition ONESHOT_MAX_TRANSIENT_RETRIES :: nat where
  "ONESHOT_MAX_TRANSIENT_RETRIES = 3"

definition backoff_delay :: "nat \<Rightarrow> time" where
  "backoff_delay consecutive_failures =
     (let idx = min (int consecutive_failures - 1) (int (length BACKOFF_SCHEDULE_S) - 1)
      in BACKOFF_SCHEDULE_S ! nat (max 0 idx))"

definition TRANSIENT_DELIVERY :: "regex list" where
  "TRANSIENT_DELIVERY =
     [alts [ilit ''econnreset'', ilit ''econnrefused'', ilit ''etimedout'', ilit ''enotfound''],
      ilit ''gateway not connected'', ilit ''gateway closed'', ilit ''network error'']"

definition PERMANENT_DELIVERY :: "regex list" where
  "PERMANENT_DELIVERY =
     [ilit ''unsupported channel'', ilit ''unknown channel'', ilit ''chat not found'',
      ilit ''bot was blocked'', ilit ''forbidden'']"

definition DELIVERY_RETRY_DELAYS_S :: "time list" where
  "DELIVERY_RETRY_DELAYS_S = [5, 10, 20]"

definition is_transient_delivery_error :: "string \<Rightarrow> bool" where
  "is_transient_delivery_error err =
     (if err = [] then False
      else if \<exists>p \<in> set PERMANENT_DELIVERY. re_search p err then False
      else \<exists>p \<in> set TRANSIENT_DELIVERY. re_search p err)"

section \<open>Facts\<close>

lemma backoff_delay_cases:
  "backoff_delay n =
     (if n \<le> 1 then 30 else if n = 2 then 60 else if n = 3 then 300 else if n = 4 then 900 else 3600)"
proof -
  consider "n \<le> 1" | "n = 2" | "n = 3" | "n = 4" | "5 \<le> n" by linarith
  then show ?thesis
    by cases (auto simp: backoff_delay_def BACKOFF_SCHEDULE_S_def min_def max_def nat_diff_distrib)
qed

lemma backoff_delay_bounds: "30 \<le> backoff_delay n" "backoff_delay n \<le> 3600"
  by (simp_all add: backoff_delay_cases)

lemma backoff_delay_mono: "m \<le> n \<Longrightarrow> backoff_delay m \<le> backoff_delay n"
  by (auto simp: backoff_delay_cases)

lemma is_exhausted_mono:
  assumes "is_exhausted rc n c now" "n \<le> n'" "now \<le> now'"
  shows "is_exhausted rc n' c now'"
proof -
  from assms(1) consider (count) k where "max_count rc = Some k" "k \<le> n"
    | (dur) d where "max_duration_seconds rc = Some d" "d \<le> now - c"
    | (until) u where "until rc = Some u" "u \<le> now"
    by (auto simp: is_exhausted_def split: if_splits)
  then show ?thesis
  proof cases
    case count
    with assms(2) show ?thesis by (auto simp: is_exhausted_def)
  next
    case dur
    with assms(3) have "d \<le> now' - c" by linarith
    with dur show ?thesis by (auto simp: is_exhausted_def)
  next
    case until
    with assms(3) have "u \<le> now'" by linarith
    with until show ?thesis by (auto simp: is_exhausted_def)
  qed
qed

lemma parse_schedule_interval:
  assumes "parse_schedule cw now raw = Inr s"
  shows "sch_kind s \<noteq> Delay \<and> (sch_kind s = Every \<longrightarrow> 1 \<le> interval_seconds s)"
  using assms by (auto simp: parse_schedule_def mk_schedule_def Let_def split: if_splits option.splits)

end
