(* ===== verification/Cron_Store.thy ===== *)
theory Cron_Store
  imports Schedule_Types
begin

text \<open>
  \<open>schedule/store.py\<close>: the SQLite rows of durable tasks, the mapping between rows and tasks, the
  memory of non-durable tasks, and the execution records. A statement of the code is one change of
  the row list. Non-durable tasks are shared objects: whoever holds one sees every later change.
  The store keeps them as objects by id (\<open>st_objs\<close>, which outlives removal) beside the ids that
  \<open>_memory\<close> still lists (\<open>st_memory\<close>, in insertion order).
\<close>

section \<open>Rows\<close>

record cron_row =
  r_id :: string
  r_schedule_kind :: string
  r_schedule_expr :: string
  r_schedule_interval :: time
  r_schedule_run_at :: time
  r_prompt :: string
  r_description :: string
  r_recurring :: int
  r_durable :: int
  r_skills :: string
  r_model :: "string option"
  r_timeout_seconds :: time
  r_inactivity_timeout :: time
  r_delivery_target :: string
  r_delivery_on_failure :: int
  r_delivery_silent_pattern :: string
  r_session_id :: "string option"
  r_project_dir :: "string option"
  r_created_at :: time
  r_last_fired_at :: "time option"
  r_next_fire_at :: "time option"
  r_status :: string
  r_fire_count :: nat
  r_consecutive_failures :: nat
  r_max_age_seconds :: time
  r_repeat_max_count :: "nat option"
  r_repeat_max_duration :: "time option"
  r_repeat_until :: "time option"
  r_failure_alert_after :: "nat option"
  r_failure_alert_cooldown :: "time option"
  r_failure_alert_target :: "string option"
  r_last_failure_alert_at :: "time option"
  r_running_by :: "string option"
  r_running_heartbeat :: "time option"

fun status_value :: "cron_status \<Rightarrow> string" where
  "status_value Active = ''active''"
| "status_value Paused = ''paused''"
| "status_value Expired = ''expired''"
| "status_value Completed = ''completed''"
| "status_value Deleted = ''deleted''"

definition status_of :: "string \<Rightarrow> cron_status result" where
  "status_of s =
     (if s = ''active'' then Inr Active else if s = ''paused'' then Inr Paused
      else if s = ''expired'' then Inr Expired else if s = ''completed'' then Inr Completed
      else if s = ''deleted'' then Inr Deleted else Inl ''ValueError'')"

fun kind_value :: "schedule_kind \<Rightarrow> string" where
  "kind_value Cron = ''cron''"
| "kind_value Every = ''every''"
| "kind_value At = ''at''"
| "kind_value Delay = ''delay''"

definition kind_of :: "string \<Rightarrow> schedule_kind result" where
  "kind_of s =
     (if s = ''cron'' then Inr Cron else if s = ''every'' then Inr Every
      else if s = ''at'' then Inr At else if s = ''delay'' then Inr Delay else Inl ''ValueError'')"

text \<open>\<open>orjson\<close> on a list of strings: writing it, and reading it back (which may raise).\<close>

record json_codec =
  dump_list :: "string list \<Rightarrow> string"
  load_list :: "string \<Rightarrow> string list result"

definition task_to_row :: "json_codec \<Rightarrow> cron_task \<Rightarrow> cron_row" where
  "task_to_row js t =
     (let fa = ct_failure_alert t in
      \<lparr>r_id = ct_id t,
       r_schedule_kind = kind_value (sch_kind (ct_schedule t)),
       r_schedule_expr = sch_expr (ct_schedule t),
       r_schedule_interval = interval_seconds (ct_schedule t),
       r_schedule_run_at = run_at (ct_schedule t),
       r_prompt = ct_prompt t, r_description = ct_description t,
       r_recurring = of_bool (ct_recurring t), r_durable = of_bool (ct_durable t),
       r_skills = dump_list js (ct_skills t), r_model = ct_model t,
       r_timeout_seconds = ct_timeout_seconds t, r_inactivity_timeout = ct_inactivity_timeout t,
       r_delivery_target = dl_target (ct_delivery t),
       r_delivery_on_failure = of_bool (dl_on_failure (ct_delivery t)),
       r_delivery_silent_pattern = dl_silent_pattern (ct_delivery t),
       r_session_id = ct_session_id t, r_project_dir = ct_project_dir t,
       r_created_at = ct_created_at t, r_last_fired_at = ct_last_fired_at t,
       r_next_fire_at = ct_next_fire_at t, r_status = status_value (ct_status t),
       r_fire_count = ct_fire_count t, r_consecutive_failures = ct_consecutive_failures t,
       r_max_age_seconds = ct_max_age_seconds t,
       r_repeat_max_count = max_count (ct_repeat t),
       r_repeat_max_duration = max_duration_seconds (ct_repeat t),
       r_repeat_until = until (ct_repeat t),
       r_failure_alert_after = map_option fa_after fa,
       r_failure_alert_cooldown = map_option fa_cooldown_seconds fa,
       r_failure_alert_target = map_option fa_target fa,
       r_last_failure_alert_at = ct_last_failure_alert_at t,
       r_running_by = ct_running_by t, r_running_heartbeat = ct_running_heartbeat t\<rparr>)"

text \<open>\<open>row[...] or default\<close>: a missing or falsy column reads as the default.\<close>

definition row_to_alert :: "cron_row \<Rightarrow> failure_alert_config option" where
  "row_to_alert row =
     (case r_failure_alert_after row of
        None \<Rightarrow> None
      | Some a \<Rightarrow> Some
          \<lparr>fa_after = a,
           fa_cooldown_seconds =
             (case r_failure_alert_cooldown row of Some c \<Rightarrow> if c = 0 then 3600 else c | None \<Rightarrow> 3600),
           fa_target =
             (case r_failure_alert_target row of
                Some s \<Rightarrow> if s = [] then ''session'' else s | None \<Rightarrow> ''session'')\<rparr>)"

definition row_to_task :: "json_codec \<Rightarrow> cron_row \<Rightarrow> cron_task result" where
  "row_to_task js row =
     bindR (kind_of (r_schedule_kind row)) (\<lambda>kind.
     bindR (load_list js (r_skills row)) (\<lambda>skills.
     bindR (status_of (r_status row)) (\<lambda>status. Inr
       \<lparr>ct_id = r_id row,
        ct_schedule = \<lparr>sch_kind = kind, sch_expr = r_schedule_expr row,
          interval_seconds = r_schedule_interval row, run_at = r_schedule_run_at row\<rparr>,
        ct_prompt = r_prompt row, ct_description = r_description row,
        ct_recurring = (r_recurring row \<noteq> 0), ct_durable = (r_durable row \<noteq> 0),
        ct_skills = skills, ct_model = r_model row,
        ct_timeout_seconds = r_timeout_seconds row, ct_inactivity_timeout = r_inactivity_timeout row,
        ct_delivery = \<lparr>dl_target = r_delivery_target row,
          dl_on_failure = (r_delivery_on_failure row \<noteq> 0),
          dl_silent_pattern = r_delivery_silent_pattern row\<rparr>,
        ct_session_id = r_session_id row, ct_project_dir = r_project_dir row,
        ct_created_at = r_created_at row, ct_last_fired_at = r_last_fired_at row,
        ct_next_fire_at = r_next_fire_at row, ct_status = status,
        ct_fire_count = r_fire_count row, ct_consecutive_failures = r_consecutive_failures row,
        ct_repeat = \<lparr>max_count = r_repeat_max_count row,
          max_duration_seconds = r_repeat_max_duration row, until = r_repeat_until row\<rparr>,
        ct_max_age_seconds = r_max_age_seconds row,
        ct_failure_alert = row_to_alert row,
        ct_last_failure_alert_at = r_last_failure_alert_at row,
        ct_running_by = r_running_by row, ct_running_heartbeat = r_running_heartbeat row\<rparr>)))"

section \<open>The store\<close>

record cron_store =
  st_rows :: "cron_row list"
  st_objs :: "string \<rightharpoonup> cron_task"
  st_memory :: "string list"
  st_executions :: "cron_execution list"

definition empty_cron_store :: cron_store where
  "empty_cron_store = \<lparr>st_rows = [], st_objs = Map.empty, st_memory = [], st_executions = []\<rparr>"

text \<open>\<open>UPDATE cron_tasks SET ... WHERE id = ?\<close> and its row count.\<close>

definition update_rows :: "(cron_row \<Rightarrow> bool) \<Rightarrow> (cron_row \<Rightarrow> cron_row) \<Rightarrow> cron_store \<Rightarrow> cron_store" where
  "update_rows P f st = st\<lparr>st_rows := map (\<lambda>r. if P r then f r else r) (st_rows st)\<rparr>"

definition rowcount :: "(cron_row \<Rightarrow> bool) \<Rightarrow> cron_store \<Rightarrow> nat" where
  "rowcount P st = length (filter P (st_rows st))"

definition update_obj :: "string \<Rightarrow> (cron_task \<Rightarrow> cron_task) \<Rightarrow> cron_store \<Rightarrow> cron_store" where
  "update_obj tid f st =
     (case st_objs st tid of
        None \<Rightarrow> st
      | Some t \<Rightarrow> st\<lparr>st_objs := (st_objs st)(tid \<mapsto> f t)\<rparr>)"

definition store_add :: "json_codec \<Rightarrow> cron_task \<Rightarrow> cron_store \<Rightarrow> cron_store result" where
  "store_add js t st =
     (if \<not> ct_durable t then
        Inr (st\<lparr>st_objs := (st_objs st)(ct_id t \<mapsto> t),
                st_memory := (if ct_id t \<in> set (st_memory st) then st_memory st
                              else st_memory st @ [ct_id t])\<rparr>)
      else if \<exists>r \<in> set (st_rows st). r_id r = ct_id t then Inl ''IntegrityError''
      else Inr (st\<lparr>st_rows := st_rows st @ [task_to_row js t]\<rparr>))"

definition store_remove :: "string \<Rightarrow> cron_store \<Rightarrow> bool \<times> cron_store" where
  "store_remove tid st =
     (if tid \<in> set (st_memory st) then
        (True, (update_obj tid (\<lambda>t. t\<lparr>ct_status := Deleted\<rparr>) st)
                 \<lparr>st_memory := filter (\<lambda>i. i \<noteq> tid) (st_memory st)\<rparr>)
      else (0 < rowcount (\<lambda>r. r_id r = tid) st,
            update_rows (\<lambda>r. r_id r = tid) (\<lambda>r. r\<lparr>r_status := status_value Deleted\<rparr>) st))"

definition store_get :: "json_codec \<Rightarrow> string \<Rightarrow> cron_store \<Rightarrow> cron_task option result" where
  "store_get js tid st =
     (if tid \<in> set (st_memory st) then Inr (st_objs st tid)
      else case find (\<lambda>r. r_id r = tid) (st_rows st) of
        None \<Rightarrow> Inr None
      | Some row \<Rightarrow> mapR Some (row_to_task js row))"

fun all_tasks :: "json_codec \<Rightarrow> cron_row list \<Rightarrow> cron_task list result" where
  "all_tasks js [] = Inr []"
| "all_tasks js (r # rs) =
     bindR (row_to_task js r) (\<lambda>t. bindR (all_tasks js rs) (\<lambda>ts. Inr (t # ts)))"

definition memory_tasks :: "cron_store \<Rightarrow> cron_task list" where
  "memory_tasks st = List.map_filter (st_objs st) (st_memory st)"

definition list_all_tasks :: "json_codec \<Rightarrow> cron_store \<Rightarrow> cron_task list result" where
  "list_all_tasks js st = bindR (all_tasks js (st_rows st)) (\<lambda>ts. Inr (ts @ memory_tasks st))"

definition list_active :: "json_codec \<Rightarrow> cron_store \<Rightarrow> cron_task list result" where
  "list_active js st =
     bindR (all_tasks js (filter (\<lambda>r. r_status r = status_value Active) (st_rows st))) (\<lambda>ts.
       Inr (ts @ filter (\<lambda>t. ct_status t = Active) (memory_tasks st)))"

definition update_fired :: "string \<Rightarrow> time \<Rightarrow> time option \<Rightarrow> cron_store \<Rightarrow> cron_store" where
  "update_fired tid fired_at next_at st =
     (if tid \<in> set (st_memory st) then
        update_obj tid (\<lambda>t. t\<lparr>ct_last_fired_at := Some fired_at, ct_next_fire_at := next_at,
                              ct_fire_count := ct_fire_count t + 1, ct_consecutive_failures := 0\<rparr>) st
      else
        update_rows (\<lambda>r. r_id r = tid)
          (\<lambda>r. r\<lparr>r_last_fired_at := Some fired_at, r_next_fire_at := next_at,
                 r_fire_count := r_fire_count r + 1, r_consecutive_failures := 0\<rparr>) st)"

text \<open>
  \<open>update_status\<close>: the arguments left at \<open>...\<close> (here \<open>None\<close>) keep their column.
\<close>

definition update_status ::
    "string \<Rightarrow> cron_status \<Rightarrow> time option option \<Rightarrow> nat option \<Rightarrow> time option option
       \<Rightarrow> cron_store \<Rightarrow> cron_store" where
  "update_status tid status next_fire failures alert_at st =
     (if tid \<in> set (st_memory st) then
        update_obj tid (\<lambda>t. t\<lparr>ct_status := status,
          ct_next_fire_at := (case next_fire of None \<Rightarrow> ct_next_fire_at t | Some n \<Rightarrow> n),
          ct_consecutive_failures := (case failures of None \<Rightarrow> ct_consecutive_failures t | Some k \<Rightarrow> k),
          ct_last_failure_alert_at := (case alert_at of None \<Rightarrow> ct_last_failure_alert_at t | Some a \<Rightarrow> a)\<rparr>) st
      else
        update_rows (\<lambda>r. r_id r = tid) (\<lambda>r. r\<lparr>r_status := status_value status,
          r_next_fire_at := (case next_fire of None \<Rightarrow> r_next_fire_at r | Some n \<Rightarrow> n),
          r_consecutive_failures := (case failures of None \<Rightarrow> r_consecutive_failures r | Some k \<Rightarrow> k),
          r_last_failure_alert_at := (case alert_at of None \<Rightarrow> r_last_failure_alert_at r | Some a \<Rightarrow> a)\<rparr>) st)"

subsection \<open>Execution records\<close>

definition add_execution :: "cron_execution \<Rightarrow> cron_store \<Rightarrow> cron_store result" where
  "add_execution e st =
     (if \<exists>x \<in> set (st_executions st). ex_id x = ex_id e then Inl ''IntegrityError''
      else Inr (st\<lparr>st_executions := st_executions st @ [e]\<rparr>))"

text \<open>\<open>ORDER BY started_at DESC LIMIT n\<close>; ties stay in row order.\<close>

definition list_executions :: "string \<Rightarrow> nat \<Rightarrow> cron_store \<Rightarrow> cron_execution list" where
  "list_executions tid n st =
     take n (sort_key (\<lambda>e. - ex_started_at e) (filter (\<lambda>e. ex_task_id e = tid) (st_executions st)))"

definition prune_executions :: "time \<Rightarrow> nat \<Rightarrow> cron_store \<Rightarrow> nat \<times> cron_store" where
  "prune_executions now retention_days st =
     (let cutoff = now - of_nat retention_days * 86400;
          old = (\<lambda>e. ex_started_at e < cutoff)
      in (length (filter old (st_executions st)),
          st\<lparr>st_executions := filter (\<lambda>e. \<not> old e) (st_executions st)\<rparr>))"

section \<open>Rows and tasks correspond\<close>

lemma status_of_value [simp]: "status_of (status_value s) = Inr s"
  by (cases s) (simp_all add: status_of_def)

lemma status_value_inj [simp]: "status_value a = status_value b \<longleftrightarrow> a = b"
  by (cases a; cases b) simp_all

lemma kind_of_value [simp]: "kind_of (kind_value k) = Inr k"
  by (cases k) (simp_all add: kind_of_def)

definition json_ok :: "json_codec \<Rightarrow> bool" where
  "json_ok js \<longleftrightarrow> (\<forall>xs. load_list js (dump_list js xs) = Inr xs)"

text \<open>What the falsy defaults do to an alert configuration on its way through a row.\<close>

definition stored_alert :: "failure_alert_config \<Rightarrow> failure_alert_config" where
  "stored_alert fa = fa
     \<lparr>fa_cooldown_seconds := (if fa_cooldown_seconds fa = 0 then 3600 else fa_cooldown_seconds fa),
      fa_target := (if fa_target fa = [] then ''session'' else fa_target fa)\<rparr>"

lemma row_roundtrip:
  assumes "json_ok js"
  shows "row_to_task js (task_to_row js t) =
    Inr (t\<lparr>ct_failure_alert := map_option stored_alert (ct_failure_alert t)\<rparr>)"
  using assms
  by (cases "ct_failure_alert t")
    (simp_all add: row_to_task_def task_to_row_def Let_def json_ok_def row_to_alert_def stored_alert_def)

section \<open>Looking up one row\<close>

definition row_of :: "string \<Rightarrow> cron_store \<Rightarrow> cron_row option" where
  "row_of tid st = find (\<lambda>r. r_id r = tid) (st_rows st)"

lemma find_map_id:
  assumes "\<forall>r. r_id (f r) = r_id r"
  shows "find (\<lambda>r. r_id r = tid) (map f rs) = map_option f (find (\<lambda>r. r_id r = tid) rs)"
  using assms by (induction rs) auto

lemma row_of_update [simp]:
  assumes "\<And>r. r_id (f r) = r_id r"
  shows "row_of tid (update_rows P f st) = map_option (\<lambda>r. if P r then f r else r) (row_of tid st)"
  unfolding row_of_def update_rows_def
  using assms by (simp add: find_map_id)

lemma row_of_id: "row_of tid st = Some r \<Longrightarrow> r_id r = tid"
  by (auto simp: row_of_def find_Some_iff)

lemma row_of_obj [simp]: "row_of tid (update_obj i f st) = row_of tid st"
  by (simp add: row_of_def update_obj_def split: option.splits)

lemma update_obj_memory [simp]: "st_memory (update_obj i f st) = st_memory st"
  by (simp add: update_obj_def split: option.splits)

lemma update_rows_memory [simp]:
  "st_memory (update_rows P f st) = st_memory st" "st_objs (update_rows P f st) = st_objs st"
  by (simp_all add: update_rows_def)

end
