(* ===== verification/Cron_Scheduler.thy ===== *)
theory Cron_Scheduler
  imports Cron_Store
begin

text \<open>
  \<open>schedule/scheduler.py\<close> and the task operations of \<open>schedule/__init__.py\<close>: which tasks are due,
  the claim protocol between kernels sharing a database, what happens after an execution, failure
  handling, startup catch-up, and the user's operations. The executor, the delivery router and the
  clock are parameters. A task handed out by the store is a copy when it is durable and the shared
  object itself when it is not: \<open>current\<close> is what reading through the handle gives later.
\<close>

section \<open>Constants\<close>

definition MAX_SLEEP_S :: time where "MAX_SLEEP_S = 60"
definition HEARTBEAT_STALE_THRESHOLD_S :: time where "HEARTBEAT_STALE_THRESHOLD_S = 120"
definition MAX_IMMEDIATE_CATCHUP :: nat where "MAX_IMMEDIATE_CATCHUP = 5"

definition current :: "cron_store \<Rightarrow> cron_task \<Rightarrow> cron_task" where
  "current st t =
     (if ct_durable t then t else case st_objs st (ct_id t) of Some o' \<Rightarrow> o' | None \<Rightarrow> t)"

section \<open>One pass over the active tasks\<close>

definition is_due :: "time \<Rightarrow> cron_task \<Rightarrow> bool" where
  "is_due now t \<longleftrightarrow> ct_running_by t = None \<and> (\<exists>n. ct_next_fire_at t = Some n \<and> n \<le> now)"

definition due_tasks :: "time \<Rightarrow> cron_task list \<Rightarrow> cron_task list" where
  "due_tasks now active = filter (is_due now) active"

text \<open>The earliest fire time still to come of an unclaimed task.\<close>

fun soonest :: "time \<Rightarrow> cron_task list \<Rightarrow> time option \<Rightarrow> time option" where
  "soonest now [] acc = acc"
| "soonest now (t # ts) acc =
     (case ct_next_fire_at t of
        None \<Rightarrow> soonest now ts acc
      | Some n \<Rightarrow>
          if ct_running_by t \<noteq> None \<or> n \<le> now then soonest now ts acc
          else soonest now ts (case acc of None \<Rightarrow> Some n | Some a \<Rightarrow> if n < a then Some n else Some a))"

definition sleep_delay :: "time option \<Rightarrow> time \<Rightarrow> time" where
  "sleep_delay next_fire now =
     max (case next_fire of Some s \<Rightarrow> min (s - now) MAX_SLEEP_S | None \<Rightarrow> MAX_SLEEP_S) (1/10)"

definition outlived :: "time \<Rightarrow> cron_task \<Rightarrow> bool" where
  "outlived now t \<longleftrightarrow> ct_recurring t \<and> 0 < ct_max_age_seconds t
     \<and> (\<exists>l. ct_last_fired_at t = Some l \<and> ct_max_age_seconds t < now - l)"

definition expire_pass :: "time \<Rightarrow> cron_task list \<Rightarrow> cron_store \<Rightarrow> cron_store" where
  "expire_pass now active st =
     fold (\<lambda>t st. if outlived now t then update_status (ct_id t) Expired (Some None) None None st else st)
       active st"

section \<open>The claim protocol\<close>

definition claimable :: "string \<Rightarrow> cron_row \<Rightarrow> bool" where
  "claimable tid r \<longleftrightarrow> r_id r = tid \<and> r_running_by r = None \<and> r_status r = status_value Active"

definition claim_row :: "string \<Rightarrow> string \<Rightarrow> time \<Rightarrow> cron_store \<Rightarrow> bool \<times> cron_store" where
  "claim_row k tid now st =
     (0 < rowcount (claimable tid) st,
      update_rows (claimable tid) (\<lambda>r. r\<lparr>r_running_by := Some k, r_running_heartbeat := Some now\<rparr>) st)"

definition mark_running :: "string \<Rightarrow> time \<Rightarrow> cron_task \<Rightarrow> cron_task" where
  "mark_running k now t = t\<lparr>ct_running_by := Some k, ct_running_heartbeat := Some now\<rparr>"

fun claim_tasks :: "string \<Rightarrow> time \<Rightarrow> cron_task list \<Rightarrow> cron_store \<Rightarrow> cron_task list \<times> cron_store" where
  "claim_tasks k now [] st = ([], st)"
| "claim_tasks k now (t # ts) st =
     (if \<not> ct_durable t then
        (let (claimed, st') = claim_tasks k now ts (update_obj (ct_id t) (mark_running k now) st)
         in (mark_running k now t # claimed, st'))
      else
        (let (ok, st1) = claim_row k (ct_id t) now st;
             (claimed, st') = claim_tasks k now ts st1
         in (if ok then mark_running k now t # claimed else claimed, st')))"

definition release_task :: "string \<Rightarrow> string \<Rightarrow> cron_store \<Rightarrow> cron_store" where
  "release_task k tid st =
     update_rows (\<lambda>r. r_id r = tid \<and> r_running_by r = Some k)
       (\<lambda>r. r\<lparr>r_running_by := None, r_running_heartbeat := None\<rparr>) st"

definition cleanup_stale_claims :: "time \<Rightarrow> cron_store \<Rightarrow> cron_store" where
  "cleanup_stale_claims now st =
     (let cutoff = now - HEARTBEAT_STALE_THRESHOLD_S in
      update_rows (\<lambda>r. r_running_by r \<noteq> None \<and> (\<exists>h. r_running_heartbeat r = Some h \<and> h < cutoff))
        (\<lambda>r. r\<lparr>r_running_by := None, r_running_heartbeat := None\<rparr>) st)"

definition heartbeat :: "string \<Rightarrow> string \<Rightarrow> time \<Rightarrow> cron_store \<Rightarrow> cron_store" where
  "heartbeat k tid now st =
     update_rows (\<lambda>r. r_id r = tid \<and> r_running_by r = Some k)
       (\<lambda>r. r\<lparr>r_running_heartbeat := Some now\<rparr>) st"

section \<open>After an execution\<close>

text \<open>
  \<open>_handle_failure\<close>. \<open>alerts\<close> is whether a delivery router is there and the alert could be sent.
  The last write passes the status the handle shows, which for a durable task is the status it had
  when it was listed.
\<close>

definition alert_due :: "time \<Rightarrow> nat \<Rightarrow> cron_task \<Rightarrow> bool" where
  "alert_due now new_failures t \<longleftrightarrow>
     (case ct_failure_alert t of
        None \<Rightarrow> False
      | Some fa \<Rightarrow> fa_after fa \<le> new_failures \<and>
          (case ct_last_failure_alert_at t of
             None \<Rightarrow> True
           | Some a \<Rightarrow> fa_cooldown_seconds fa \<le> now - a))"

definition failure_alert :: "bool \<Rightarrow> time \<Rightarrow> nat \<Rightarrow> cron_task \<Rightarrow> cron_store \<Rightarrow> cron_store" where
  "failure_alert alerts now new_failures t st =
     (let t' = current st t in
      if alert_due now new_failures t' \<and> alerts
      then update_status (ct_id t') (ct_status t') None None (Some (Some now)) st
      else st)"

definition handle_failure ::
    "clockwork \<Rightarrow> bool \<Rightarrow> string \<Rightarrow> time \<Rightarrow> cron_task \<Rightarrow> cron_store \<Rightarrow> cron_store" where
  "handle_failure cw alerts err now t st =
     (let t0 = current st t; tid = ct_id t0; new_failures = ct_consecutive_failures t0 + 1 in
      if ct_recurring t0 then
        (case compute_next_fire cw (ct_schedule t0) now of
           Inl _ \<Rightarrow>
             if 3 \<le> new_failures then update_status tid Paused (Some None) (Some new_failures) None st
             else failure_alert alerts now new_failures t
               (update_status tid Active (Some (Some (max (now + 300) (now + backoff_delay new_failures))))
                  (Some new_failures) None st)
         | Inr natural_next \<Rightarrow>
             failure_alert alerts now new_failures t
               (update_status tid Active (Some (Some (max natural_next (now + backoff_delay new_failures))))
                  (Some new_failures) None st))
      else if is_transient_error err \<and> new_failures \<le> ONESHOT_MAX_TRANSIENT_RETRIES then
        failure_alert alerts now new_failures t
          (update_status tid Active (Some (Some (now + backoff_delay new_failures)))
             (Some new_failures) None st)
      else
        failure_alert alerts now new_failures t
          (update_status tid Paused (Some None) (Some new_failures) None st))"

text \<open>
  \<open>_fire_task\<close> once the executor has answered: \<open>outcome\<close> is its execution record or the exception
  it raised, \<open>now\<close> and \<open>now_f\<close> the clock on the success and on the failure path. A record that
  cannot be saved is logged only. The claim is released in every case.
\<close>

definition record_execution :: "cron_execution \<Rightarrow> cron_store \<Rightarrow> cron_store" where
  "record_execution e st = (case add_execution e st of Inl _ \<Rightarrow> st | Inr st' \<Rightarrow> st')"

definition after_success ::
    "clockwork \<Rightarrow> time \<Rightarrow> cron_task \<Rightarrow> cron_store \<Rightarrow> cron_store result" where
  "after_success cw now t st =
     (let t0 = current st t; tid = ct_id t0 in
      if ct_recurring t0 then
        bindR (compute_next_fire cw (ct_schedule t0) now) (\<lambda>next_at.
          let st1 = update_fired tid now (Some next_at) st; t1 = current st1 t;
              new_count = ct_fire_count t1 + 1
          in Inr (if is_exhausted (ct_repeat t1) new_count (ct_created_at t1) now
                  then update_status tid Completed (Some None) None None st1 else st1))
      else
        Inr (update_status tid Completed (Some None) None None (update_fired tid now None st)))"

definition settle ::
    "clockwork \<Rightarrow> bool \<Rightarrow> cron_execution result \<Rightarrow> time \<Rightarrow> time \<Rightarrow> cron_task \<Rightarrow> cron_store \<Rightarrow> cron_store"
where
  "settle cw alerts outcome now now_f t st =
     (case outcome of
        Inl e \<Rightarrow> handle_failure cw alerts e now_f t st
      | Inr ex \<Rightarrow>
          (let st1 = record_execution ex st in
           if ex_status ex \<in> {Exec_Completed, Exec_Running} then
             (case after_success cw now t st1 of
                Inr st2 \<Rightarrow> st2
              | Inl e \<Rightarrow> handle_failure cw alerts e now_f t st1)
           else handle_failure cw alerts
                  (case ex_error ex of Some e \<Rightarrow> if e = [] then ''unknown error'' else e
                     | None \<Rightarrow> ''unknown error'') now_f t st1))"

definition fire_task ::
    "clockwork \<Rightarrow> bool \<Rightarrow> string \<Rightarrow> cron_execution result \<Rightarrow> time \<Rightarrow> time \<Rightarrow> cron_task \<Rightarrow> cron_store
       \<Rightarrow> cron_store" where
  "fire_task cw alerts k outcome now now_f t st =
     release_task k (ct_id t) (settle cw alerts outcome now now_f t st)"

text \<open>
  \<open>_fire_batch\<close> with one execution at a time (the default of one concurrent execution): the claimed
  tasks run in order. \<open>run\<close> is the executor.
\<close>

type_synonym executor = "cron_task \<Rightarrow> time \<Rightarrow> cron_execution result"

definition fire_batch ::
    "clockwork \<Rightarrow> bool \<Rightarrow> executor \<Rightarrow> string \<Rightarrow> time \<Rightarrow> cron_task list \<Rightarrow> cron_store \<Rightarrow> cron_store" where
  "fire_batch cw alerts run k now tasks st =
     (let (claimed, st1) = claim_tasks k now tasks st
      in fold (\<lambda>t s. fire_task cw alerts k (run t now) now now t s) claimed st1)"

text \<open>
  One turn of \<open>_schedule_loop\<close>: how long it sleeps, when it last pruned, and the new store. Every
  five minutes it also prunes old execution records; the reaping of their sessions beside it acts on
  the session manager only and is left out.
\<close>

definition prune_turn :: "nat \<Rightarrow> time \<Rightarrow> time \<Rightarrow> cron_store \<Rightarrow> time \<times> cron_store" where
  "prune_turn retention_days last_reap now st =
     (if 300 < now - last_reap
      then (now, if 0 < retention_days then snd (prune_executions now retention_days st) else st)
      else (last_reap, st))"

definition schedule_tick ::
    "json_codec \<Rightarrow> clockwork \<Rightarrow> bool \<Rightarrow> executor \<Rightarrow> string \<Rightarrow> nat \<Rightarrow> time \<Rightarrow> time \<Rightarrow> cron_store
       \<Rightarrow> (time \<times> time \<times> cron_store) result" where
  "schedule_tick js cw alerts run k retention_days last_reap now st0 =
     (let st = cleanup_stale_claims now st0 in
      bindR (list_active js st) (\<lambda>active.
        let due = due_tasks now active;
            st1 = expire_pass now active st;
            st2 = (if due = [] then st1 else fire_batch cw alerts run k now due st1);
            (reaped, st3) = prune_turn retention_days last_reap now st2
        in Inr (sleep_delay (soonest now active None) now, reaped, st3)))"

section \<open>Startup catch-up\<close>

definition is_missed :: "time \<Rightarrow> cron_task \<Rightarrow> bool" where
  "is_missed now t \<longleftrightarrow> ct_running_by t = None \<and> (\<exists>n. ct_next_fire_at t = Some n \<and> n < now)"

definition catchup_one ::
    "clockwork \<Rightarrow> bool \<Rightarrow> executor \<Rightarrow> string \<Rightarrow> time \<Rightarrow> cron_task \<Rightarrow> cron_store \<Rightarrow> cron_store" where
  "catchup_one cw alerts run k now t st =
     (let t0 = current st t in
      if ct_recurring t0 \<and> \<not> is_exhausted (ct_repeat t0) (ct_fire_count t0) (ct_created_at t0) now then
        (case compute_next_fire cw (ct_schedule t0) now of
           Inl _ \<Rightarrow> st
         | Inr next_at \<Rightarrow> update_status (ct_id t0) Active (Some (Some next_at)) None None st)
      else
        (let (claimed, st1) = claim_tasks k now [t] st in
         case claimed of [] \<Rightarrow> st1 | c # _ \<Rightarrow> fire_task cw alerts k (run c now) now now c st1))"

definition startup_catchup ::
    "json_codec \<Rightarrow> clockwork \<Rightarrow> bool \<Rightarrow> executor \<Rightarrow> string \<Rightarrow> time \<Rightarrow> cron_store \<Rightarrow> cron_store result"
where
  "startup_catchup js cw alerts run k now st0 =
     (let st = cleanup_stale_claims now st0 in
      bindR (list_active js st) (\<lambda>active.
        Inr (fold (catchup_one cw alerts run k now) (filter (is_missed now) active) st)))"

section \<open>The user's operations\<close>

definition pause_task :: "json_codec \<Rightarrow> string \<Rightarrow> cron_store \<Rightarrow> (bool \<times> cron_store) result" where
  "pause_task js tid st =
     bindR (store_get js tid st) (\<lambda>found.
       case found of
         None \<Rightarrow> Inr (False, st)
       | Some t \<Rightarrow>
           if ct_status t \<noteq> Active then Inr (False, st)
           else Inr (True, update_status tid Paused (Some None) None None st))"

definition resume_task ::
    "json_codec \<Rightarrow> clockwork \<Rightarrow> time \<Rightarrow> string \<Rightarrow> cron_store \<Rightarrow> (bool \<times> cron_store) result" where
  "resume_task js cw now tid st =
     bindR (store_get js tid st) (\<lambda>found.
       case found of
         None \<Rightarrow> Inr (False, st)
       | Some t \<Rightarrow>
           if ct_status t \<noteq> Paused then Inr (False, st)
           else bindR (compute_next_fire cw (ct_schedule t) now) (\<lambda>next_at.
             Inr (True, update_status tid Active (Some (Some next_at)) (Some 0) None st)))"

definition delete_task :: "string \<Rightarrow> cron_store \<Rightarrow> bool \<times> cron_store" where
  "delete_task tid st = store_remove tid st"

record task_request =
  rq_expr :: string
  rq_prompt :: string
  rq_description :: string
  rq_recurring :: "bool option"
  rq_durable :: bool
  rq_skills :: "string list"
  rq_model :: "string option"
  rq_delivery :: string
  rq_repeat :: repeat_config
  rq_session_id :: "string option"
  rq_project_dir :: "string option"

definition new_task :: "task_request \<Rightarrow> string \<Rightarrow> schedule \<Rightarrow> bool \<Rightarrow> time \<Rightarrow> time \<Rightarrow> cron_task" where
  "new_task rq tid s rec now next_at =
     \<lparr>ct_id = tid, ct_schedule = s, ct_prompt = rq_prompt rq, ct_description = rq_description rq,
      ct_recurring = rec, ct_durable = rq_durable rq, ct_skills = rq_skills rq, ct_model = rq_model rq,
      ct_timeout_seconds = 1800, ct_inactivity_timeout = 600,
      ct_delivery = \<lparr>dl_target = rq_delivery rq, dl_on_failure = True, dl_silent_pattern = []\<rparr>,
      ct_session_id = rq_session_id rq, ct_project_dir = rq_project_dir rq, ct_created_at = now,
      ct_last_fired_at = None, ct_next_fire_at = Some next_at, ct_status = Active, ct_fire_count = 0,
      ct_consecutive_failures = 0, ct_repeat = rq_repeat rq, ct_max_age_seconds = 604800,
      ct_failure_alert = None, ct_last_failure_alert_at = None, ct_running_by = None,
      ct_running_heartbeat = None\<rparr>"

text \<open>\<open>create_task\<close>, with the job limit, the id drawn and one reading of the clock.\<close>

definition create_task ::
    "json_codec \<Rightarrow> clockwork \<Rightarrow> nat \<Rightarrow> string \<Rightarrow> time \<Rightarrow> task_request \<Rightarrow> cron_store
       \<Rightarrow> (cron_task \<times> cron_store) result" where
  "create_task js cw max_jobs tid now rq st =
     bindR (list_active js st) (\<lambda>active.
     if max_jobs \<le> length active then Inl ''Maximum number of cron jobs reached''
     else bindR (parse_schedule cw now (rq_expr rq)) (\<lambda>s.
       let rec = (case rq_recurring rq of Some b \<Rightarrow> b | None \<Rightarrow> sch_kind s \<in> {Cron, Every}) in
       if sch_kind s = At \<and> rec
       then Inl ''Cannot use recurring=True with a one-time schedule (at/delay).''
       else bindR (if sch_kind s = At then Inr (run_at s) else compute_next_fire cw s now) (\<lambda>next_at.
         let t = new_task rq tid s rec now next_at in
         bindR (store_add js t st) (\<lambda>st'. Inr (t, st')))))"

end
