(* ===== verification/Cron_Protocol.thy ===== *)
theory Cron_Protocol
  imports Cron_Scheduler
begin

text \<open>
  Several kernels sharing one database: the claim protocol as an interface (the locale
  \<open>claim_table\<close>), its guarantee, the interpretation on the SQL statements of the scheduler, and the
  step relation of the scheduler's operations, which it simulates. The database part of the store
  is what is shared; tasks kept in memory belong to one kernel and take no part here.
\<close>

section \<open>The interface\<close>

type_synonym ('k, 'i, 's) lock_world = "'s \<times> time \<times> ('k \<times> 'i) set"

text \<open>
  Steps of any system that executes tasks under claims: a claim that succeeds starts an execution,
  an execution ends with writes that leave the claims alone and with a release, a heartbeat of its
  owner refreshes a claim, stale claims are cleaned up, and other writes leave the claims alone. Time passes only
  as long as every running execution gets its heartbeat before its claim is stale - what the
  executor's heartbeat every thirty seconds is there for.
\<close>

inductive lock_step ::
    "('k \<Rightarrow> 'i \<Rightarrow> time \<Rightarrow> 's \<Rightarrow> bool \<times> 's) \<Rightarrow> ('k \<Rightarrow> 'i \<Rightarrow> 's \<Rightarrow> 's) \<Rightarrow> ('k \<Rightarrow> 'i \<Rightarrow> time \<Rightarrow> 's \<Rightarrow> 's)
       \<Rightarrow> (time \<Rightarrow> 's \<Rightarrow> 's) \<Rightarrow> ('i \<Rightarrow> 's \<Rightarrow> ('k \<times> time) option) \<Rightarrow> time
       \<Rightarrow> ('k, 'i, 's) lock_world \<Rightarrow> ('k, 'i, 's) lock_world \<Rightarrow> bool"
  for claim release beat cleanup holder lease where
  lock_claim: "claim k i now s = (True, s') \<Longrightarrow>
     lock_step claim release beat cleanup holder lease (s, now, E) (s', now, insert (k, i) E)"
| lock_fail: "claim k i now s = (False, s') \<Longrightarrow>
     lock_step claim release beat cleanup holder lease (s, now, E) (s', now, E)"
| lock_finish: "(k, i) \<in> E \<Longrightarrow> (\<And>j. holder j s1 = holder j s) \<Longrightarrow>
     lock_step claim release beat cleanup holder lease (s, now, E) (release k i s1, now, E - {(k, i)})"
| lock_beat: "lock_step claim release beat cleanup holder lease (s, now, E) (beat k i now s, now, E)"
| lock_cleanup: "lock_step claim release beat cleanup holder lease (s, now, E) (cleanup now s, now, E)"
| lock_other: "(\<And>j. holder j s' = holder j s) \<Longrightarrow>
     lock_step claim release beat cleanup holder lease (s, now, E) (s', now, E)"
| lock_time: "now \<le> now' \<Longrightarrow>
     (\<And>k i h. (k, i) \<in> E \<Longrightarrow> holder i s = Some (k, h) \<Longrightarrow> now' \<le> h + lease) \<Longrightarrow>
     lock_step claim release beat cleanup holder lease (s, now, E) (s, now', E)"

definition lock_inv :: "('i \<Rightarrow> 's \<Rightarrow> ('k \<times> time) option) \<Rightarrow> time \<Rightarrow> ('k, 'i, 's) lock_world \<Rightarrow> bool" where
  "lock_inv holder lease w =
     (case w of (s, now, E) \<Rightarrow> \<forall>(k, i) \<in> E. \<exists>h. holder i s = Some (k, h) \<and> now \<le> h + lease)"

lemma lock_invD:
  "lock_inv holder lease (s, now, E) \<Longrightarrow> (k, i) \<in> E \<Longrightarrow>
     \<exists>h. holder i s = Some (k, h) \<and> now \<le> h + lease"
  by (auto simp: lock_inv_def)

lemma lock_invI:
  "(\<And>k i. (k, i) \<in> E \<Longrightarrow> \<exists>h. holder i s = Some (k, h) \<and> now \<le> h + lease) \<Longrightarrow>
     lock_inv holder lease (s, now, E)"
  by (auto simp: lock_inv_def)

locale claim_table =
  fixes claim :: "'k \<Rightarrow> 'i \<Rightarrow> time \<Rightarrow> 's \<Rightarrow> bool \<times> 's"
    and release :: "'k \<Rightarrow> 'i \<Rightarrow> 's \<Rightarrow> 's"
    and beat :: "'k \<Rightarrow> 'i \<Rightarrow> time \<Rightarrow> 's \<Rightarrow> 's"
    and cleanup :: "time \<Rightarrow> 's \<Rightarrow> 's"
    and holder :: "'i \<Rightarrow> 's \<Rightarrow> ('k \<times> time) option"
    and lease :: time
  assumes claim_wins: "claim k i now s = (True, s') \<Longrightarrow>
        holder i s = None \<and> holder j s' = (if j = i then Some (k, now) else holder j s)"
    and claim_loses: "claim k i now s = (False, s') \<Longrightarrow> holder j s' = holder j s"
    and release_holder: "holder j (release k i s) =
        (if j = i \<and> (\<exists>h. holder i s = Some (k, h)) then None else holder j s)"
    and beat_holder: "holder j (beat k i now s) =
        (if j = i \<and> (\<exists>h. holder i s = Some (k, h)) then Some (k, now) else holder j s)"
    and cleanup_holder: "holder j (cleanup now s) =
        (case holder j s of
           None \<Rightarrow> None
         | Some (k, h) \<Rightarrow> if h + lease < now then None else Some (k, h))"
    and lease_pos: "0 \<le> lease"
begin

lemma lock_step_inv:
  assumes "lock_step claim release beat cleanup holder lease w w'" "lock_inv holder lease w"
  shows "lock_inv holder lease w'"
  using assms
proof (induction rule: lock_step.induct)
  case (lock_claim k i now s s' E)
  show ?case
  proof (rule lock_invI)
    fix k' i' assume "(k', i') \<in> insert (k, i) E"
    then show "\<exists>h. holder i' s' = Some (k', h) \<and> now \<le> h + lease"
      using lock_invD [OF lock_claim.prems, of k' i'] claim_wins [OF lock_claim.hyps, of i'] lease_pos
      by (auto split: if_splits)
  qed
next
  case (lock_fail k i now s s' E)
  show ?case
    by (rule lock_invI) (simp add: claim_loses [OF lock_fail.hyps] lock_invD [OF lock_fail.prems])
next
  case (lock_finish k i E s1 s now)
  show ?case
  proof (rule lock_invI)
    fix k' i' assume mem: "(k', i') \<in> E - {(k, i)}"
    obtain h where h: "holder i' s = Some (k', h)" "now \<le> h + lease"
      using mem lock_invD [OF lock_finish.prems, of k' i'] by blast
    obtain h' where "holder i s = Some (k, h')"
      using lock_finish.hyps(1) lock_invD [OF lock_finish.prems, of k i] by blast
    with mem h have "i' \<noteq> i" by auto
    with h show "\<exists>h. holder i' (release k i s1) = Some (k', h) \<and> now \<le> h + lease"
      by (simp add: release_holder lock_finish.hyps(2))
  qed
next
  case (lock_beat s now E k i)
  show ?case
  proof (rule lock_invI)
    fix k' i' assume "(k', i') \<in> E"
    then obtain h where "holder i' s = Some (k', h)" "now \<le> h + lease"
      using lock_invD [OF lock_beat.prems] by blast
    then show "\<exists>h. holder i' (beat k i now s) = Some (k', h) \<and> now \<le> h + lease"
      using lease_pos by (auto simp: beat_holder)
  qed
next
  case (lock_cleanup s now E)
  show ?case
  proof (rule lock_invI)
    fix k' i' assume "(k', i') \<in> E"
    then obtain h where "holder i' s = Some (k', h)" "now \<le> h + lease"
      using lock_invD [OF lock_cleanup.prems] by blast
    then show "\<exists>h. holder i' (cleanup now s) = Some (k', h) \<and> now \<le> h + lease"
      by (auto simp: cleanup_holder)
  qed
next
  case (lock_other s' s now E)
  then show ?case by (simp add: lock_inv_def)
next
  case (lock_time now now' E s)
  show ?case
  proof (rule lock_invI)
    fix k' i' assume mem: "(k', i') \<in> E"
    then obtain h where "holder i' s = Some (k', h)"
      using lock_invD [OF lock_time.prems] by blast
    with lock_time.hyps(2) [OF mem] show "\<exists>h. holder i' s = Some (k', h) \<and> now' \<le> h + lease"
      by blast
  qed
qed

lemma lock_inv_exclusive:
  assumes "lock_inv holder lease (s, now, E)" "(k, i) \<in> E" "(k', i) \<in> E"
  shows "k = k'"
  using lock_invD [OF assms(1,2)] lock_invD [OF assms(1,3)] by auto

lemma claim_new:
  assumes "lock_inv holder lease (s, now, E)" "claim k i now s = (True, s')"
  shows "(k', i) \<notin> E"
  using lock_invD [OF assms(1), of k' i] claim_wins [OF assms(2), of i] by auto

end

section \<open>The database provides it\<close>

definition holder_of :: "string \<Rightarrow> cron_store \<Rightarrow> (string \<times> time) option" where
  "holder_of tid st =
     (case row_of tid st of
        None \<Rightarrow> None
      | Some r \<Rightarrow> (case r_running_by r of
          None \<Rightarrow> None
        | Some k \<Rightarrow> (case r_running_heartbeat r of None \<Rightarrow> None | Some h \<Rightarrow> Some (k, h))))"

text \<open>The primary key, and a claim always with its heartbeat.\<close>

definition rows_ok :: "cron_store \<Rightarrow> bool" where
  "rows_ok st \<longleftrightarrow> distinct (map r_id (st_rows st))
     \<and> (\<forall>r \<in> set (st_rows st). r_running_by r = None \<longleftrightarrow> r_running_heartbeat r = None)"

typedef cron_db = "{st. rows_ok st \<and> st_memory st = []}"
  morphisms db_store Db
  by (intro exI [of _ empty_cron_store]) (simp add: rows_ok_def empty_cron_store_def)

setup_lifting type_definition_cron_db

lemma rows_ok_update:
  assumes "rows_ok st" "\<And>r. r_id (f r) = r_id r"
    and "\<And>r. P r \<Longrightarrow> r_running_by r = None \<longleftrightarrow> r_running_heartbeat r = None \<Longrightarrow>
          r_running_by (f r) = None \<longleftrightarrow> r_running_heartbeat (f r) = None"
  shows "rows_ok (update_rows P f st)"
proof -
  have ids: "r_id \<circ> (\<lambda>r. if P r then f r else r) = r_id"
    using assms(2) by auto
  show ?thesis
    using assms(1,3) by (auto simp: rows_ok_def update_rows_def ids)
qed

lift_definition db_claim :: "string \<Rightarrow> string \<Rightarrow> time \<Rightarrow> cron_db \<Rightarrow> bool \<times> cron_db" is claim_row
  by (auto simp: claim_row_def intro: rows_ok_update)

lift_definition db_release :: "string \<Rightarrow> string \<Rightarrow> cron_db \<Rightarrow> cron_db" is release_task
  by (auto simp: release_task_def intro: rows_ok_update)

lift_definition db_beat :: "string \<Rightarrow> string \<Rightarrow> time \<Rightarrow> cron_db \<Rightarrow> cron_db" is heartbeat
  by (auto simp: heartbeat_def intro: rows_ok_update)

lift_definition db_cleanup :: "time \<Rightarrow> cron_db \<Rightarrow> cron_db" is cleanup_stale_claims
  by (auto simp: cleanup_stale_claims_def Let_def intro: rows_ok_update)

lift_definition db_holder :: "string \<Rightarrow> cron_db \<Rightarrow> (string \<times> time) option" is holder_of .

lemma rowcount_row_of:
  assumes "rows_ok st" "\<And>r. P r \<Longrightarrow> r_id r = tid"
  shows "0 < rowcount P st \<longleftrightarrow> (\<exists>r. row_of tid st = Some r \<and> P r)"
proof
  assume "0 < rowcount P st"
  then obtain r where r: "r \<in> set (st_rows st)" "P r"
    by (auto simp: rowcount_def filter_empty_conv)
  then obtain r' where r': "row_of tid st = Some r'"
    using assms(2) by (cases "row_of tid st") (auto simp: row_of_def find_None_iff)
  then have "r' \<in> set (st_rows st)" "r_id r' = tid"
    by (auto simp: row_of_def find_Some_iff)
  then have "r' = r"
    using r assms by (auto simp: rows_ok_def distinct_map inj_on_def)
  with r r' show "\<exists>r. row_of tid st = Some r \<and> P r" by blast
next
  assume "\<exists>r. row_of tid st = Some r \<and> P r"
  then show "0 < rowcount P st"
    by (auto simp: rowcount_def row_of_def find_Some_iff filter_empty_conv)
qed

lemma holder_claim:
  assumes "rows_ok st" "claim_row k i now st = (ok, st')"
  shows "(ok \<longrightarrow> holder_of i st = None \<and> holder_of j st' = (if j = i then Some (k, now) else holder_of j st))
    \<and> (\<not> ok \<longrightarrow> holder_of j st' = holder_of j st)"
proof -
  have ok: "ok \<longleftrightarrow> (\<exists>r. row_of i st = Some r \<and> claimable i r)"
    and st': "row_of j st' = map_option
        (\<lambda>r. if claimable i r then r\<lparr>r_running_by := Some k, r_running_heartbeat := Some now\<rparr> else r) (row_of j st)"
    using assms rowcount_row_of [OF assms(1), of "claimable i" i]
    by (auto simp: claim_row_def claimable_def)
  show ?thesis
  proof (cases "j = i")
    case True
    show ?thesis
    proof (cases "row_of i st")
      case None
      with ok st' True show ?thesis by (simp add: holder_of_def)
    next
      case (Some r)
      show ?thesis
      proof (cases "claimable i r")
        case True
        with ok st' Some \<open>j = i\<close> show ?thesis by (simp add: holder_of_def claimable_def)
      next
        case False
        with ok st' Some \<open>j = i\<close> show ?thesis by (simp add: holder_of_def)
      qed
    qed
  next
    case False
    have "row_of j st' = row_of j st"
      using st' row_of_id [of j st] False by (cases "row_of j st") (auto simp: claimable_def)
    moreover have "ok \<longrightarrow> holder_of i st = None"
      using ok by (auto simp: holder_of_def claimable_def)
    ultimately show ?thesis using False by (simp add: holder_of_def)
  qed
qed

lemma holder_release:
  "holder_of j (release_task k i st) =
     (if j = i \<and> (\<exists>h. holder_of i st = Some (k, h)) then None else holder_of j st)"
  using row_of_id [of j st]
  by (cases "row_of j st") (auto simp: holder_of_def release_task_def split: option.splits if_splits)

lemma holder_beat:
  assumes "rows_ok st"
  shows "holder_of j (heartbeat k i now st) =
     (if j = i \<and> (\<exists>h. holder_of i st = Some (k, h)) then Some (k, now) else holder_of j st)"
proof (cases "row_of j st")
  case (Some r)
  then have "r \<in> set (st_rows st)" by (auto simp: row_of_def find_Some_iff)
  then have "r_running_by r = None \<longleftrightarrow> r_running_heartbeat r = None"
    using assms by (simp add: rows_ok_def)
  then show ?thesis
    using Some row_of_id [of j st]
    by (auto simp: holder_of_def heartbeat_def split: option.splits if_splits)
qed (auto simp: holder_of_def heartbeat_def)

lemma holder_cleanup:
  "holder_of j (cleanup_stale_claims now st) =
     (case holder_of j st of
        None \<Rightarrow> None
      | Some (k, h) \<Rightarrow> if h + HEARTBEAT_STALE_THRESHOLD_S < now then None else Some (k, h))"
  by (cases "row_of j st")
    (auto simp: holder_of_def cleanup_stale_claims_def Let_def algebra_simps split: option.splits if_splits)

interpretation ct: claim_table db_claim db_release db_beat db_cleanup db_holder HEARTBEAT_STALE_THRESHOLD_S
proof
  fix k i now s s' j
  show "db_claim k i now s = (True, s') \<Longrightarrow>
      db_holder i s = None \<and> db_holder j s' = (if j = i then Some (k, now) else db_holder j s)"
    by transfer (use holder_claim in blast)
  show "db_claim k i now s = (False, s') \<Longrightarrow> db_holder j s' = db_holder j s"
    by transfer (use holder_claim in blast)
  show "db_holder j (db_release k i s) =
      (if j = i \<and> (\<exists>h. db_holder i s = Some (k, h)) then None else db_holder j s)"
    by transfer (rule holder_release)
  show "db_holder j (db_beat k i now s) =
      (if j = i \<and> (\<exists>h. db_holder i s = Some (k, h)) then Some (k, now) else db_holder j s)"
    by transfer (simp add: holder_beat)
  show "db_holder j (db_cleanup now s) =
      (case db_holder j s of None \<Rightarrow> None
       | Some (k, h) \<Rightarrow> if h + HEARTBEAT_STALE_THRESHOLD_S < now then None else Some (k, h))"
    by transfer (rule holder_cleanup)
qed (simp add: HEARTBEAT_STALE_THRESHOLD_S_def)

section \<open>The kernels on one database\<close>

text \<open>
  \<open>listed\<close> holds the due tasks a kernel has read and not yet tried to claim, copies that may be
  out of date by then; \<open>executing\<close> the tasks each kernel has claimed and is running.
\<close>

record kernels =
  db :: cron_store
  clock :: time
  listed :: "(string \<times> cron_task) set"
  executing :: "(string \<times> cron_task) set"

inductive cron_step :: "json_codec \<Rightarrow> clockwork \<Rightarrow> kernels \<Rightarrow> kernels \<Rightarrow> bool" for js cw where
  cs_list: "list_active js (db w) = Inr ts \<Longrightarrow>
     cron_step js cw w (w\<lparr>listed := listed w \<union> {k} \<times> {t \<in> set (due_tasks (clock w) ts). ct_durable t}\<rparr>)"
| cs_claim: "(k, t) \<in> listed w \<Longrightarrow> claim_tasks k (clock w) [t] (db w) = (c, st') \<Longrightarrow>
     cron_step js cw w (w\<lparr>db := st', listed := listed w - {(k, t)},
                          executing := executing w \<union> {k} \<times> set c\<rparr>)"
| cs_finish: "(k, t) \<in> executing w \<Longrightarrow>
     cron_step js cw w (w\<lparr>db := fire_task cw alerts k outcome (clock w) (clock w) t (db w),
                          executing := executing w - {(k, t)}\<rparr>)"
| cs_beat: "(k, t) \<in> executing w \<Longrightarrow>
     cron_step js cw w (w\<lparr>db := heartbeat k (ct_id t) (clock w) (db w)\<rparr>)"
| cs_cleanup: "cron_step js cw w (w\<lparr>db := cleanup_stale_claims (clock w) (db w)\<rparr>)"
| cs_expire: "list_active js (db w) = Inr ts \<Longrightarrow>
     cron_step js cw w (w\<lparr>db := expire_pass (clock w) ts (db w)\<rparr>)"
| cs_create: "create_task js cw n tid (clock w) rq (db w) = Inr (t, st') \<Longrightarrow> rq_durable rq \<Longrightarrow>
     cron_step js cw w (w\<lparr>db := st'\<rparr>)"
| cs_pause: "pause_task js tid (db w) = Inr (b, st') \<Longrightarrow> cron_step js cw w (w\<lparr>db := st'\<rparr>)"
| cs_resume: "resume_task js cw (clock w) tid (db w) = Inr (b, st') \<Longrightarrow> cron_step js cw w (w\<lparr>db := st'\<rparr>)"
| cs_delete: "delete_task tid (db w) = (b, st') \<Longrightarrow> cron_step js cw w (w\<lparr>db := st'\<rparr>)"
| cs_time: "clock w \<le> now' \<Longrightarrow>
     (\<And>k t h. (k, t) \<in> executing w \<Longrightarrow> holder_of (ct_id t) (db w) = Some (k, h) \<Longrightarrow>
        now' \<le> h + HEARTBEAT_STALE_THRESHOLD_S) \<Longrightarrow>
     cron_step js cw w (w\<lparr>clock := now'\<rparr>)"

inductive cron_reachable :: "json_codec \<Rightarrow> clockwork \<Rightarrow> kernels \<Rightarrow> bool" for js cw where
  cr_start: "cron_reachable js cw \<lparr>db = empty_cron_store, clock = now, listed = {}, executing = {}\<rparr>"
| cr_step: "cron_reachable js cw w \<Longrightarrow> cron_step js cw w w' \<Longrightarrow> cron_reachable js cw w'"

section \<open>Writes that leave the claims alone\<close>

definition keeps :: "cron_store \<Rightarrow> cron_store \<Rightarrow> bool" where
  "keeps st st' \<longleftrightarrow> (\<forall>j. holder_of j st' = holder_of j st)
     \<and> (rows_ok st \<longrightarrow> rows_ok st') \<and> st_memory st' = st_memory st"

lemma keeps_refl [simp]: "keeps st st"
  by (simp add: keeps_def)

lemma keeps_trans: "keeps st1 st2 \<Longrightarrow> keeps st2 st3 \<Longrightarrow> keeps st1 st3"
  by (simp add: keeps_def)

lemma keeps_update_rows:
  assumes "\<And>r. r_id (f r) = r_id r" "\<And>r. r_running_by (f r) = r_running_by r"
    and "\<And>r. r_running_heartbeat (f r) = r_running_heartbeat r"
  shows "keeps st (update_rows P f st)"
proof -
  have "holder_of j (update_rows P f st) = holder_of j st" for j
    using assms by (cases "row_of j st") (auto simp: holder_of_def split: option.splits)
  then show ?thesis
    using assms rows_ok_update [of st f P] by (simp add: keeps_def)
qed

lemma rows_ok_obj [simp]: "rows_ok (update_obj i f st) = rows_ok st"
  by (simp add: rows_ok_def update_obj_def split: option.splits)

lemma keeps_update_obj: "keeps st (update_obj i f st)"
  by (simp add: keeps_def holder_of_def)

lemma keeps_update_status [simp]: "keeps st (update_status tid s n f a st)"
  by (simp add: update_status_def keeps_update_obj keeps_update_rows)

lemma keeps_update_fired [simp]: "keeps st (update_fired tid x n st)"
  by (simp add: update_fired_def keeps_update_obj keeps_update_rows)

lemma keeps_record [simp]: "keeps st (record_execution e st)"
  by (simp add: record_execution_def add_execution_def keeps_def holder_of_def row_of_def rows_ok_def)

lemma keeps_alert: "keeps st st' \<Longrightarrow> keeps st (failure_alert alerts now n t st')"
  by (simp add: failure_alert_def Let_def) (blast intro: keeps_trans keeps_update_status)

lemma keeps_failure [simp]: "keeps st (handle_failure cw alerts err now t st)"
  by (simp add: handle_failure_def Let_def keeps_alert split: sum.splits)

lemma keeps_success: "after_success cw now t st = Inr st' \<Longrightarrow> keeps st st'"
  by (auto simp: after_success_def Let_def bindR_eq_Inr split: if_splits
      intro: keeps_trans [OF keeps_update_fired keeps_update_status])

lemma keeps_settle: "keeps st (settle cw alerts outcome now now_f t st)"
  by (auto simp: settle_def Let_def split: sum.splits option.splits
      intro: keeps_trans [OF keeps_record keeps_failure] keeps_trans [OF keeps_record keeps_success])

lemma keeps_expire: "keeps st (expire_pass now ts st)"
proof -
  have "keeps st st' \<Longrightarrow> keeps st (fold (\<lambda>t st. if outlived now t
      then update_status (ct_id t) Expired (Some None) None None st else st) ts st')" for st'
  proof (induction ts arbitrary: st')
    case (Cons a ts)
    show ?case
      using Cons.IH [OF Cons.prems] Cons.IH [OF keeps_trans [OF Cons.prems keeps_update_status]] by simp
  qed simp
  then show ?thesis by (simp add: expire_pass_def)
qed

lemma keeps_create:
  assumes "create_task js cw n tid now rq st = Inr (t, st')" "rq_durable rq" "st_memory st = []"
  shows "keeps st st'"
proof -
  obtain s r next_at where st': "store_add js (new_task rq tid s r now next_at) st = Inr st'"
    using assms(1) by (auto simp: create_task_def bindR_eq_Inr Let_def split: if_splits option.splits)
  let ?row = "task_to_row js (new_task rq tid s r now next_at)"
  have row: "r_id ?row = tid" "r_running_by ?row = None" "r_running_heartbeat ?row = None"
    by (simp_all add: task_to_row_def new_task_def Let_def)
  have new: "\<forall>r \<in> set (st_rows st). r_id r \<noteq> tid" and eq: "st' = st\<lparr>st_rows := st_rows st @ [?row]\<rparr>"
    using st' assms(2) by (auto simp: store_add_def new_task_def split: if_splits)
  have find: "find P (xs @ [x]) = (case find P xs of None \<Rightarrow> if P x then Some x else None | Some y \<Rightarrow> Some y)"
    for P xs and x :: cron_row
    by (induction xs) auto
  have "holder_of j st' = holder_of j st" for j
    using row by (auto simp: holder_of_def row_of_def eq find split: option.splits)
  moreover have "rows_ok st'" if "rows_ok st"
    using that new row by (auto simp: rows_ok_def eq)
  ultimately show ?thesis by (simp add: keeps_def eq)
qed

lemma keeps_pause: "pause_task js tid st = Inr (b, st') \<Longrightarrow> keeps st st'"
  by (auto simp: pause_task_def bindR_eq_Inr split: option.splits if_splits)

lemma keeps_resume: "resume_task js cw now tid st = Inr (b, st') \<Longrightarrow> keeps st st'"
  by (auto simp: resume_task_def bindR_eq_Inr split: option.splits if_splits)

lemma keeps_delete: "delete_task tid st = (b, st') \<Longrightarrow> st_memory st = [] \<Longrightarrow> keeps st st'"
  by (auto simp: delete_task_def store_remove_def keeps_update_rows)

section \<open>The scheduler's steps are steps of the protocol\<close>

definition execs :: "kernels \<Rightarrow> (string \<times> string) set" where
  "execs w = (\<lambda>(k, t). (k, ct_id t)) ` executing w"

abbreviation abs_world :: "kernels \<Rightarrow> (string, string, cron_db) lock_world" where
  "abs_world w \<equiv> (Db (db w), clock w, execs w)"

definition kernels_ok :: "kernels \<Rightarrow> bool" where
  "kernels_ok w \<longleftrightarrow> rows_ok (db w) \<and> st_memory (db w) = []
     \<and> (\<forall>(k, t) \<in> listed w \<union> executing w. ct_durable t)
     \<and> (\<forall>p \<in> executing w. \<forall>q \<in> executing w. ct_id (snd p) = ct_id (snd q) \<longrightarrow> p = q)
     \<and> lock_inv db_holder HEARTBEAT_STALE_THRESHOLD_S (abs_world w)"

abbreviation protocol_step where
  "protocol_step \<equiv> lock_step db_claim db_release db_beat db_cleanup db_holder HEARTBEAT_STALE_THRESHOLD_S"

lemma db_store_Db: "rows_ok st \<Longrightarrow> st_memory st = [] \<Longrightarrow> db_store (Db st) = st"
  by (simp add: Db_inverse)

lemma db_holder_Db: "rows_ok st \<Longrightarrow> st_memory st = [] \<Longrightarrow> db_holder i (Db st) = holder_of i st"
  by (simp add: db_holder.rep_eq db_store_Db)

lemma Db_cleanup: "rows_ok st \<Longrightarrow> st_memory st = [] \<Longrightarrow> Db (cleanup_stale_claims now st) = db_cleanup now (Db st)"
  by (simp add: db_cleanup_def db_store_Db)

lemma Db_beat: "rows_ok st \<Longrightarrow> st_memory st = [] \<Longrightarrow> Db (heartbeat k i now st) = db_beat k i now (Db st)"
  by (simp add: db_beat_def db_store_Db)

lemma Db_release: "rows_ok st \<Longrightarrow> st_memory st = [] \<Longrightarrow> Db (release_task k i st) = db_release k i (Db st)"
  by (simp add: db_release_def db_store_Db)

lemma Db_claim:
  "rows_ok st \<Longrightarrow> st_memory st = [] \<Longrightarrow> db_claim k i now (Db st) = map_prod id Db (claim_row k i now st)"
  by (simp add: db_claim_def db_store_Db)

lemma raw_ok:
  assumes "rows_ok st" "st_memory st = []"
  shows "rows_ok (cleanup_stale_claims now st) \<and> st_memory (cleanup_stale_claims now st) = []"
    and "rows_ok (heartbeat k i now st) \<and> st_memory (heartbeat k i now st) = []"
    and "rows_ok (release_task k i st) \<and> st_memory (release_task k i st) = []"
    and "rows_ok (snd (claim_row k i now st)) \<and> st_memory (snd (claim_row k i now st)) = []"
  using assms
  by (auto simp: cleanup_stale_claims_def heartbeat_def release_task_def claim_row_def Let_def
      intro!: rows_ok_update)

lemma keeps_other:
  assumes "keeps (db w) st'" "rows_ok (db w)" "st_memory (db w) = []"
  shows "protocol_step (abs_world w) (Db st', clock w, execs w)"
proof (rule lock_other)
  show "db_holder j (Db st') = db_holder j (Db (db w))" for j
    using assms by (simp add: keeps_def db_holder_Db)
qed

lemma kernels_ok_keeps:
  assumes "kernels_ok w" "keeps (db w) st'"
  shows "kernels_ok (w\<lparr>db := st'\<rparr>)"
proof -
  have db_ok: "rows_ok (db w)" "st_memory (db w) = []" using assms(1) by (simp_all add: kernels_ok_def)
  have "lock_inv db_holder HEARTBEAT_STALE_THRESHOLD_S (Db st', clock w, execs w)"
    using ct.lock_step_inv [OF keeps_other [OF assms(2) db_ok]] assms(1) by (simp add: kernels_ok_def)
  then show ?thesis
    using assms db_ok by (auto simp: kernels_ok_def keeps_def execs_def)
qed

lemma claim_one:
  "ct_durable t \<Longrightarrow> claim_tasks k now [t] st = (c, st') \<Longrightarrow>
     claim_row k (ct_id t) now st = (c \<noteq> [], st') \<and> (c \<noteq> [] \<longrightarrow> c = [mark_running k now t])"
  by (auto split: prod.splits if_splits)


text \<open>Every step of the scheduler is a step of the claim protocol, or only reads.\<close>

lemma claim_simulates:
  assumes ok: "kernels_ok w" and mem: "(k, t) \<in> listed w"
    and claim: "claim_tasks k (clock w) [t] (db w) = (c, st')"
  defines "w' \<equiv> w\<lparr>db := st', listed := listed w - {(k, t)}, executing := executing w \<union> {k} \<times> set c\<rparr>"
  shows "protocol_step (abs_world w) (abs_world w') \<and> kernels_ok w'"
proof -
  have db_ok: "rows_ok (db w)" "st_memory (db w) = []" and durable: "ct_durable t"
    and inv: "lock_inv db_holder HEARTBEAT_STALE_THRESHOLD_S (abs_world w)"
    using ok mem by (auto simp: kernels_ok_def)
  have row: "claim_row k (ct_id t) (clock w) (db w) = (c \<noteq> [], st')"
    and c: "c \<noteq> [] \<Longrightarrow> c = [mark_running k (clock w) t]"
    using claim_one [OF durable claim] by auto
  have db_claim: "db_claim k (ct_id t) (clock w) (Db (db w)) = (c \<noteq> [], Db st')"
    by (simp add: Db_claim [OF db_ok] row)
  have st'_ok: "rows_ok st'" "st_memory st' = []"
    using raw_ok(4) [OF db_ok, of k "ct_id t" "clock w"] by (simp_all add: row)
  have step: "protocol_step (abs_world w) (abs_world w')"
  proof (cases "c = []")
    case True
    then show ?thesis using db_claim by (simp add: w'_def execs_def lock_fail)
  next
    case False
    then have "execs w' = insert (k, ct_id t) (execs w)"
      using c by (auto simp: w'_def execs_def mark_running_def)
    then show ?thesis using db_claim False by (simp add: w'_def lock_claim)
  qed
  have fresh: "c \<noteq> [] \<Longrightarrow> \<forall>p \<in> executing w. ct_id (snd p) \<noteq> ct_id t"
    using ct.claim_new [OF inv, of k "ct_id t" "Db st'"] db_claim
    by (force simp: execs_def image_iff)
  have "kernels_ok w'"
    unfolding kernels_ok_def
  proof (intro conjI)
    show "lock_inv db_holder HEARTBEAT_STALE_THRESHOLD_S (abs_world w')"
      using ct.lock_step_inv [OF step inv] .
    show "\<forall>p \<in> executing w'. \<forall>q \<in> executing w'. ct_id (snd p) = ct_id (snd q) \<longrightarrow> p = q"
      using ok fresh c by (cases "c = []") (fastforce simp: w'_def kernels_ok_def mark_running_def)+
    show "\<forall>(k, t) \<in> listed w' \<union> executing w'. ct_durable t"
      using ok durable c by (cases "c = []") (auto simp: w'_def kernels_ok_def mark_running_def)
  qed (simp_all add: w'_def st'_ok)
  with step show ?thesis by blast
qed

lemma execs_remove:
  assumes "\<forall>p \<in> A. \<forall>q \<in> A. ct_id (snd p) = ct_id (snd q) \<longrightarrow> p = q" "(k, t) \<in> A"
  shows "(\<lambda>(k, t). (k, ct_id t)) ` (A - {(k, t)}) = (\<lambda>(k, t). (k, ct_id t)) ` A - {(k, ct_id t)}"
proof -
  have inj: "inj_on (\<lambda>(k, t). (k, ct_id t)) A"
  proof (rule inj_onI)
    fix p q assume pq: "p \<in> A" "q \<in> A" "(case p of (k, t) \<Rightarrow> (k, ct_id t)) = (case q of (k, t) \<Rightarrow> (k, ct_id t))"
    then have "ct_id (snd p) = ct_id (snd q)" by (simp add: case_prod_beta)
    then show "p = q" using bspec [OF bspec [OF assms(1) pq(1)] pq(2)] by blast
  qed
  show ?thesis
    using inj_on_image_set_diff [OF inj, of A "{(k, t)}"] assms(2) by simp
qed

lemma finish_simulates:
  fixes cw alerts outcome
  assumes ok: "kernels_ok w" and mem: "(k, t) \<in> executing w"
  defines "w' \<equiv> w\<lparr>db := fire_task cw alerts k outcome (clock w) (clock w) t (db w),
                   executing := executing w - {(k, t)}\<rparr>"
  shows "protocol_step (abs_world w) (abs_world w') \<and> kernels_ok w'"
proof -
  let ?st = "settle cw alerts outcome (clock w) (clock w) t (db w)"
  have db_ok: "rows_ok (db w)" "st_memory (db w) = []"
    and inv: "lock_inv db_holder HEARTBEAT_STALE_THRESHOLD_S (abs_world w)"
    using ok by (auto simp: kernels_ok_def)
  have keeps: "keeps (db w) ?st" by (rule keeps_settle)
  then have st_ok: "rows_ok ?st" "st_memory ?st = []" using db_ok by (auto simp: keeps_def)
  have release: "Db (fire_task cw alerts k outcome (clock w) (clock w) t (db w)) = db_release k (ct_id t) (Db ?st)"
    by (simp add: fire_task_def Db_release [OF st_ok])
  have uniq: "\<forall>p \<in> executing w. \<forall>q \<in> executing w. ct_id (snd p) = ct_id (snd q) \<longrightarrow> p = q"
    using ok by (simp add: kernels_ok_def)
  have "execs w' = execs w - {(k, ct_id t)}"
    unfolding w'_def execs_def using execs_remove [OF uniq mem] by simp
  moreover have "(k, ct_id t) \<in> execs w" using mem by (force simp: execs_def)
  moreover have "\<And>j. db_holder j (Db ?st) = db_holder j (Db (db w))"
    using keeps db_ok st_ok by (simp add: keeps_def db_holder_Db)
  ultimately have step: "protocol_step (abs_world w) (abs_world w')"
    using lock_finish [of k "ct_id t" "execs w" db_holder "Db ?st" "Db (db w)"] release
    by (simp add: w'_def)
  have "kernels_ok w'"
    unfolding kernels_ok_def
  proof (intro conjI)
    show "lock_inv db_holder HEARTBEAT_STALE_THRESHOLD_S (abs_world w')"
      using ct.lock_step_inv [OF step inv] .
    show "rows_ok (db w')" "st_memory (db w') = []"
      using raw_ok(3) [OF st_ok, of k "ct_id t"] by (simp_all add: w'_def fire_task_def)
    show "\<forall>p \<in> executing w'. \<forall>q \<in> executing w'. ct_id (snd p) = ct_id (snd q) \<longrightarrow> p = q"
      using ok by (auto simp: w'_def kernels_ok_def)
    show "\<forall>(k, t) \<in> listed w' \<union> executing w'. ct_durable t"
      using ok by (auto simp: w'_def kernels_ok_def)
  qed
  with step show ?thesis by blast
qed

lemma plain_simulates:
  assumes ok: "kernels_ok w" and st'_ok: "rows_ok st'" "st_memory st' = []"
    and step: "protocol_step (abs_world w) (Db st', clock w, execs w)"
  shows "kernels_ok (w\<lparr>db := st'\<rparr>)"
  using ok st'_ok ct.lock_step_inv [OF step] by (auto simp: kernels_ok_def execs_def)

lemma keeps_simulates:
  assumes "kernels_ok w" "keeps (db w) st'"
  shows "protocol_step (abs_world w) (abs_world (w\<lparr>db := st'\<rparr>)) \<and> kernels_ok (w\<lparr>db := st'\<rparr>)"
proof -
  have "protocol_step (abs_world w) (Db st', clock w, execs w)"
    using keeps_other [OF assms(2)] assms(1) by (simp add: kernels_ok_def)
  moreover have "execs (w\<lparr>db := st'\<rparr>) = execs w" by (simp add: execs_def)
  ultimately show ?thesis using kernels_ok_keeps [OF assms] by simp
qed

lemma cron_step_ok:
  assumes "cron_step js cw w w'" "kernels_ok w"
  shows "protocol_step (abs_world w) (abs_world w') \<and> kernels_ok w'"
  using assms
proof (induction rule: cron_step.induct)
  case (cs_list w ts k)
  have "protocol_step (abs_world w) (abs_world w)" by (rule lock_other) simp
  with cs_list.prems show ?case by (auto simp: kernels_ok_def execs_def)
next
  case (cs_claim k t w c st')
  then show ?case using claim_simulates by blast
next
  case (cs_finish k t w alerts outcome)
  then show ?case using finish_simulates by blast
next
  case (cs_beat k t w)
  then have db_ok: "rows_ok (db w)" "st_memory (db w) = []" by (auto simp: kernels_ok_def)
  have step: "protocol_step (abs_world w) (Db (heartbeat k (ct_id t) (clock w) (db w)), clock w, execs w)"
    unfolding Db_beat [OF db_ok] by (rule lock_beat)
  with plain_simulates [OF cs_beat.prems _ _ step] raw_ok(2) [OF db_ok] show ?case
    by (simp add: execs_def)
next
  case (cs_cleanup w)
  then have db_ok: "rows_ok (db w)" "st_memory (db w) = []" by (auto simp: kernels_ok_def)
  have step: "protocol_step (abs_world w) (Db (cleanup_stale_claims (clock w) (db w)), clock w, execs w)"
    unfolding Db_cleanup [OF db_ok] by (rule lock_cleanup)
  with plain_simulates [OF cs_cleanup.prems _ _ step] raw_ok(1) [OF db_ok] show ?case
    by (simp add: execs_def)
next
  case (cs_time w now')
  then have db_ok: "rows_ok (db w)" "st_memory (db w) = []"
    and inv: "lock_inv db_holder HEARTBEAT_STALE_THRESHOLD_S (abs_world w)" by (auto simp: kernels_ok_def)
  have step: "protocol_step (abs_world w) (Db (db w), now', execs w)"
    using cs_time.hyps by (intro lock_time) (auto simp: execs_def db_holder_Db [OF db_ok])
  moreover have "abs_world (w\<lparr>clock := now'\<rparr>) = (Db (db w), now', execs w)"
    by (simp add: execs_def)
  ultimately show ?case
    using ct.lock_step_inv [OF step inv] cs_time.prems by (auto simp: kernels_ok_def)
next
  case (cs_expire w ts)
  then show ?case using keeps_simulates keeps_expire by blast
next
  case (cs_create n tid w rq t st')
  then have "keeps (db w) st'"
    using keeps_create by (simp add: kernels_ok_def)
  with cs_create.prems show ?case using keeps_simulates by blast
next
  case (cs_pause tid w b st')
  then show ?case using keeps_simulates keeps_pause by blast
next
  case (cs_resume w tid b st')
  then show ?case using keeps_simulates keeps_resume by blast
next
  case (cs_delete tid w b st')
  then have "keeps (db w) st'"
    using keeps_delete by (simp add: kernels_ok_def)
  with cs_delete.prems show ?case using keeps_simulates by blast
qed

lemma cron_reachable_ok: "cron_reachable js cw w \<Longrightarrow> kernels_ok w"
proof (induction rule: cron_reachable.induct)
  case (cr_start now)
  then show ?case
    by (simp add: kernels_ok_def rows_ok_def empty_cron_store_def lock_inv_def execs_def)
next
  case (cr_step w w')
  then show ?case using cron_step_ok by blast
qed

end
