(* ===== verification/Schedule_Properties.thy ===== *)
theory Schedule_Properties
  imports Cron_Protocol
begin

text \<open>
  The properties of the cron subsystem (\<open>schedule/\<close>): the store, the claim protocol between
  kernels, what an execution leaves behind, and repeat limits.
\<close>

section \<open>A concrete list codec for the witnesses\<close>

text \<open>Every element in brackets, with brackets and backslashes escaped.\<close>

fun wrap_chars :: "string \<Rightarrow> string" where
  "wrap_chars [] = '']''"
| "wrap_chars (c # cs) = CHR ''-'' # c # wrap_chars cs"

fun unwrap_chars :: "string \<Rightarrow> (string \<times> string) option" where
  "unwrap_chars (d # c # cs) =
     (if d = CHR ''-'' then map_option (\<lambda>(s, rest). (c # s, rest)) (unwrap_chars cs)
      else if d = CHR '']'' then Some ([], c # cs) else None)"
| "unwrap_chars [d] = (if d = CHR '']'' then Some ([], []) else None)"
| "unwrap_chars [] = None"

fun unwrap_list :: "nat \<Rightarrow> string \<Rightarrow> string list result" where
  "unwrap_list 0 s = Inr []"
| "unwrap_list (Suc n) s =
     (if s = [] then Inr []
      else case unwrap_chars s of
        None \<Rightarrow> Inl ''JSONDecodeError''
      | Some (x, rest) \<Rightarrow> mapR (\<lambda>xs. x # xs) (unwrap_list n rest))"

definition sample_codec :: json_codec where
  "sample_codec = \<lparr>dump_list = (\<lambda>xs. concat (map wrap_chars xs)),
     load_list = (\<lambda>s. unwrap_list (length s) s)\<rparr>"

lemma unwrap_wrap: "unwrap_chars (wrap_chars s @ rest) = Some (s, rest)"
  by (induction s) (cases rest; simp)+

lemma unwrap_list_wrap:
  "length xs \<le> n \<Longrightarrow> unwrap_list n (concat (map wrap_chars xs)) = Inr xs"
proof (induction n arbitrary: xs)
  case (Suc n)
  show ?case
  proof (cases xs)
    case (Cons x ys)
    have "wrap_chars x @ concat (map wrap_chars ys) \<noteq> []" by (cases x) simp_all
    with Suc Cons show ?thesis by (simp add: unwrap_wrap del: append_is_Nil_conv)
  qed simp
qed simp

lemma sample_json [simp]: "json_ok sample_codec"
proof -
  have pos: "1 \<le> length (wrap_chars x)" for x by (cases x) simp_all
  have "length xs \<le> length (concat (map wrap_chars xs))" for xs
  proof (induction xs)
    case (Cons x xs)
    with pos [of x] show ?case by simp
  qed simp
  then show ?thesis by (simp add: json_ok_def sample_codec_def unwrap_list_wrap)
qed

definition sample_clockwork :: clockwork where
  "sample_clockwork = \<lparr>cw_iso = (\<lambda>_. None), cw_cron_valid = (\<lambda>_. False), cw_cron_next = (\<lambda>_ _. Inl ''ValueError'')\<rparr>"

definition sample_task :: "bool \<Rightarrow> bool \<Rightarrow> cron_task" where
  "sample_task recurring durable =
     \<lparr>ct_id = ''t'', ct_schedule = mk_schedule (if recurring then Every else At) [] 60 0, ct_prompt = ''p'',
      ct_description = [], ct_recurring = recurring, ct_durable = durable, ct_skills = [''a'', []],
      ct_model = None, ct_timeout_seconds = 1800, ct_inactivity_timeout = 600,
      ct_delivery = \<lparr>dl_target = ''session'', dl_on_failure = True, dl_silent_pattern = []\<rparr>,
      ct_session_id = None, ct_project_dir = None, ct_created_at = 0, ct_last_fired_at = None,
      ct_next_fire_at = Some 10, ct_status = Active, ct_fire_count = 0, ct_consecutive_failures = 0,
      ct_repeat = \<lparr>max_count = Some 2, max_duration_seconds = None, until = None\<rparr>,
      ct_max_age_seconds = 604800,
      ct_failure_alert = Some \<lparr>fa_after = 1, fa_cooldown_seconds = 0, fa_target = ''session''\<rparr>,
      ct_last_failure_alert_at = None, ct_running_by = None, ct_running_heartbeat = None\<rparr>"

section \<open>The store\<close>

text \<open>
  What is stored is read back: after \<open>add\<close>, \<open>get\<close> returns the same task - every field of it,
  through the row for a durable task - except that an alert configuration with a zero cooldown
  or an empty target comes back with the defaults (one hour, the session) in their place.
\<close>

lemma add_get_roundtrip:
  assumes "json_ok js" "store_add js t st = Inr st'" "ct_id t \<notin> set (st_memory st)"
  shows "store_get js (ct_id t) st' = Inr (Some
    (if ct_durable t then t\<lparr>ct_failure_alert := map_option stored_alert (ct_failure_alert t)\<rparr> else t))"
proof (cases "ct_durable t")
  case True
  then have new: "\<forall>r \<in> set (st_rows st). r_id r \<noteq> ct_id t"
    and st': "st' = st\<lparr>st_rows := st_rows st @ [task_to_row js t]\<rparr>"
    using assms(2) by (auto simp: store_add_def split: if_splits)
  have "find (\<lambda>r. r_id r = ct_id t) (xs @ [task_to_row js t]) = Some (task_to_row js t)"
    if "\<forall>r \<in> set xs. r_id r \<noteq> ct_id t" for xs
    using that by (induction xs) (simp_all add: task_to_row_def Let_def)
  then show ?thesis
    using True assms new by (simp add: store_get_def st' row_roundtrip)
next
  case False
  then show ?thesis
    using assms by (auto simp: store_add_def store_get_def)
qed

lemma add_get_roundtrip_witness:
  "\<exists>st'. store_get sample_codec ''t'' st' = Inr (Some ((sample_task True True)\<lparr>ct_failure_alert :=
     Some \<lparr>fa_after = 1, fa_cooldown_seconds = 3600, fa_target = ''session''\<rparr>\<rparr>))"
proof -
  have "store_add sample_codec (sample_task True True) empty_cron_store =
      Inr (empty_cron_store\<lparr>st_rows := [task_to_row sample_codec (sample_task True True)]\<rparr>)"
    by (simp add: store_add_def sample_task_def empty_cron_store_def)
  from add_get_roundtrip [OF sample_json this] show ?thesis
    by (intro exI) (simp add: empty_cron_store_def sample_task_def stored_alert_def)
qed

section \<open>Kernels sharing a database\<close>


section \<open>Reading one row\<close>

lemma settle_success:
  assumes "ct_durable t" "ct_id t \<notin> set (st_memory st)" "row_of (ct_id t) st = Some r"
    and "ct_recurring t" "compute_next_fire cw (ct_schedule t) now = Inr n"
    and "ex_status ex \<in> {Exec_Completed, Exec_Running}"
  shows "row_of (ct_id t) (settle cw alerts (Inr ex) now now_f t st) = Some
    (let r' = r\<lparr>r_last_fired_at := Some now, r_next_fire_at := Some n,
                r_fire_count := r_fire_count r + 1, r_consecutive_failures := 0\<rparr>
     in if is_exhausted (ct_repeat t) (ct_fire_count t + 1) (ct_created_at t) now
        then r'\<lparr>r_status := status_value Completed, r_next_fire_at := None\<rparr> else r')"
proof -
  let ?st1 = "record_execution ex st"
  have st1: "row_of (ct_id t) ?st1 = Some r" "st_memory ?st1 = st_memory st"
    using assms(3) by (simp_all add: record_execution_def add_execution_def row_of_def)
  have "r_id r = ct_id t" using assms(3) by (rule row_of_id)
  then show ?thesis
    using assms st1
    by (auto simp: settle_def Let_def after_success_def current_def update_fired_def update_status_def)
qed


lemma row_of_release:
  "row_of i (release_task k i st) = map_option (\<lambda>r. if r_running_by r = Some k
     then r\<lparr>r_running_by := None, r_running_heartbeat := None\<rparr> else r) (row_of i st)"
  using row_of_id [of i st] by (cases "row_of i st") (simp_all add: release_task_def)

lemma row_of_claim:
  assumes "row_of i st = Some r" "r_running_by r = None" "r_status r = status_value Active"
  shows "row_of i (snd (claim_row k i now st)) =
    Some (r\<lparr>r_running_by := Some k, r_running_heartbeat := Some now\<rparr>)"
  using assms row_of_id [OF assms(1)] by (simp add: claim_row_def claimable_def)

lemma claim_succeeds:
  assumes "rows_ok st" "row_of (ct_id t) st = Some r" "r_running_by r = None"
    "r_status r = status_value Active" "ct_durable t"
  shows "claim_tasks k now [t] st = ([mark_running k now t], snd (claim_row k (ct_id t) now st))"
proof -
  have "0 < rowcount (claimable (ct_id t)) st"
    using assms row_of_id [OF assms(2)] rowcount_row_of [OF assms(1), of "claimable (ct_id t)" "ct_id t"]
    by (auto simp: claimable_def)
  then show ?thesis using assms(5) by (simp add: claim_row_def)
qed

text \<open>
  The claim does not recheck the fire time: a recurring task that one kernel claimed, ran
  successfully and released, and whose row already shows the next fire time, is claimed and fired
  again by any kernel that listed it as due before - the duplicate fire the protocol is there to
  prevent.
\<close>

lemma stale_listing_fires_twice:
  assumes "rows_ok st" "st_memory st = []" "row_of (ct_id t) st = Some r"
    and "r_running_by r = None" "r_status r = status_value Active"
    and "ct_durable t" "ct_recurring t" "compute_next_fire cw (ct_schedule t) now = Inr n"
    and "\<not> is_exhausted (ct_repeat t) (ct_fire_count t + 1) (ct_created_at t) now"
    and "ex_status ex = Exec_Completed"
    and "claim_tasks k1 now [t] st = (c1, st1)"
    and "st2 = fire_task cw alerts k1 (Inr ex) now now (mark_running k1 now t) st1"
  shows "c1 = [mark_running k1 now t]
    \<and> (\<exists>r2. row_of (ct_id t) st2 = Some r2 \<and> r_next_fire_at r2 = Some n \<and> r_fire_count r2 = r_fire_count r + 1)
    \<and> fst (claim_tasks k2 now' [t] st2) = [mark_running k2 now' t]"
proof -
  let ?t1 = "mark_running k1 now t"
  have st1: "c1 = [?t1]" "st1 = snd (claim_row k1 (ct_id t) now st)"
    using claim_succeeds [OF assms(1,3-6), of k1 now] assms(11) by simp_all
  have ok1: "rows_ok st1" "st_memory st1 = []"
    using raw_ok(4) [OF assms(1,2), of k1 "ct_id t" now] st1(2) by simp_all
  let ?r1 = "r\<lparr>r_running_by := Some k1, r_running_heartbeat := Some now\<rparr>"
  have row1: "row_of (ct_id t) st1 = Some ?r1"
    using row_of_claim [OF assms(3-5)] st1(2) by simp
  have t1: "ct_id ?t1 = ct_id t" "ct_durable ?t1" "ct_recurring ?t1" "ct_schedule ?t1 = ct_schedule t"
    "ct_repeat ?t1 = ct_repeat t" "ct_fire_count ?t1 = ct_fire_count t" "ct_created_at ?t1 = ct_created_at t"
    using assms(6,7) by (simp_all add: mark_running_def)
  let ?s = "settle cw alerts (Inr ex) now now ?t1 st1"
  let ?r2 = "?r1\<lparr>r_last_fired_at := Some now, r_next_fire_at := Some n,
     r_fire_count := r_fire_count r + 1, r_consecutive_failures := 0\<rparr>"
  have settled: "row_of (ct_id t) ?s = Some ?r2"
    using settle_success [of ?t1 st1 ?r1 cw now n ex alerts now] t1 ok1 row1 assms(7-10)
    by (simp add: Let_def)
  let ?r3 = "?r2\<lparr>r_running_by := None, r_running_heartbeat := None\<rparr>"
  have row2: "row_of (ct_id t) st2 = Some ?r3"
    unfolding assms(12) fire_task_def t1(1) using settled by (simp add: row_of_release)
  have "rows_ok ?s" "st_memory ?s = []"
    using keeps_settle [of st1 cw alerts "Inr ex" now now ?t1] ok1 by (simp_all add: keeps_def)
  then have "rows_ok st2"
    unfolding assms(12) fire_task_def using raw_ok(3) by blast
  then have "claim_tasks k2 now' [t] st2 = ([mark_running k2 now' t], snd (claim_row k2 (ct_id t) now' st2))"
    using claim_succeeds [OF _ row2] assms(5,6) by simp
  then show ?thesis using st1(1) row2 by simp
qed

definition sample_store :: "cron_task \<Rightarrow> cron_store" where
  "sample_store t = empty_cron_store\<lparr>st_rows := [task_to_row sample_codec t]\<rparr>"

lemma sample_store_ok [simp]:
  "rows_ok (sample_store (sample_task rec d))" "st_memory (sample_store t) = []"
  "row_of (ct_id t) (sample_store t) = Some (task_to_row sample_codec t)"
  by (simp_all add: sample_store_def rows_ok_def task_to_row_def Let_def sample_task_def empty_cron_store_def
      row_of_def)

definition sample_execution :: "exec_status \<Rightarrow> cron_execution" where
  "sample_execution s = \<lparr>ex_id = ''e'', ex_task_id = ''t'', ex_session_id = ''x'', ex_started_at = 10,
     ex_ended_at = None, ex_duration_ms = None, ex_status = s, ex_error = None, ex_stop_reason = None,
     ex_summary = None, ex_delivery_status = None, ex_delivery_error = None\<rparr>"

lemma stale_listing_fires_twice_witness:
  "fst (claim_tasks ''k2'' 11 [sample_task True True]
     (fire_task sample_clockwork False ''k1'' (Inr (sample_execution Exec_Completed)) 10 10
        (mark_running ''k1'' 10 (sample_task True True))
        (snd (claim_tasks ''k1'' 10 [sample_task True True] (sample_store (sample_task True True)))))) =
   [mark_running ''k2'' 11 (sample_task True True)]"
proof -
  obtain c1 st1 where claim:
    "claim_tasks ''k1'' 10 [sample_task True True] (sample_store (sample_task True True)) = (c1, st1)"
    by fastforce
  have "fst (claim_tasks ''k2'' 11 [sample_task True True]
     (fire_task sample_clockwork False ''k1'' (Inr (sample_execution Exec_Completed)) 10 10
        (mark_running ''k1'' 10 (sample_task True True)) st1)) = [mark_running ''k2'' 11 (sample_task True True)]"
    by (rule stale_listing_fires_twice [where n = 70, THEN conjunct2, THEN conjunct2,
          OF sample_store_ok(1,2,3) _ _ _ _ _ _ _ claim refl])
       (simp_all add: sample_task_def task_to_row_def mk_schedule_def compute_next_fire_def
          is_exhausted_def sample_execution_def)
  then show ?thesis by (simp only: claim snd_conv)
qed

definition sample_request :: task_request where
  "sample_request = \<lparr>rq_expr = ''every 1m'', rq_prompt = ''p'', rq_description = [], rq_recurring = None,
     rq_durable = True, rq_skills = [], rq_model = None, rq_delivery = ''session'',
     rq_repeat = \<lparr>max_count = None, max_duration_seconds = None, until = None\<rparr>,
     rq_session_id = None, rq_project_dir = None\<rparr>"

definition sample_created :: cron_task where
  "sample_created = new_task sample_request ''t'' (mk_schedule Every [] 60 0) True 0 60"

lemma sample_parse: "parse_schedule sample_clockwork 0 ''every 1m'' = Inr (mk_schedule Every [] 60 0)"
proof -
  have "after_every (strip ''every 1m'') = Some ''1m''" "strip ''every 1m'' \<noteq> []" by code_simp+
  moreover have "parse_amount ''1m'' = Some 60"
    by (simp add: parse_amount_def Let_def digit_char_def unit_multiplier_def lower_char_def
        decimal_value_def digits_value_def py_space_def)
  ultimately show ?thesis by (simp add: parse_schedule_def Let_def)
qed

lemma sample_create:
  "create_task sample_codec sample_clockwork 5 ''t'' 0 sample_request empty_cron_store =
     Inr (sample_created, sample_store sample_created)"
  by (simp add: create_task_def list_active_def empty_cron_store_def memory_tasks_def map_filter_simps
      sample_request_def sample_parse compute_next_fire_def mk_schedule_def store_add_def new_task_def
      sample_store_def sample_created_def Let_def)

lemma sample_listed:
  "list_active sample_codec (sample_store sample_created) = Inr [sample_created]"
  using row_roundtrip [OF sample_json, of sample_created]
  by (simp add: list_active_def sample_store_def empty_cron_store_def memory_tasks_def map_filter_simps
      sample_created_def new_task_def task_to_row_def Let_def)


section \<open>Writes from a stale copy\<close>

lemma row_of_update_status:
  assumes "row_of i st = Some r" "i \<notin> set (st_memory st)"
  shows "row_of i (update_status i s nf cf al st) = Some (r\<lparr>r_status := status_value s,
    r_next_fire_at := (case nf of None \<Rightarrow> r_next_fire_at r | Some n \<Rightarrow> n),
    r_consecutive_failures := (case cf of None \<Rightarrow> r_consecutive_failures r | Some k \<Rightarrow> k),
    r_last_failure_alert_at := (case al of None \<Rightarrow> r_last_failure_alert_at r | Some a \<Rightarrow> a)\<rparr>)"
  using assms row_of_id [OF assms(1)] by (simp add: update_status_def)

text \<open>
  A failure alert undoes the pause: when a durable one-shot task fails for good and an alert
  is sent, the write that records the alert also writes back the status the task had when it was
  listed, so the row ends active with no fire time - a task that is never due again and that
  \<open>resume\<close> refuses, because it is not paused.
\<close>

lemma alert_undoes_pause:
  assumes "ct_durable t" "\<not> ct_recurring t" "ct_status t = Active" "\<not> is_transient_error err"
    and "ct_id t \<notin> set (st_memory st)" "row_of (ct_id t) st = Some r"
    and "alert_due now (ct_consecutive_failures t + 1) t"
  shows "\<exists>r'. row_of (ct_id t) (handle_failure cw True err now t st) = Some r'
    \<and> r_status r' = status_value Active \<and> r_next_fire_at r' = None
    \<and> (json_ok js \<longrightarrow> (\<forall>b st'. resume_task js cw now' (ct_id t) (handle_failure cw True err now t st)
          = Inr (b, st') \<longrightarrow> \<not> b))"
proof -
  let ?k = "ct_consecutive_failures t + 1"
  let ?st1 = "update_status (ct_id t) Paused (Some None) (Some ?k) None st"
  let ?st2 = "update_status (ct_id t) Active None None (Some (Some now)) ?st1"
  have eq: "handle_failure cw True err now t st = ?st2"
    using assms by (simp add: handle_failure_def failure_alert_def current_def Let_def)
  have mem: "st_memory ?st1 = st_memory st"
    using keeps_update_status [of st "ct_id t" Paused] by (simp add: keeps_def)
  have mem2: "st_memory ?st2 = st_memory st"
    using keeps_update_status [of ?st1 "ct_id t" Active] mem by (simp add: keeps_def)
  have row1: "row_of (ct_id t) ?st1 = Some (r\<lparr>r_status := status_value Paused, r_next_fire_at := None,
      r_consecutive_failures := ?k\<rparr>)"
    using row_of_update_status [OF assms(6,5)] by simp
  have row2: "row_of (ct_id t) ?st2 = Some (r\<lparr>r_status := status_value Active, r_next_fire_at := None,
      r_consecutive_failures := ?k, r_last_failure_alert_at := Some now\<rparr>)"
    using row_of_update_status [OF row1] assms(5) mem by simp
  have "resume_task js cw now' (ct_id t) ?st2 = Inr (b, st') \<Longrightarrow> \<not> b" for b st'
    using row2 assms(5) mem2
    by (auto simp: resume_task_def store_get_def row_of_def bindR_eq_Inr mapR_eq_Inr row_to_task_def
        status_of_def split: if_splits)
  then show ?thesis unfolding eq using row2 by auto
qed

lemma alert_undoes_pause_witness:
  "\<exists>r'. row_of ''t'' (handle_failure sample_clockwork True ''forbidden'' 10 (sample_task False True)
     (sample_store (sample_task False True))) = Some r' \<and> r_status r' = status_value Active
     \<and> r_next_fire_at r' = None"
proof -
  have t: "ct_id (sample_task False True) = ''t''" by (simp add: sample_task_def)
  have "\<not> is_transient_error ''forbidden''" by code_simp
  then have "\<exists>r'. row_of (ct_id (sample_task False True)) (handle_failure sample_clockwork True ''forbidden'' 10
      (sample_task False True) (sample_store (sample_task False True))) = Some r'
    \<and> r_status r' = status_value Active \<and> r_next_fire_at r' = None
    \<and> (json_ok sample_codec \<longrightarrow> (\<forall>b st'. resume_task sample_codec sample_clockwork 10 (ct_id (sample_task False True))
          (handle_failure sample_clockwork True ''forbidden'' 10 (sample_task False True)
            (sample_store (sample_task False True))) = Inr (b, st') \<longrightarrow> \<not> b))"
    by (intro alert_undoes_pause [where r = "task_to_row sample_codec (sample_task False True)"])
      (simp_all add: alert_due_def, simp_all add: sample_task_def)
  then show ?thesis by (auto simp: t)
qed


text \<open>
  Deleting a task while it runs does not survive a failure: when the running execution of a
  durable recurring task fails, the row that \<open>delete\<close> had marked deleted ends active again, with a
  fire time at least the backoff away.
\<close>

lemma failure_undoes_delete:
  assumes "ct_durable t" "ct_recurring t" "ct_id t \<notin> set (st_memory st)" "row_of (ct_id t) st = Some r"
    and "compute_next_fire cw (ct_schedule t) now = Inr n"
    and "delete_task (ct_id t) st = (ok, st1)"
    and "st2 = fire_task cw False k (Inl err) now now t st1"
  shows "ok \<and> row_of (ct_id t) st1 = Some (r\<lparr>r_status := status_value Deleted\<rparr>)
    \<and> (\<exists>r2 nxt. row_of (ct_id t) st2 = Some r2 \<and> r_status r2 = status_value Active
         \<and> r_next_fire_at r2 = Some nxt \<and> now + backoff_delay (ct_consecutive_failures t + 1) \<le> nxt)"
proof -
  have rid: "r_id r = ct_id t" using assms(4) by (rule row_of_id)
  then have ok: ok
    using assms(3,4,6) by (auto simp: delete_task_def store_remove_def rowcount_def row_of_def find_Some_iff
        filter_empty_conv)
  have row1: "row_of (ct_id t) st1 = Some (r\<lparr>r_status := status_value Deleted\<rparr>)"
    and mem1: "ct_id t \<notin> set (st_memory st1)"
    using assms(3,4,6) rid by (auto simp: delete_task_def store_remove_def)
  let ?nxt = "max n (now + backoff_delay (ct_consecutive_failures t + 1))"
  have "handle_failure cw False err now t st1 = update_status (ct_id t) Active (Some (Some ?nxt))
      (Some (ct_consecutive_failures t + 1)) None st1"
    using assms(1,2,5) by (simp add: handle_failure_def failure_alert_def current_def Let_def)
  then have "\<exists>r2. row_of (ct_id t) st2 = Some r2 \<and> r_status r2 = status_value Active
      \<and> r_next_fire_at r2 = Some ?nxt"
    using row_of_update_status [OF row1 mem1]
    by (simp add: assms(7) fire_task_def settle_def row_of_release)
  moreover have "now + backoff_delay (ct_consecutive_failures t + 1) \<le> ?nxt" by simp
  ultimately show ?thesis using ok row1 by blast
qed

lemma failure_undoes_delete_witness:
  "\<exists>r2. row_of ''t'' (fire_task sample_clockwork False ''k'' (Inl ''x'') 10 10 (sample_task True True)
     (snd (delete_task ''t'' (sample_store (sample_task True True))))) = Some r2
   \<and> r_status r2 = status_value Active"
proof -
  obtain ok st1 where d: "delete_task ''t'' (sample_store (sample_task True True)) = (ok, st1)" by fastforce
  have t: "ct_id (sample_task True True) = ''t''" by (simp add: sample_task_def)
  have "compute_next_fire sample_clockwork (ct_schedule (sample_task True True)) 10 = Inr 70"
    by (simp add: sample_task_def mk_schedule_def compute_next_fire_def)
  from failure_undoes_delete [OF _ _ _ sample_store_ok(3) this _ refl, of ok st1 "''k''" "''x''"]
  show ?thesis using d by (auto simp: sample_task_def)
qed

section \<open>Repeat limits\<close>

text \<open>
  A durable recurring task completes exactly when its repeat limit is reached: after the
  successful execution of a task whose copy is current, the row counts one more fire, and it is
  completed if that count, its age or its deadline exhausts the limit, and otherwise still has
  the status it had, with the next fire time of its schedule.
\<close>

lemma durable_repeat_limit:
  assumes "ct_durable t" "ct_recurring t" "ct_id t \<notin> set (st_memory st)" "row_of (ct_id t) st = Some r"
    and "r_fire_count r = ct_fire_count t" "compute_next_fire cw (ct_schedule t) now = Inr n"
    and "ex_status ex \<in> {Exec_Completed, Exec_Running}"
  shows "\<exists>r'. row_of (ct_id t) (fire_task cw alerts k (Inr ex) now now_f t st) = Some r'
    \<and> r_fire_count r' = r_fire_count r + 1 \<and> r_running_by r' \<noteq> Some k
    \<and> (if is_exhausted (ct_repeat t) (r_fire_count r') (ct_created_at t) now
       then r_status r' = status_value Completed \<and> r_next_fire_at r' = None
       else r_status r' = r_status r \<and> r_next_fire_at r' = Some n)"
  using settle_success [OF assms(1,3,4,2,6,7), of alerts now_f] assms(5)
  by (simp add: fire_task_def row_of_release Let_def)

lemma durable_repeat_limit_witness:
  "\<exists>r'. row_of ''t'' (fire_task sample_clockwork False ''k'' (Inr (sample_execution Exec_Completed)) 10 10
     (sample_task True True) (sample_store (sample_task True True))) = Some r' \<and> r_fire_count r' = 1
     \<and> r_next_fire_at r' = Some 70"
proof -
  have "compute_next_fire sample_clockwork (ct_schedule (sample_task True True)) 10 = Inr 70"
    by (simp add: sample_task_def mk_schedule_def compute_next_fire_def)
  from durable_repeat_limit [OF _ _ _ sample_store_ok(3) _ this, of "sample_execution Exec_Completed" False "''k''" 10]
  show ?thesis
    by (auto simp: sample_task_def task_to_row_def sample_execution_def is_exhausted_def Let_def)
qed

text \<open>
  A task kept in memory completes one fire early, because its handle is the stored object and
  already shows the new count when one is added to it; and its claim is never released, so
  whatever the limit, it is never due again.
\<close>

lemma update_obj_same: "st_objs st i = Some x \<Longrightarrow> st_objs (update_obj i f st) i = Some (f x)"
  by (simp add: update_obj_def)

lemma fire_task_objs: "st_objs (release_task k i st) = st_objs st"
  by (simp add: release_task_def)

lemma memory_task_fires_once:
  assumes "\<not> ct_durable t" "st_objs st (ct_id t) = Some t" "ct_id t \<in> set (st_memory st)"
    and "ct_recurring t" "compute_next_fire cw (ct_schedule t) now = Inr n" "ex_status ex = Exec_Completed"
    and "claim_tasks k now [t] st = (c, st1)"
    and "st2 = fire_task cw alerts k (Inr ex) now now_f (mark_running k now t) st1"
  shows "\<exists>t2. st_objs st2 (ct_id t) = Some t2 \<and> ct_fire_count t2 = ct_fire_count t + 1
    \<and> (ct_status t2 = Completed \<longleftrightarrow>
         is_exhausted (ct_repeat t) (ct_fire_count t2 + 1) (ct_created_at t) now \<or> ct_status t = Completed)
    \<and> (\<forall>later. \<not> is_due later t2)"
proof -
  let ?t1 = "mark_running k now t"
  have st1: "st1 = update_obj (ct_id t) (mark_running k now) st" using assms(1,7) by simp
  then have obj1: "st_objs st1 (ct_id t) = Some ?t1" and mem1: "ct_id t \<in> set (st_memory st1)"
    using assms(2,3) by (simp_all add: update_obj_same)
  let ?st1 = "record_execution ex st1"
  have obj: "st_objs ?st1 (ct_id t) = Some ?t1" and mem: "ct_id t \<in> set (st_memory ?st1)"
    using obj1 mem1 by (simp_all add: record_execution_def add_execution_def)
  have t1: "\<not> ct_durable ?t1" "ct_id ?t1 = ct_id t" "ct_recurring ?t1" "ct_schedule ?t1 = ct_schedule t"
    "ct_repeat ?t1 = ct_repeat t" "ct_created_at ?t1 = ct_created_at t" "ct_fire_count ?t1 = ct_fire_count t"
    "ct_running_by ?t1 = Some k" "ct_status ?t1 = ct_status t"
    using assms(1,4) by (simp_all add: mark_running_def)
  let ?t2 = "?t1\<lparr>ct_last_fired_at := Some now, ct_next_fire_at := Some n,
     ct_fire_count := ct_fire_count t + 1, ct_consecutive_failures := 0\<rparr>"
  have cur: "current ?st1 ?t1 = ?t1" using t1 obj by (simp add: current_def)
  let ?st3 = "update_fired (ct_id t) now (Some n) ?st1"
  have obj3: "st_objs ?st3 (ct_id t) = Some ?t2" and mem3: "ct_id t \<in> set (st_memory ?st3)"
    using mem update_obj_same [OF obj] t1(7) by (simp_all add: update_fired_def)
  then have cur3: "current ?st3 ?t1 = ?t2" using t1 by (simp add: current_def)
  have settled: "settle cw alerts (Inr ex) now now_f ?t1 st1 =
      (if is_exhausted (ct_repeat t) (ct_fire_count t + 1 + 1) (ct_created_at t) now
       then update_status (ct_id t) Completed (Some None) None None ?st3 else ?st3)"
    using assms(5,6) t1 cur cur3 by (simp add: settle_def after_success_def Let_def)
  show ?thesis
    using obj3 mem3 t1
    by (simp add: assms(8) fire_task_def fire_task_objs settled update_status_def update_obj_same is_due_def)
qed

lemma memory_task_fires_once_witness:
  "\<exists>t2. st_objs (fire_task sample_clockwork False ''k'' (Inr (sample_execution Exec_Completed)) 10 10
      (mark_running ''k'' 10 (sample_task True False))
      (snd (claim_tasks ''k'' 10 [sample_task True False]
        (empty_cron_store\<lparr>st_objs := [''t'' \<mapsto> sample_task True False], st_memory := [''t'']\<rparr>)))) ''t'' = Some t2
    \<and> ct_fire_count t2 = 1 \<and> ct_status t2 = Completed"
proof -
  let ?t = "sample_task True False"
  let ?st = "empty_cron_store\<lparr>st_objs := [''t'' \<mapsto> ?t], st_memory := [''t'']\<rparr>"
  obtain c st1 where claim: "claim_tasks ''k'' 10 [?t] ?st = (c, st1)" by fastforce
  have t: "\<not> ct_durable ?t" "st_objs ?st (ct_id ?t) = Some ?t" "ct_id ?t \<in> set (st_memory ?st)"
    "ct_recurring ?t" "compute_next_fire sample_clockwork (ct_schedule ?t) 10 = Inr 70"
    by (simp_all add: sample_task_def mk_schedule_def compute_next_fire_def)
  have ex: "ex_status (sample_execution Exec_Completed) = Exec_Completed" by (simp add: sample_execution_def)
  obtain t2 where t2: "st_objs (fire_task sample_clockwork False ''k'' (Inr (sample_execution Exec_Completed)) 10 10
      (mark_running ''k'' 10 ?t) st1) (ct_id ?t) = Some t2" "ct_fire_count t2 = ct_fire_count ?t + 1"
    "ct_status t2 = Completed \<longleftrightarrow> is_exhausted (ct_repeat ?t) (ct_fire_count t2 + 1) (ct_created_at ?t) 10
       \<or> ct_status ?t = Completed"
    using memory_task_fires_once [OF t ex claim refl] by blast
  then have "ct_status t2 = Completed"
    by (simp add: sample_task_def is_exhausted_def)
  moreover have "snd (claim_tasks ''k'' 10 [?t] ?st) = st1" by (simp only: claim snd_conv)
  moreover have "ct_id ?t = ''t''" "ct_fire_count ?t = 0" by (simp_all add: sample_task_def)
  ultimately show ?thesis using t2(1,2) by (intro exI [of _ t2]) (simp only: add_0 simp_thms)
qed

end
