(* ===== verification/Pipeline.thy ===== *)
theory Pipeline
  imports Authorizer Py_Text
begin

text \<open>
  \<open>orchestrator/tools_exec/\<close>, one tool call: the user round-trip (\<open>authorization.py\<close>,
  \<open>permissions.py\<close>, the session's side in \<open>session/turns/permission.py\<close>), the lifecycle hooks
  (\<open>hooks.py\<close>), the pipeline \<open>_run_one\<close> with its result mapping (\<open>pipeline.py\<close>,
  \<open>result_mapping.py\<close>, \<open>file_touch.py\<close>) and the contexts it runs in (\<open>context.py\<close>, and the mode the
  query loop hands over, \<open>loop/engine.py\<close>). A generator is the list of the pairs it yields and the
  way it ends. The tool's own code, the client and the hook handlers are parameters. The tool context
  is a type parameter: the pipeline only hands it through.
\<close>

section \<open>Content\<close>

datatype content_block =
  Text_Block string
| Image_Block string string
| Resource_Link_Block string "string option" "string option"
| Resource_Block string "string option" (block_text: "string option") "string option"

datatype llm_content = Text_Content string | Block_Content "content_block list"

text \<open>\<open>hasattr(b, "text")\<close> and the value: an embedded resource has the attribute, possibly \<open>None\<close>.\<close>

fun text_attr :: "content_block \<Rightarrow> string option option" where
  "text_attr (Text_Block s) = Some (Some s)"
| "text_attr (Resource_Block _ _ t _) = Some t"
| "text_attr _ = None"

text \<open>\<open>"\n".join\<close> raises on an item that is no string.\<close>

definition coerce_content :: "content_block list \<Rightarrow> llm_content result" where
  "coerce_content blocks =
     (if list_all (\<lambda>b. text_attr b \<noteq> None) blocks then
        (if \<exists>b \<in> set blocks. text_attr b = Some None then Inl ''TypeError''
         else Inr (Text_Content (join [CHR 0x0A] (map (\<lambda>b. the (the (text_attr b))) blocks))))
      else Inr (Block_Content blocks))"

definition truncation_note :: "nat \<Rightarrow> nat \<Rightarrow> string" where
  "truncation_note original budget =
     [CHR 0x0A, CHR 0x0A] @ ''[tool result truncated '' @ [CHR 0x97] @ '' '' @ show_nat original
     @ '' chars, kept first '' @ show_nat budget @ '' chars]''"

definition apply_result_budget :: "llm_content \<Rightarrow> nat \<Rightarrow> llm_content" where
  "apply_result_budget content budget =
     (case content of
        Block_Content _ \<Rightarrow> content
      | Text_Content s \<Rightarrow>
          if length s \<le> budget then content
          else Text_Content (take budget s @ truncation_note (length s) budget))"

section \<open>Events, requests and responses\<close>

record tool_use =
  tu_id :: string
  tu_name :: string
  tu_input :: dict

record tool_result =
  tr_tool_use_id :: string
  tr_content :: llm_content
  tr_is_error :: bool

text \<open>The orchestrator's tool events; a passthrough event is some event of a sub-agent.\<close>

datatype orch_event =
  Tool_Call_Start string string tool_kind "string option"
| Tool_Call_Progress string "content_block list"
| Tool_Call_Result string "content_block list"
| Tool_Call_Error string string
| Passthrough string

type_synonym event_pair = "orch_event \<times> tool_result option"

datatype 'c tool_event =
  Tool_Progress "content_block list" "string option"
| Tool_Final "content_block list" "('c \<Rightarrow> 'c result) option"

datatype call_ending = Call_Returned | Call_Raised exn | Call_Cancelled

record request_option =
  option_id :: string
  option_name :: string
  option_kind :: string

record perm_request =
  rq_tool_use_id :: string
  rq_tool_name :: string
  rq_tool_title :: string
  rq_input_summary :: string
  rq_risk_level :: risk
  rq_tool_input :: dict
  rq_options :: "request_option list"

datatype answer = Answer_Allow_Once | Answer_Allow_Always | Answer_Reject

record perm_response =
  pr_decision :: answer
  pr_updated_input :: "dict option"

section \<open>The executor's world and state\<close>

text \<open>
  \<open>w_on_permission\<close> is the callback (it may raise), \<open>w_dumps\<close> is \<open>orjson.dumps\<close> with the errors the
  code catches as \<open>None\<close>, \<open>w_validate\<close> is \<open>validate_input\<close> with the exception it raised, \<open>w_call\<close>
  the events of \<open>tool.call\<close> and its end. The three flags say which optional closures are wired.
\<close>

record 'c tool_world =
  w_authz :: authz_env
  w_hooks :: "hook_registry option"
  w_queue_reminders :: bool
  w_validate :: "tool \<Rightarrow> dict \<Rightarrow> 'c \<Rightarrow> exn option"
  w_call :: "tool \<Rightarrow> dict \<Rightarrow> 'c \<Rightarrow> 'c tool_event list \<times> call_ending"
  w_on_permission :: "perm_request \<Rightarrow> perm_response result"
  w_dumps :: "dict \<Rightarrow> string option"
  w_context_changed :: bool
  w_skills :: bool
  w_session_id :: string
  w_agent_depth :: nat
  w_cwd :: string
  w_connection_auth :: string
  w_avoid_prompts :: "bool result option"

text \<open>
  \<open>xs_calls\<close> records every \<open>tool.call\<close> (tool-use id, tool, input), \<open>xs_hooks\<close> every hook context as
  the handlers left it, \<open>xs_touched\<close> the paths announced to the skill manager.
\<close>

record 'c exec_state =
  xs_authorizer :: "authorizer option"
  xs_allow_all_warned :: bool
  xs_reminders :: "string list"
  xs_hooks :: "hook_ctx list"
  xs_calls :: "(string \<times> string \<times> dict) list"
  xs_contexts :: "'c list"
  xs_touched :: "string list"

datatype run_ending = Finished | Raised exn | Cancelled

type_synonym 'c run = "event_pair list \<times> run_ending \<times> 'c exec_state"

section \<open>Contexts and modes\<close>

text \<open>\<open>_tool_permission_mode\<close> of the query loop: the mode the executor is given.\<close>

definition tool_permission_mode :: "permission_mode \<Rightarrow> permission_mode" where
  "tool_permission_mode m = (if m = Plan then Plan else if m = Bypass then Bypass else Default)"

definition session_should_avoid_prompts :: "'c tool_world \<Rightarrow> bool" where
  "session_should_avoid_prompts w =
     (case w_avoid_prompts w of Some (Inr b) \<Rightarrow> b | _ \<Rightarrow> False)"

definition build_authorize_context :: "'c tool_world \<Rightarrow> permission_mode \<Rightarrow> authorize_context" where
  "build_authorize_context w m =
     \<lparr>ctx_session_id = w_session_id w, ctx_agent_depth = w_agent_depth w, ctx_mode = m,
      ctx_cwd = w_cwd w, ctx_connection_auth = w_connection_auth w,
      should_avoid_prompts = session_should_avoid_prompts w\<rparr>"

section \<open>The user round-trip\<close>

definition risk_from_decision :: "decision_reason \<Rightarrow> risk" where
  "risk_from_decision rsn = (case rsn of Reason_Default_Risk r _ _ \<Rightarrow> r | _ \<Rightarrow> Medium)"

definition label_or :: "string \<Rightarrow> string \<Rightarrow> string" where
  "label_or l d = (if l = [] then d else l)"

fun option_of_button :: "suggestion_btn \<Rightarrow> request_option" where
  "option_of_button (Btn l Allow_Once) =
     \<lparr>option_id = ''allow_once'', option_name = label_or l ''Allow once'', option_kind = ''allow_once''\<rparr>"
| "option_of_button (Btn l Allow_Always) =
     \<lparr>option_id = ''allow_always'', option_name = label_or l ''Allow always'', option_kind = ''allow_always''\<rparr>"
| "option_of_button (Btn l Deny_Once) =
     \<lparr>option_id = ''reject'', option_name = label_or l ''Reject'', option_kind = ''reject_once''\<rparr>"

definition permission_options_from_suggestions :: "suggestion_btn list \<Rightarrow> request_option list" where
  "permission_options_from_suggestions = map option_of_button"

definition user_reason :: "string \<Rightarrow> decision_reason" where
  "user_reason e = Reason_Fail_Closed e"

text \<open>The part of \<open>_authorize\<close> after an ask: the request, the answer, the grant.\<close>

definition ask_user ::
    "'c tool_world \<Rightarrow> tool \<Rightarrow> dict \<Rightarrow> authorize_context \<Rightarrow> tool_use \<Rightarrow> string \<Rightarrow> decision_reason
       \<Rightarrow> suggestion_btn list \<Rightarrow> authorizer \<Rightarrow> decision option result \<times> authorizer" where
  "ask_user w t inp ctx tc msg rsn btns a =
     (case t_user_facing_name t inp of
        Inl e \<Rightarrow> (Inl e, a)
      | Inr title \<Rightarrow>
          (let req = \<lparr>rq_tool_use_id = tu_id tc, rq_tool_name = t_name t, rq_tool_title = title,
                      rq_input_summary = msg, rq_risk_level = risk_from_decision rsn,
                      rq_tool_input = inp, rq_options = permission_options_from_suggestions btns\<rparr>
           in case w_on_permission w req of
                Inl _ \<Rightarrow>
                  (Inr (Some (Permission_Deny ''no interactive channel available'' Reason_No_Prompt)), a)
              | Inr resp \<Rightarrow>
                  if pr_decision resp = Answer_Reject then
                    (Inr (Some (Permission_Deny ''user rejected permission request''
                                  (user_reason ''user_reject''))), a)
                  else
                    (let a' = (if pr_decision resp = Answer_Allow_Always
                               then grant (w_authz w) t inp ctx a else a)
                     in (Inr (Some (Permission_Allow (user_reason ''user_allow'')
                                      (pr_updated_input resp))), a'))))"

text \<open>
  \<open>_authorize\<close>: \<open>None\<close> is its fail-closed answer for an authorizer that raises, which \<open>authorize\<close>
  never does.
\<close>

definition run_authorize ::
    "'c tool_world \<Rightarrow> tool \<Rightarrow> dict \<Rightarrow> authorize_context \<Rightarrow> tool_use \<Rightarrow> 'c exec_state
       \<Rightarrow> decision option result \<times> 'c exec_state" where
  "run_authorize w t inp ctx tc st =
     (case xs_authorizer st of
        None \<Rightarrow> (Inr (Some (Permission_Allow (user_reason ''authorizer_unavailable'') None)),
                 st\<lparr>xs_allow_all_warned := True\<rparr>)
      | Some a \<Rightarrow>
          (let (d, a1) = authorize (w_authz w) t inp ctx a
           in case d of
                Permission_Ask msg rsn btns \<Rightarrow>
                  (let (res, a2) = ask_user w t inp ctx tc msg rsn btns a1
                   in (res, st\<lparr>xs_authorizer := Some a2\<rparr>))
              | _ \<Rightarrow> (Inr (Some d), st\<lparr>xs_authorizer := Some a1\<rparr>)))"

text \<open>
  The session's callback \<open>_on_permission\<close>: \<open>connected\<close> clients, and the reply of the one asked: the
  option id it selected with its input, \<open>None\<close> for a cancelled dialog, an exception for a failed
  request.
\<close>

definition answer_of_option :: "string \<Rightarrow> answer" where
  "answer_of_option oid =
     (if oid = ''allow_once'' then Answer_Allow_Once
      else if oid = ''allow_always'' then Answer_Allow_Always else Answer_Reject)"

definition session_on_permission ::
    "bool \<Rightarrow> (perm_request \<Rightarrow> (string \<times> dict option) option result) \<Rightarrow> perm_request
       \<Rightarrow> perm_response result" where
  "session_on_permission senders reply req =
     Inr (if \<not> senders then \<lparr>pr_decision = Answer_Reject, pr_updated_input = None\<rparr>
          else (case reply req of
                  Inl _ \<Rightarrow> \<lparr>pr_decision = Answer_Reject, pr_updated_input = None\<rparr>
                | Inr None \<Rightarrow> \<lparr>pr_decision = Answer_Reject, pr_updated_input = None\<rparr>
                | Inr (Some (oid, upd)) \<Rightarrow>
                    \<lparr>pr_decision = answer_of_option oid, pr_updated_input = upd\<rparr>))"

definition acp_permission_options :: "perm_request \<Rightarrow> request_option list" where
  "acp_permission_options req =
     (if rq_options req \<noteq> [] then rq_options req
      else [\<lparr>option_id = ''allow_once'', option_name = ''Allow once'', option_kind = ''allow_once''\<rparr>,
            \<lparr>option_id = ''allow_always'', option_name = ''Allow always'', option_kind = ''allow_always''\<rparr>,
            \<lparr>option_id = ''reject'', option_name = ''Reject'', option_kind = ''reject_once''\<rparr>])"

section \<open>Hooks\<close>

definition run_hook ::
    "'c tool_world \<Rightarrow> permission_mode \<Rightarrow> hook_event \<Rightarrow> string \<Rightarrow> dict \<Rightarrow> string option \<Rightarrow> string option
       \<Rightarrow> 'c exec_state \<Rightarrow> (bool \<times> hook_ctx) \<times> 'c exec_state" where
  "run_hook w m ev name inp out err st =
     (let amb = \<lparr>amb_session_id = w_session_id w, amb_cwd = w_cwd w,
                 amb_agent_depth = w_agent_depth w, amb_mode = m,
                 amb_timestamp = env_now (w_authz w)\<rparr>;
          ctx = new_hook_ctx ev amb (Some name) inp out err
      in case w_hooks w of
           None \<Rightarrow> ((False, ctx), st)
         | Some reg \<Rightarrow>
             (let (blocked, ctx') = fire reg ctx;
                  st' = st\<lparr>xs_hooks := xs_hooks st @ [ctx']\<rparr>
              in ((blocked, ctx'),
                  if w_queue_reminders w \<and> hc_messages ctx' \<noteq> []
                  then st'\<lparr>xs_reminders := xs_reminders st' @ hc_messages ctx'\<rparr> else st')))"

section \<open>The pipeline\<close>

definition error_tuple :: "tool_use \<Rightarrow> string \<Rightarrow> event_pair" where
  "error_tuple tc msg =
     (Tool_Call_Error (tu_id tc) msg,
      Some \<lparr>tr_tool_use_id = tu_id tc, tr_content = Text_Content msg, tr_is_error = True\<rparr>)"

definition error_unknown_tool :: "tool_use \<Rightarrow> event_pair list" where
  "error_unknown_tool tc =
     [(Tool_Call_Start (tu_id tc) (tu_name tc) Other None, None),
      error_tuple tc (''tool '' @ py_repr (tu_name tc) @ '' is not registered'')]"

definition FILE_MUTATING_TOOLS :: "string set" where
  "FILE_MUTATING_TOOLS = {''FileEdit'', ''FileWrite''}"

fun json_truthy :: "json \<Rightarrow> bool" where
  "json_truthy JNull = False"
| "json_truthy (JBool b) = b"
| "json_truthy (JInt i) = (i \<noteq> 0)"
| "json_truthy (JFloat f) = (f \<noteq> 0)"
| "json_truthy (JStr s) = (s \<noteq> [])"
| "json_truthy (JArr xs) = (xs \<noteq> [])"
| "json_truthy (JObj d) = (d \<noteq> [])"

definition notify_file_touched :: "'c tool_world \<Rightarrow> dict \<Rightarrow> 'c exec_state \<Rightarrow> 'c exec_state" where
  "notify_file_touched w inp st =
     (if \<not> w_skills w then st
      else (let path = (case map_of inp ''file_path'' of
                          Some j \<Rightarrow> if json_truthy j then Some j else map_of inp ''path''
                        | None \<Rightarrow> map_of inp ''path'')
            in case path of
                 Some (JStr p) \<Rightarrow> if p = [] then st else st\<lparr>xs_touched := xs_touched st @ [p]\<rparr>
               | _ \<Rightarrow> st))"

text \<open>The events of a call: progress is relayed at once, the last result frame is kept.\<close>

fun relay_events ::
    "string \<Rightarrow> 'c tool_event list \<Rightarrow> (content_block list \<times> ('c \<Rightarrow> 'c result) option) option
       \<Rightarrow> event_pair list \<times> (content_block list \<times> ('c \<Rightarrow> 'c result) option) option" where
  "relay_events i [] final = ([], final)"
| "relay_events i (Tool_Final bs m # evs) final = relay_events i evs (Some (bs, m))"
| "relay_events i (Tool_Progress bs p # evs) final =
     (let (ps, f) = relay_events i evs final
      in ((case p of Some ev \<Rightarrow> (Passthrough ev, None) | None \<Rightarrow> (Tool_Call_Progress i bs, None)) # ps, f))"

definition apply_context_modifier ::
    "'c tool_world \<Rightarrow> 'c \<Rightarrow> ('c \<Rightarrow> 'c result) option \<Rightarrow> 'c exec_state \<Rightarrow> 'c exec_state" where
  "apply_context_modifier w tctx m st =
     (case m of
        None \<Rightarrow> st
      | Some f \<Rightarrow>
          (case f tctx of
             Inl _ \<Rightarrow> st
           | Inr c \<Rightarrow> if w_context_changed w then st\<lparr>xs_contexts := xs_contexts st @ [c]\<rparr> else st))"

text \<open>After the last event: coercion, the post hook, the context, the skill notice, the budget.\<close>

definition finish_run ::
    "'c tool_world \<Rightarrow> permission_mode \<Rightarrow> tool_use \<Rightarrow> tool \<Rightarrow> 'c \<Rightarrow> dict
       \<Rightarrow> content_block list \<Rightarrow> ('c \<Rightarrow> 'c result) option \<Rightarrow> 'c exec_state \<Rightarrow> 'c run" where
  "finish_run w m tc t tctx inp blocks modifier st =
     (case coerce_content blocks of
        Inl e \<Rightarrow> ([], Raised e, st)
      | Inr content \<Rightarrow>
          (let out = (case content of Text_Content s \<Rightarrow> Some s | Block_Content _ \<Rightarrow> None);
               st1 = snd (run_hook w m POST_TOOL_USE (t_name t) inp out None st);
               st2 = apply_context_modifier w tctx modifier st1;
               st3 = (if t_name t \<in> FILE_MUTATING_TOOLS then notify_file_touched w inp st2 else st2)
           in ([(Tool_Call_Result (tu_id tc) blocks,
                 Some \<lparr>tr_tool_use_id = tu_id tc,
                       tr_content = apply_result_budget content (t_max_result_size_chars t),
                       tr_is_error = False\<rparr>)], Finished, st3)))"

definition call_tool ::
    "'c tool_world \<Rightarrow> permission_mode \<Rightarrow> tool_use \<Rightarrow> tool \<Rightarrow> 'c \<Rightarrow> dict \<Rightarrow> 'c exec_state \<Rightarrow> 'c run" where
  "call_tool w m tc t tctx inp st =
     (let st0 = st\<lparr>xs_calls := xs_calls st @ [(tu_id tc, t_name t, inp)]\<rparr>;
          (events, ending) = w_call w t inp tctx;
          (relayed, final) = relay_events (tu_id tc) events None
      in case ending of
           Call_Cancelled \<Rightarrow> (relayed, Cancelled, st0)
         | Call_Raised e \<Rightarrow>
             (let st1 = snd (run_hook w m POST_TOOL_FAILURE (t_name t) inp None (Some e) st0)
              in (relayed @ [error_tuple tc (''tool execution failed: '' @ e)], Finished, st1))
         | Call_Returned \<Rightarrow>
             (case final of
                None \<Rightarrow> (relayed @ [error_tuple tc ''tool produced no result''], Finished, st0)
              | Some (blocks, modifier) \<Rightarrow>
                  (let (ps, e, st1) = finish_run w m tc t tctx inp blocks modifier st0
                   in (relayed @ ps, e, st1))))"

text \<open>\<open>a or b\<close> of two dictionaries, the first possibly \<open>None\<close>.\<close>

definition dict_or :: "dict option \<Rightarrow> dict \<Rightarrow> dict" where
  "dict_or a b = (case a of Some d \<Rightarrow> if d = [] then b else d | None \<Rightarrow> b)"

text \<open>From the allowance on: the pre hook may block or rewrite, then the start event and the call.\<close>

definition run_allowed ::
    "'c tool_world \<Rightarrow> permission_mode \<Rightarrow> tool_use \<Rightarrow> tool \<Rightarrow> 'c \<Rightarrow> dict \<Rightarrow> 'c exec_state \<Rightarrow> 'c run" where
  "run_allowed w m tc t tctx inp st =
     (let ((blocked, pre), st1) = run_hook w m PRE_TOOL_USE (t_name t) inp None None st
      in if blocked then ([error_tuple tc ''pre_tool_use hook blocked execution''], Finished, st1)
         else
           (let inp' = dict_or (Some (hc_tool_input pre)) inp
            in case t_user_facing_name t inp' of
                 Inl e \<Rightarrow> ([], Raised e, st1)
               | Inr title \<Rightarrow>
                   (let (ps, e, st2) = call_tool w m tc t tctx inp' st1
                    in ((Tool_Call_Start (tu_id tc) title (t_kind t)
                           (map_option (take 2000) (w_dumps w inp')), None) # ps, e, st2))))"

definition run_one ::
    "'c tool_world \<Rightarrow> permission_mode \<Rightarrow> tool_use \<Rightarrow> tool \<Rightarrow> 'c \<Rightarrow> authorize_context \<Rightarrow> 'c exec_state
       \<Rightarrow> 'c run" where
  "run_one w m tc t tctx ctx st =
     (case w_validate w t (tu_input tc) tctx of
        Some e \<Rightarrow> ([error_tuple tc (''invalid input: '' @ e)], Finished, st)
      | None \<Rightarrow>
          (let (res, st1) = run_authorize w t (tu_input tc) ctx tc st
           in case res of
                Inl e \<Rightarrow> ([], Raised e, st1)
              | Inr None \<Rightarrow> ([error_tuple tc ''permission check failed''], Finished, st1)
              | Inr (Some (Permission_Deny msg _)) \<Rightarrow> ([error_tuple tc msg], Finished, st1)
              | Inr (Some (Permission_Ask msg _ _)) \<Rightarrow> ([error_tuple tc msg], Finished, st1)
              | Inr (Some (Permission_Allow _ upd)) \<Rightarrow>
                  run_allowed w m tc t tctx (dict_or upd (tu_input tc)) st1))"

text \<open>A call as the executor makes it, in the query loop's mode.\<close>

definition run_in_mode ::
    "'c tool_world \<Rightarrow> permission_mode \<Rightarrow> tool_use \<Rightarrow> tool \<Rightarrow> 'c \<Rightarrow> 'c exec_state \<Rightarrow> 'c run" where
  "run_in_mode w orch_mode tc t tctx st =
     (let m = tool_permission_mode orch_mode
      in run_one w m tc t tctx (build_authorize_context w m) st)"

section \<open>One result for every finished run\<close>

text \<open>
  The contract the query loop relies on: a run that finishes ends with its one tool result, for its
  own call; a run that does not finish yields none.
\<close>

definition silent :: "event_pair list \<Rightarrow> bool" where
  "silent ps \<longleftrightarrow> (\<forall>p \<in> set ps. snd p = None)"

definition one_result :: "tool_use \<Rightarrow> event_pair list \<Rightarrow> run_ending \<Rightarrow> bool" where
  "one_result tc ps e \<longleftrightarrow>
     (if e = Finished
      then ps \<noteq> [] \<and> silent (butlast ps)
           \<and> (\<exists>r. snd (last ps) = Some r \<and> tr_tool_use_id r = tu_id tc)
      else silent ps)"

lemma silent_simps [simp]:
  "silent []" "silent (p # ps) \<longleftrightarrow> snd p = None \<and> silent ps" "silent (ps @ qs) \<longleftrightarrow> silent ps \<and> silent qs"
  by (auto simp: silent_def)

lemma one_result_error [simp]: "one_result tc [error_tuple tc msg] Finished"
  by (simp add: one_result_def error_tuple_def)

lemma one_result_prepend: "silent qs \<Longrightarrow> one_result tc ps e \<Longrightarrow> one_result tc (qs @ ps) e"
  by (auto simp: one_result_def butlast_append)

lemma relay_silent: "silent (fst (relay_events i evs final))"
  by (induction i evs final rule: relay_events.induct) (auto split: prod.splits option.splits)

lemma finish_run_one_result: "finish_run w m tc t tctx inp bs md st = (ps, e, st') \<Longrightarrow> one_result tc ps e"
  by (auto simp: finish_run_def one_result_def Let_def split: sum.splits)

lemma call_tool_one_result:
  assumes "call_tool w m tc t tctx inp st = (ps, e, st')"
  shows "one_result tc ps e"
proof -
  obtain evs en where w: "w_call w t inp tctx = (evs, en)" by force
  obtain rs f where r: "relay_events (tu_id tc) evs None = (rs, f)" by force
  have rs: "silent rs" using relay_silent [of "tu_id tc" evs None] r by simp
  show ?thesis
  proof (cases en)
    case Call_Returned
    show ?thesis
    proof (cases f)
      case (Some x)
      obtain bs md where "x = (bs, md)" by force
      with Some Call_Returned show ?thesis
        using assms w r rs
        by (auto simp: call_tool_def Let_def split: prod.splits
            intro: one_result_prepend finish_run_one_result)
    qed (use Call_Returned assms w r rs in \<open>auto simp: call_tool_def Let_def intro: one_result_prepend\<close>)
  qed (use assms w r rs in \<open>auto simp: call_tool_def Let_def one_result_def [of tc _ Cancelled]
      intro: one_result_prepend\<close>)
qed

lemma one_result_Cons: "snd p = None \<Longrightarrow> one_result tc ps e \<Longrightarrow> one_result tc (p # ps) e"
  using one_result_prepend [of "[p]"] by simp

lemma run_allowed_one_result: "run_allowed w m tc t tctx inp st = (ps, e, st') \<Longrightarrow> one_result tc ps e"
  by (auto simp: run_allowed_def Let_def one_result_def [of tc "[]"]
      intro: one_result_Cons dest!: call_tool_one_result split: prod.splits if_splits sum.splits)

lemma run_one_one_result: "run_one w m tc t tctx ctx st = (ps, e, st') \<Longrightarrow> one_result tc ps e"
  by (auto simp: run_one_def Let_def one_result_def [of tc "[]"] dest: run_allowed_one_result
      split: option.splits prod.splits sum.splits decision.splits)

section \<open>What a run does to the log of calls\<close>

lemma run_hook_calls [simp]: "xs_calls (snd (run_hook w m ev n inp out err st)) = xs_calls st"
  by (auto simp: run_hook_def Let_def split: option.splits prod.splits)

lemma run_hook_frame: "run_hook w m ev n inp out err st = (r, st') \<Longrightarrow> xs_calls st' = xs_calls st"
  using run_hook_calls [of w m ev n inp out err st] by simp

lemma context_calls [simp]: "xs_calls (apply_context_modifier w tctx md st) = xs_calls st"
  by (simp add: apply_context_modifier_def split: option.splits sum.splits)

lemma notify_calls [simp]: "xs_calls (notify_file_touched w inp st) = xs_calls st"
  by (auto simp: notify_file_touched_def Let_def split: option.splits json.splits)

lemma finish_run_calls: "finish_run w m tc t tctx inp bs md st = (ps, e, st') \<Longrightarrow> xs_calls st' = xs_calls st"
  by (auto simp: finish_run_def Let_def split: sum.splits if_splits)

lemma call_tool_calls:
  "call_tool w m tc t tctx inp st = (ps, e, st') \<Longrightarrow> xs_calls st' = xs_calls st @ [(tu_id tc, t_name t, inp)]"
  by (auto simp: call_tool_def Let_def dest!: finish_run_calls
      split: call_ending.splits option.splits prod.splits)

lemma run_authorize_calls: "run_authorize w t inp ctx tc st = (res, st') \<Longrightarrow> xs_calls st' = xs_calls st"
  by (auto simp: run_authorize_def Let_def split: option.splits prod.splits decision.splits)

text \<open>The input a run that was allowed hands to the tool, if its pre hook does not block.\<close>

definition hooked_input :: "'c tool_world \<Rightarrow> permission_mode \<Rightarrow> tool \<Rightarrow> dict \<Rightarrow> 'c exec_state \<Rightarrow> dict option"
where
  "hooked_input w m t inp st =
     (let (blocked, pre) = fst (run_hook w m PRE_TOOL_USE (t_name t) inp None None st)
      in if blocked then None else Some (dict_or (Some (hc_tool_input pre)) inp))"

lemma run_allowed_calls:
  "run_allowed w m tc t tctx inp st = (ps, e, st') \<Longrightarrow>
     xs_calls st' = xs_calls st
     \<or> (\<exists>inp'. hooked_input w m t inp st = Some inp'
          \<and> xs_calls st' = xs_calls st @ [(tu_id tc, t_name t, inp')])"
  by (auto simp: run_allowed_def hooked_input_def Let_def dest!: call_tool_calls run_hook_frame
      split: prod.splits if_splits sum.splits)

text \<open>
  What entitles a call to run: the authorizer's allowance, or its ask and a client that answered
  the request with an allowance; without an authorizer every call is entitled (degraded mode). The
  second argument is the input the answer substitutes.
\<close>

definition request_for :: "tool \<Rightarrow> dict \<Rightarrow> tool_use \<Rightarrow> string \<Rightarrow> string \<Rightarrow> decision_reason
    \<Rightarrow> suggestion_btn list \<Rightarrow> perm_request" where
  "request_for t inp tc title msg rsn btns =
     \<lparr>rq_tool_use_id = tu_id tc, rq_tool_name = t_name t, rq_tool_title = title,
      rq_input_summary = msg, rq_risk_level = risk_from_decision rsn, rq_tool_input = inp,
      rq_options = permission_options_from_suggestions btns\<rparr>"

definition entitled ::
    "'c tool_world \<Rightarrow> tool \<Rightarrow> authorize_context \<Rightarrow> tool_use \<Rightarrow> 'c exec_state \<Rightarrow> dict option \<Rightarrow> bool" where
  "entitled w t ctx tc st upd \<longleftrightarrow>
     (case xs_authorizer st of
        None \<Rightarrow> upd = None
      | Some a \<Rightarrow>
          (case fst (authorize (w_authz w) t (tu_input tc) ctx a) of
             Permission_Allow _ u \<Rightarrow> upd = u
           | Permission_Deny _ _ \<Rightarrow> False
           | Permission_Ask msg rsn btns \<Rightarrow>
               (\<exists>title resp. t_user_facing_name t (tu_input tc) = Inr title
                  \<and> w_on_permission w (request_for t (tu_input tc) tc title msg rsn btns) = Inr resp
                  \<and> pr_decision resp \<noteq> Answer_Reject \<and> upd = pr_updated_input resp)))"

lemma ask_user_Allow:
  "ask_user w t inp ctx tc msg rsn btns a = (Inr (Some (Permission_Allow r upd)), a') \<Longrightarrow>
     \<exists>title resp. t_user_facing_name t inp = Inr title
       \<and> w_on_permission w (request_for t inp tc title msg rsn btns) = Inr resp
       \<and> pr_decision resp \<noteq> Answer_Reject \<and> upd = pr_updated_input resp"
  by (auto simp: ask_user_def request_for_def Let_def split: sum.splits if_splits)

lemma run_authorize_Allow:
  assumes "run_authorize w t (tu_input tc) ctx tc st = (Inr (Some (Permission_Allow r upd)), st')"
  shows "entitled w t ctx tc st upd"
  using assms
  by (auto simp: run_authorize_def entitled_def Let_def dest!: ask_user_Allow
      split: option.splits prod.splits decision.splits)

text \<open>A call the authorizer asks about, with a client that allows it once, runs as it was made.\<close>

lemma run_one_asked:
  assumes "xs_authorizer st = Some a" "w_validate w t (tu_input tc) tctx = None" "w_hooks w = None"
    and "fst (authorize (w_authz w) t (tu_input tc) ctx a) = Permission_Ask msg rsn btns"
    and "t_user_facing_name t (tu_input tc) = Inr title"
    and "w_on_permission w (request_for t (tu_input tc) tc title msg rsn btns) =
      Inr \<lparr>pr_decision = Answer_Allow_Once, pr_updated_input = None\<rparr>"
  shows "xs_calls (snd (snd (run_one w m tc t tctx ctx st))) =
    xs_calls st @ [(tu_id tc, t_name t, tu_input tc)]"
proof -
  obtain a1 where a1: "authorize (w_authz w) t (tu_input tc) ctx a = (Permission_Ask msg rsn btns, a1)"
    using assms(4) by (cases "authorize (w_authz w) t (tu_input tc) ctx a") simp
  let ?st1 = "st\<lparr>xs_authorizer := Some a1\<rparr>"
  have "run_one w m tc t tctx ctx st = run_allowed w m tc t tctx (tu_input tc) ?st1"
    using assms a1
    by (simp add: run_one_def run_authorize_def ask_user_def request_for_def dict_or_def)
  moreover obtain ps e st' where
    r: "run_allowed w m tc t tctx (tu_input tc) ?st1 = (ps, e, st')" by (metis prod_cases3)
  moreover have "xs_calls st' = xs_calls st @ [(tu_id tc, t_name t, tu_input tc)]"
    using r assms(3,5)
    by (auto simp: run_allowed_def run_hook_def new_hook_ctx_def dict_or_def Let_def
        dest!: call_tool_calls split: prod.splits if_splits)
  ultimately show ?thesis by simp
qed

end
