(* ===== verification/Pipeline_Properties.thy ===== *)
theory Pipeline_Properties
  imports Pipeline Authz_Properties
begin

text \<open>
  The properties of one tool call's pipeline (\<open>orchestrator/tools_exec/\<close>) and their witnesses: what a
  call needs before the tool runs, that a finished run yields its one result, and three places where
  the pipeline and its callers lose what the authorizer or the tool said.
\<close>

section \<open>A concrete executor for the witnesses\<close>

definition sample_tool_world ::
    "(dict \<Rightarrow> unit tool_event list) \<Rightarrow> (perm_request \<Rightarrow> (string \<times> dict option) option result)
       \<Rightarrow> unit tool_world" where
  "sample_tool_world call reply =
     \<lparr>w_authz = sample_env, w_hooks = None, w_queue_reminders = True, w_validate = (\<lambda>_ _ _. None),
      w_call = (\<lambda>_ inp _. (call inp, Call_Returned)),
      w_on_permission = session_on_permission True reply, w_dumps = (\<lambda>_. None),
      w_context_changed = True, w_skills = False, w_session_id = ''s'', w_agent_depth = 0,
      w_cwd = ''/w'', w_connection_auth = [], w_avoid_prompts = None\<rparr>"

definition sample_exec :: "authorizer option \<Rightarrow> unit exec_state" where
  "sample_exec a = \<lparr>xs_authorizer = a, xs_allow_all_warned = False, xs_reminders = [], xs_hooks = [],
     xs_calls = [], xs_contexts = [], xs_touched = []\<rparr>"

definition sample_use :: tool_use where
  "sample_use = \<lparr>tu_id = ''u'', tu_name = ''T'', tu_input = []\<rparr>"

definition sample_tool :: "bool \<Rightarrow> tool" where
  "sample_tool d = (base_tool ''T'' Other)\<lparr>t_is_destructive := (\<lambda>_. Inr d)\<rparr>"

lemma sample_context [simp]:
  "build_authorize_context (sample_tool_world call reply) m = sample_ctx m"
  by (simp add: build_authorize_context_def sample_tool_world_def session_should_avoid_prompts_def
      sample_ctx_def)

lemma sample_fields [simp]:
  "w_authz (sample_tool_world call reply) = sample_env"
  "w_hooks (sample_tool_world call reply) = None"
  "w_validate (sample_tool_world call reply) t inp c = None"
  "w_on_permission (sample_tool_world call reply) = session_on_permission True reply"
  "xs_authorizer (sample_exec a) = a" "xs_calls (sample_exec a) = []"
  "tu_id sample_use = ''u''" "tu_input sample_use = []"
  "t_name (sample_tool d) = ''T''" "t_user_facing_name (sample_tool d) inp = Inr ''T''"
  "t_is_destructive (sample_tool d) inp = Inr d"
  by (simp_all add: sample_tool_world_def sample_exec_def sample_use_def sample_tool_def base_tool_def)

lemma sample_tool_answers:
  "answers (sample_tool d) inp ctx (\<lambda>_. False)
     \<lparr>sg_risk = Low, sg_decision = Ask, sg_reason = ''no tool-specific risk rule defined''\<rparr> d"
  by (simp add: sample_tool_def answers_def matcher_is_def base_tool_def base_matcher_def
      base_default_risk_def)

text \<open>No rule applies: the tool asks, and in dont-ask mode it is denied.\<close>

lemma sample_asks:
  "fst (authorize sample_env (sample_tool d) [] (sample_ctx Default) (sample_state [])) =
     Permission_Ask ''T (no tool-specific risk rule defined)''
       (Reason_Default_Risk Low ''no tool-specific risk rule defined'' ''T'') (ask_buttons d)"
  by (rule authorize_Inr)
     (simp add: authorize_impl_effective [OF sample_no_grant sample_not_mode(1) sample_tool_answers]
        apply_outcome_def handle_ask_def effective_rule_def first_hit_def build_ask_def
        build_ask_message_def default_reason_def truthy_def Let_def,
      simp add: sample_ctx_def sample_tool_def base_tool_def SHELL_TOOL_NAMES_def)

lemma sample_dont_ask:
  "fst (authorize sample_env (sample_tool d) [] (sample_ctx Dont_Ask) (sample_state [])) =
     Permission_Deny ''dont_ask mode: only pre-approved tools are allowed'' (Reason_Mode Dont_Ask)"
  by (rule authorize_Inr)
     (simp add: authorize_impl_effective [OF sample_no_grant sample_not_mode(2) sample_tool_answers]
        apply_outcome_def handle_ask_def effective_rule_def first_hit_def,
      simp add: sample_ctx_def)

section \<open>The properties\<close>

text \<open>
  C4: A tool runs only with permission. If a pipeline run called the tool, the input had passed
  validation, the authorizer allowed the call or asked and the client answered that very request
  with an allowance (or there is no authorizer), and no pre hook blocked it; the tool ran once, on
  the model's input as first the client's answer and then the pre hook replaced it.
\<close>

theorem call_needs_permission:
  assumes "run_one w m tc t tctx ctx st = (ps, e, st')" "xs_calls st' \<noteq> xs_calls st"
  shows "w_validate w t (tu_input tc) tctx = None
    \<and> (\<exists>upd inp. entitled w t ctx tc st upd
         \<and> hooked_input w m t (dict_or upd (tu_input tc)) (snd (run_authorize w t (tu_input tc) ctx tc st))
             = Some inp
         \<and> xs_calls st' = xs_calls st @ [(tu_id tc, t_name t, inp)])"
proof -
  obtain res st1 where r: "run_authorize w t (tu_input tc) ctx tc st = (res, st1)" by force
  then have "xs_calls st1 = xs_calls st" by (rule run_authorize_calls)
  with assms r show ?thesis
    by (auto simp: run_one_def Let_def dest!: run_allowed_calls dest: run_authorize_Allow
        split: option.splits sum.splits decision.splits)
qed

lemma sample_run:
  assumes "\<And>req. reply req = Inr (Some (''allow_once'', None))"
  shows "run_one (sample_tool_world call reply) Default sample_use (sample_tool d) () (sample_ctx Default)
      (sample_exec (Some (sample_state []))) =
    run_allowed (sample_tool_world call reply) Default sample_use (sample_tool d) () []
      (sample_exec (Some (snd (authorize sample_env (sample_tool d) [] (sample_ctx Default) (sample_state [])))))"
  using assms sample_asks [of d]
  by (cases "authorize sample_env (sample_tool d) [] (sample_ctx Default) (sample_state [])")
     (auto simp: run_one_def run_authorize_def ask_user_def sample_tool_world_def sample_exec_def
       sample_use_def sample_tool_def base_tool_def session_on_permission_def answer_of_option_def
       dict_or_def Let_def)

lemma sample_run_calls:
  "xs_calls (snd (snd (run_allowed (sample_tool_world call reply) m sample_use (sample_tool d) () []
      (sample_exec a)))) = [(''u'', ''T'', [])]"
proof -
  obtain ps e st' where r: "run_allowed (sample_tool_world call reply) m sample_use (sample_tool d) ()
      [] (sample_exec a) = (ps, e, st')" by (metis prod_cases3)
  then have "xs_calls st' = xs_calls (sample_exec a) @ [(''u'', ''T'', [])]"
    by (auto simp: run_allowed_def run_hook_def sample_tool_world_def sample_tool_def base_tool_def
        sample_use_def new_hook_ctx_def dict_or_def Let_def dest!: call_tool_calls split: prod.splits)
  with r show ?thesis by (simp add: sample_exec_def)
qed

theorem call_needs_permission_witness:
  "entitled (sample_tool_world (\<lambda>_. []) (\<lambda>_. Inr (Some (''allow_once'', None)))) (sample_tool True)
     (sample_ctx Default) sample_use (sample_exec (Some (sample_state []))) None"
proof -
  let ?w = "sample_tool_world (\<lambda>_. []) (\<lambda>_. Inr (Some (''allow_once'', None)))"
  let ?a = "snd (authorize sample_env (sample_tool True) [] (sample_ctx Default) (sample_state []))"
  obtain ps e st' where r: "run_allowed ?w Default sample_use (sample_tool True) () []
      (sample_exec (Some ?a)) = (ps, e, st')" by (metis prod_cases3)
  then have "xs_calls st' = [(''u'', ''T'', [])]" by (metis sample_run_calls snd_conv)
  then have "xs_calls st' \<noteq> xs_calls (sample_exec (Some (sample_state [])))" by (simp add: sample_exec_def)
  from call_needs_permission [OF _ this, of ?w Default sample_use "sample_tool True" "()" "sample_ctx Default" ps e]
  obtain upd where "entitled ?w (sample_tool True) (sample_ctx Default) sample_use
      (sample_exec (Some (sample_state []))) upd"
    using r sample_run by auto
  then show ?thesis
    using sample_asks [of True]
    by (auto simp: entitled_def sample_exec_def sample_use_def sample_tool_world_def
        session_on_permission_def)
qed

text \<open>
  C5: A finished run yields exactly one tool result, as its last pair and under the id of its call,
  whether the call succeeded, failed, was denied or was blocked; a run that was cancelled or raised
  yields none.
\<close>

theorem one_result_per_call:
  "case run_one w m tc t tctx ctx st of (ps, e, st') \<Rightarrow> one_result tc ps e"
  using run_one_one_result by (auto split: prod.splits)

text \<open>
  The permission modes the query loop drops: in accept-edits, auto and dont-ask mode a call runs
  exactly as in default mode. In particular a call the authorizer denies in dont-ask mode, and asks
  for in default mode, is put to the client in dont-ask mode and runs once the client allows it.
\<close>

lemma dropped_modes:
  assumes "om \<in> {Accept_Edits, Auto, Dont_Ask}"
    and "xs_authorizer st = Some a" "w_validate w t (tu_input tc) tctx = None" "w_hooks w = None"
    and "fst (authorize (w_authz w) t (tu_input tc) (build_authorize_context w om) a) =
      Permission_Deny dmsg drsn"
    and "fst (authorize (w_authz w) t (tu_input tc) (build_authorize_context w Default) a) =
      Permission_Ask msg rsn btns"
    and "t_user_facing_name t (tu_input tc) = Inr title"
    and "w_on_permission w (request_for t (tu_input tc) tc title msg rsn btns) =
      Inr \<lparr>pr_decision = Answer_Allow_Once, pr_updated_input = None\<rparr>"
  shows "run_in_mode w om tc t tctx st = run_in_mode w Default tc t tctx st
    \<and> xs_calls (snd (snd (run_in_mode w om tc t tctx st))) =
        xs_calls st @ [(tu_id tc, t_name t, tu_input tc)]"
proof
  show eq: "run_in_mode w om tc t tctx st = run_in_mode w Default tc t tctx st"
    using assms(1) by (auto simp: run_in_mode_def tool_permission_mode_def)
  show "xs_calls (snd (snd (run_in_mode w om tc t tctx st))) = xs_calls st @ [(tu_id tc, t_name t, tu_input tc)]"
    using run_one_asked [OF assms(2-4,6-8)] by (simp add: eq) (simp add: run_in_mode_def tool_permission_mode_def)
qed

lemma dropped_modes_witness:
  "xs_calls (snd (snd (run_in_mode
      (sample_tool_world (\<lambda>_. []) (\<lambda>_. Inr (Some (''allow_once'', None)))) Dont_Ask sample_use
      (sample_tool True) () (sample_exec (Some (sample_state [])))))) = [(''u'', ''T'', [])]"
  using dropped_modes [of Dont_Ask "sample_exec (Some (sample_state []))" "sample_state []"
      "sample_tool_world (\<lambda>_. []) (\<lambda>_. Inr (Some (''allow_once'', None)))" "sample_tool True" sample_use "()"
      "''dont_ask mode: only pre-approved tools are allowed''" "Reason_Mode Dont_Ask"
      "''T (no tool-specific risk rule defined)''"
      "Reason_Default_Risk Low ''no tool-specific risk rule defined'' ''T''" "ask_buttons True" "''T''"]
    sample_asks [of True] sample_dont_ask [of True]
  by (auto simp: session_on_permission_def answer_of_option_def)

text \<open>
  A button that was not offered can still be pressed: for a destructive call the request carries
  no \<open>allow_always\<close> option, but a client that selects it has the call granted, and from then on the
  authorizer lets that call through without asking.
\<close>

lemma unoffered_grant:
  assumes "xs_authorizer st = Some a" "t_is_destructive t inp = Inr True"
    and "fst (authorize (w_authz w) t inp ctx a) = Permission_Ask msg rsn btns"
    and "t_user_facing_name t inp = Inr title"
    and "w_on_permission w = session_on_permission True reply"
    and "reply (request_for t inp tc title msg rsn btns) = Inr (Some (''allow_always'', upd))"
  shows "''allow_always'' \<notin> set (map option_id (rq_options (request_for t inp tc title msg rsn btns)))
    \<and> (\<exists>a' g. xs_authorizer (snd (run_authorize w t inp ctx tc st)) = Some a'
         \<and> fst (authorize (w_authz w) t inp ctx a') = Permission_Allow (Reason_Session_Grant (env_now (w_authz w)) g) None)"
proof
  show "''allow_always'' \<notin> set (map option_id (rq_options (request_for t inp tc title msg rsn btns)))"
    using authorize_Ask [OF assms(3)] assms(2)
    by (auto simp: request_for_def permission_options_from_suggestions_def ask_buttons_def)
  obtain a1 where a1: "authorize (w_authz w) t inp ctx a = (Permission_Ask msg rsn btns, a1)"
    using assms(3) by (cases "authorize (w_authz w) t inp ctx a") simp
  then have "xs_authorizer (snd (run_authorize w t inp ctx tc st)) = Some (grant (w_authz w) t inp ctx a1)"
    using assms
    by (simp add: run_authorize_def ask_user_def request_for_def session_on_permission_def
        answer_of_option_def)
  moreover have "cache_check (env_host (w_authz w)) (ctx_session_id ctx) t inp
      (grants (grant (w_authz w) t inp ctx a1)) =
      Some (fst (cache_grant (env_host (w_authz w)) (env_now (w_authz w)) (ctx_session_id ctx) t inp (grants a1)))"
    by (simp add: grant_def cache_check_grant)
  ultimately show "\<exists>a' g. xs_authorizer (snd (run_authorize w t inp ctx tc st)) = Some a'
      \<and> fst (authorize (w_authz w) t inp ctx a') =
          Permission_Allow (Reason_Session_Grant (env_now (w_authz w)) g) None"
    by (auto dest!: authorize_granted simp: cache_grant_def Let_def)
qed

lemma unoffered_grant_witness:
  "\<exists>a' g. xs_authorizer (snd (run_authorize
      (sample_tool_world (\<lambda>_. []) (\<lambda>_. Inr (Some (''allow_always'', None)))) (sample_tool True) []
      (sample_ctx Default) sample_use (sample_exec (Some (sample_state []))))) = Some a'
    \<and> fst (authorize sample_env (sample_tool True) [] (sample_ctx Default) a') =
        Permission_Allow (Reason_Session_Grant 0 g) None"
  using unoffered_grant [of "sample_exec (Some (sample_state []))" "sample_state []" "sample_tool True" "[]"
      "sample_tool_world (\<lambda>_. []) (\<lambda>_. Inr (Some (''allow_always'', None)))" "sample_ctx Default"
      "''T (no tool-specific risk rule defined)''"
      "Reason_Default_Risk Low ''no tool-specific risk rule defined'' ''T''" "ask_buttons True" "''T''"
      "\<lambda>_. Inr (Some (''allow_always'', None))" sample_use None] sample_asks [of True]
  by (simp add: sample_env_def)

text \<open>
  A binary resource loses the result of a tool that ran: when the last frame of a call consists
  of text blocks and embedded resources and one resource carries no text, joining the texts raises,
  so the run ends without a tool result, without the post hook and without an error event.
\<close>

lemma blob_loses_result:
  assumes "w_call w t inp tctx = (evs, Call_Returned)"
    and "snd (relay_events (tu_id tc) evs None) = Some (bs, md)"
    and "list_all (\<lambda>b. text_attr b \<noteq> None) bs" "Resource_Block u mt None blob \<in> set bs"
  shows "call_tool w m tc t tctx inp st =
      (fst (relay_events (tu_id tc) evs None), Raised ''TypeError'',
       st\<lparr>xs_calls := xs_calls st @ [(tu_id tc, t_name t, inp)]\<rparr>)
    \<and> silent (fst (relay_events (tu_id tc) evs None))"
proof -
  have "coerce_content bs = Inl ''TypeError''"
    using assms(3,4) by (force simp: coerce_content_def)
  then show ?thesis
    using assms(1,2) relay_silent [of "tu_id tc" evs None]
    by (cases "relay_events (tu_id tc) evs None") (simp add: call_tool_def finish_run_def)
qed

lemma blob_loses_result_witness:
  "fst (snd (call_tool (sample_tool_world (\<lambda>_. [Tool_Final [Resource_Block ''f'' None None (Some ''AA'')] None])
      (\<lambda>_. Inr None)) Default sample_use (sample_tool False) () [] (sample_exec None))) = Raised ''TypeError''"
  using blob_loses_result [of "sample_tool_world (\<lambda>_. [Tool_Final [Resource_Block ''f'' None None (Some ''AA'')] None])
      (\<lambda>_. Inr None)" "sample_tool False" "[]" "()" _ sample_use "[Resource_Block ''f'' None None (Some ''AA'')]" None
      "''f''" None "Some ''AA''" Default "sample_exec None"]
  by (simp add: sample_tool_world_def sample_use_def)

end
