(* ===== verification/Executor.thy ===== *)
theory Executor
  imports Pipeline Tool_Registry "HOL-Library.Multiset"
begin

text \<open>
  \<open>orchestrator/tools_exec/executor.py\<close> and \<open>scheduler.py\<close>: the queue of tool calls, the serial path,
  and the concurrent batch as a machine of tasks that share a semaphore, each with its own output
  queue, and a merge that reads the queues in any order. A step is any task's or the merge's next
  action, so every schedule of the event loop is a run of the machine.
\<close>

section \<open>The executor\<close>

record tool_executor =
  te_queue :: "tool_use list"
  te_finalized :: bool
  te_discarded :: bool
  te_active :: "string set"

definition new_executor :: tool_executor where
  "new_executor = \<lparr>te_queue = [], te_finalized = False, te_discarded = False, te_active = {}\<rparr>"

definition add_tool :: "tool_use \<Rightarrow> tool_executor \<Rightarrow> tool_executor" where
  "add_tool tc x = (if \<not> te_discarded x then x\<lparr>te_queue := te_queue x @ [tc]\<rparr> else x)"

definition finalize_stream :: "tool_executor \<Rightarrow> tool_executor" where
  "finalize_stream x = x\<lparr>te_finalized := True\<rparr>"

text \<open>The second component is the tasks that are cancelled.\<close>

definition discard :: "tool_executor \<Rightarrow> tool_executor \<times> string set" where
  "discard x = (x\<lparr>te_discarded := True, te_queue := [], te_active := {}\<rparr>, te_active x)"

definition result_batches ::
    "(string \<Rightarrow> tool option) option \<Rightarrow> tool_executor \<Rightarrow> tool_use list list result" where
  "result_batches lookup x =
     (if \<not> te_finalized x then Inl ''results() called before finalize_stream()''
      else Inr (partition_tool_calls tu_name lookup (te_queue x)))"

text \<open>
  What a call's task yields: the unknown-tool pairs, or its pipeline's; an exception or a
  cancellation only cuts the output short.
\<close>

definition task_output ::
    "'c tool_world \<Rightarrow> permission_mode \<Rightarrow> (string \<Rightarrow> tool option) option \<Rightarrow> 'c \<Rightarrow> tool_use \<Rightarrow> 'c exec_state
       \<Rightarrow> 'c run" where
  "task_output w m lookup tctx tc st =
     (case Option.bind lookup (\<lambda>f. f (tu_name tc)) of
        None \<Rightarrow> (error_unknown_tool tc, Finished, st)
      | Some t \<Rightarrow> run_one w m tc t tctx (build_authorize_context w m) st)"

text \<open>The loop of \<open>results\<close>: \<open>stop k\<close> says whether the executor is discarded before batch \<open>k\<close>.\<close>

fun results_loop :: "(nat \<Rightarrow> bool) \<Rightarrow> nat \<Rightarrow> 'b list \<Rightarrow> 'b list" where
  "results_loop stop k [] = []"
| "results_loop stop k (b # bs) = (if stop k then [] else b # results_loop stop (Suc k) bs)"

section \<open>A concurrent batch\<close>

datatype phase = Waiting | Running | Ended

text \<open>
  A task: whether its tool is known (only then does it take a permit), what its pipeline still has
  to yield, its queue (\<open>None\<close> is the sentinel), whether the merge still listens to it, and whether
  it was cancelled.
\<close>

record 'p task_run =
  tk_known :: bool
  tk_rest :: "'p list"
  tk_phase :: phase
  tk_queue :: "'p option list"
  tk_open :: bool
  tk_cancelled :: bool

record 'p batch =
  b_tasks :: "'p task_run list"
  b_permits :: nat
  b_merged :: "(nat \<times> 'p) list"

definition new_tool_task :: "bool \<Rightarrow> 'p list \<Rightarrow> 'p task_run" where
  "new_tool_task known ps = \<lparr>tk_known = known, tk_rest = ps, tk_phase = Waiting, tk_queue = [],
     tk_open = True, tk_cancelled = False\<rparr>"

definition DEFAULT_MAX_CONCURRENCY :: nat where "DEFAULT_MAX_CONCURRENCY = 10"

definition new_batch :: "nat \<Rightarrow> (bool \<times> 'p list) list \<Rightarrow> 'p batch" where
  "new_batch n ts = \<lparr>b_tasks = map (\<lambda>(k, ps). new_tool_task k ps) ts, b_permits = n, b_merged = []\<rparr>"

datatype action = Start | Emit | Finish | Cancel | Take | Close

text \<open>
  One action of a task or of the merge on its queue, with the permits left and what is yielded;
  \<open>None\<close> where the action is not possible.
\<close>

fun task_step :: "action \<Rightarrow> nat \<Rightarrow> 'p task_run \<Rightarrow> ('p task_run \<times> nat \<times> 'p list) option" where
  "task_step Start n t =
     (if tk_phase t = Waiting \<and> (tk_known t \<longrightarrow> 0 < n)
      then Some (t\<lparr>tk_phase := Running\<rparr>, if tk_known t then n - 1 else n, []) else None)"
| "task_step Emit n t =
     (if tk_phase t = Running then
        (case tk_rest t of
           [] \<Rightarrow> None
         | p # ps \<Rightarrow> Some (t\<lparr>tk_rest := ps, tk_queue := tk_queue t @ [Some p]\<rparr>, n, []))
      else None)"
| "task_step Finish n t =
     (if tk_phase t = Running \<and> tk_rest t = []
      then Some (t\<lparr>tk_phase := Ended, tk_queue := tk_queue t @ [None]\<rparr>,
                 if tk_known t then n + 1 else n, []) else None)"
| "task_step Cancel n t =
     (if tk_phase t = Ended then None
      else Some (t\<lparr>tk_phase := Ended, tk_queue := tk_queue t @ [None], tk_cancelled := True\<rparr>,
                 if tk_known t \<and> tk_phase t = Running then n + 1 else n, []))"
| "task_step Take n t =
     (if tk_open t then
        (case tk_queue t of Some p # q \<Rightarrow> Some (t\<lparr>tk_queue := q\<rparr>, n, [p]) | _ \<Rightarrow> None)
      else None)"
| "task_step Close n t =
     (if tk_open t then
        (case tk_queue t of None # q \<Rightarrow> Some (t\<lparr>tk_queue := q, tk_open := False\<rparr>, n, []) | _ \<Rightarrow> None)
      else None)"

definition perform :: "action \<Rightarrow> nat \<Rightarrow> 'p batch \<Rightarrow> 'p batch option" where
  "perform a i b =
     (if i < length (b_tasks b) then
        (case task_step a (b_permits b) (b_tasks b ! i) of
           None \<Rightarrow> None
         | Some (t, n, ps) \<Rightarrow>
             Some \<lparr>b_tasks = (b_tasks b)[i := t], b_permits = n,
                   b_merged = b_merged b @ map (Pair i) ps\<rparr>)
      else None)"

inductive batch_step :: "'p batch \<Rightarrow> 'p batch \<Rightarrow> bool" where
  "perform a i b = Some b' \<Longrightarrow> batch_step b b'"

definition batch_done :: "'p batch \<Rightarrow> bool" where
  "batch_done b \<longleftrightarrow> (\<forall>t \<in> set (b_tasks b). \<not> tk_open t)"

definition delivered :: "nat \<Rightarrow> 'p batch \<Rightarrow> 'p list" where
  "delivered i b = map snd (filter (\<lambda>x. fst x = i) (b_merged b))"

section \<open>The invariant\<close>

definition holds_permit :: "'p task_run \<Rightarrow> bool" where
  "holds_permit t \<longleftrightarrow> tk_known t \<and> tk_phase t = Running"

abbreviation items :: "'p option list \<Rightarrow> 'p list" where
  "items q \<equiv> map the (filter (\<lambda>x. x \<noteq> None) q)"

text \<open>
  The queue of a task holds items only while the task is alive and the merge listens; after its end
  the sentinel is last, until the merge has read it.
\<close>

definition task_ok :: "'p task_run \<Rightarrow> bool" where
  "task_ok t \<longleftrightarrow>
     (if tk_phase t = Ended
      then (if tk_open t then \<exists>qs. tk_queue t = map Some qs @ [None] else tk_queue t = [])
           \<and> (tk_cancelled t \<or> tk_rest t = [])
      else tk_open t \<and> None \<notin> set (tk_queue t) \<and> \<not> tk_cancelled t)"

text \<open>What the merge delivered, what is queued and what is still to come make up the task's output.\<close>

definition accounted :: "'p list \<Rightarrow> 'p list \<Rightarrow> 'p task_run \<Rightarrow> bool" where
  "accounted out ps t \<longleftrightarrow> out @ items (tk_queue t) @ tk_rest t = ps"

definition batch_ok :: "nat \<Rightarrow> (bool \<times> 'p list) list \<Rightarrow> 'p batch \<Rightarrow> bool" where
  "batch_ok n ts b \<longleftrightarrow>
     length (b_tasks b) = length ts
     \<and> b_permits b + length (filter holds_permit (b_tasks b)) = n
     \<and> (\<forall>i < length ts. task_ok (b_tasks b ! i) \<and> tk_known (b_tasks b ! i) = fst (ts ! i)
          \<and> accounted (delivered i b) (snd (ts ! i)) (b_tasks b ! i))
     \<and> (\<forall>x \<in> set (b_merged b). fst x < length ts)"

lemma filter_update_length:
  "i < length xs \<Longrightarrow>
     length (filter P (xs[i := y])) + (if P (xs ! i) then 1 else 0) =
     length (filter P xs) + (if P y then 1 else 0)"
proof (induction xs arbitrary: i)
  case (Cons x xs)
  show ?case
  proof (cases i)
    case (Suc j)
    with Cons.prems Cons.IH [of j] show ?thesis by (simp split: if_splits)
  qed simp
qed simp

lemma ended_queue:
  "Some p # q = map Some qs @ [None] \<Longrightarrow> \<exists>ps. q = map Some ps @ [None]"
  "None # q = map Some qs @ [None] \<Longrightarrow> q = []"
  by (cases qs; auto)+

lemma no_sentinel: "None \<notin> set q \<Longrightarrow> \<exists>qs. q = map Some qs"
  by (induction q) (auto, metis list.simps(9) option.exhaust)

lemma task_step_ok:
  assumes "task_step a n t = Some (t', n', ps)" "task_ok t"
  shows "task_ok t' \<and> tk_known t' = tk_known t"
  using assms
  by (cases a)
     (auto simp: task_ok_def dest: no_sentinel ended_queue
       split: if_splits list.splits option.splits)

lemma task_step_accounted:
  assumes "task_step a n t = Some (t', n', ps)" "accounted out script t"
  shows "accounted (out @ ps) script t'"
  using assms
  by (cases a) (auto simp: accounted_def split: if_splits list.splits option.splits)

lemma task_step_permits:
  assumes "task_step a n t = Some (t', n', ps)"
  shows "n' + (if holds_permit t' then 1 else 0) = n + (if holds_permit t then 1 else 0)"
  using assms
  by (cases a) (auto simp: holds_permit_def split: if_splits list.splits option.splits)

lemma delivered_append: "delivered j (b\<lparr>b_merged := b_merged b @ map (Pair i) ps\<rparr>) =
    delivered j b @ (if i = j then ps else [])"
  by (induction ps) (auto simp: delivered_def)

lemma perform_eq_Some:
  "perform a i b = Some b' \<longleftrightarrow>
     (\<exists>t n ps. i < length (b_tasks b) \<and> task_step a (b_permits b) (b_tasks b ! i) = Some (t, n, ps)
        \<and> b' = \<lparr>b_tasks = (b_tasks b)[i := t], b_permits = n, b_merged = b_merged b @ map (Pair i) ps\<rparr>)"
  by (auto simp: perform_def split: option.splits prod.splits)

lemma delivered_perform:
  "delivered j \<lparr>b_tasks = ts, b_permits = n, b_merged = b_merged b @ map (Pair i) ps\<rparr> =
     delivered j b @ (if i = j then ps else [])"
  by (induction ps) (auto simp: delivered_def)

lemma new_batch_ok: "batch_ok n ts (new_batch n ts)"
  by (auto simp: batch_ok_def new_batch_def new_tool_task_def task_ok_def accounted_def delivered_def
      holds_permit_def case_prod_beta filter_empty_conv)

lemma perform_ok:
  assumes "batch_ok n ts b" "perform a i b = Some b'"
  shows "batch_ok n ts b'"
proof -
  obtain t k ps where i: "i < length ts" "i < length (b_tasks b)"
    and step: "task_step a (b_permits b) (b_tasks b ! i) = Some (t, k, ps)"
    and b': "b' = \<lparr>b_tasks = (b_tasks b)[i := t], b_permits = k, b_merged = b_merged b @ map (Pair i) ps\<rparr>"
    using assms by (auto simp: perform_eq_Some batch_ok_def)
  have t: "task_ok t" "tk_known t = fst (ts ! i)" "accounted (delivered i b @ ps) (snd (ts ! i)) t"
    using assms(1) i task_step_ok [OF step] task_step_accounted [OF step] by (auto simp: batch_ok_def)
  have "k + length (filter holds_permit ((b_tasks b)[i := t])) = n"
    using assms(1) i task_step_permits [OF step] filter_update_length [OF i(2), of holds_permit t]
    by (auto simp: batch_ok_def split: if_splits)
  moreover have "\<forall>j < length ts. task_ok ((b_tasks b)[i := t] ! j)
      \<and> tk_known ((b_tasks b)[i := t] ! j) = fst (ts ! j)
      \<and> accounted (delivered j b') (snd (ts ! j)) ((b_tasks b)[i := t] ! j)"
    using assms(1) t i by (auto simp: batch_ok_def b' delivered_perform nth_list_update)
  ultimately show ?thesis
    using assms(1) i by (auto simp: batch_ok_def b')
qed

inductive_cases batch_stepE: "batch_step b b'"

lemma batch_step_ok: "batch_ok n ts b \<Longrightarrow> batch_step b b' \<Longrightarrow> batch_ok n ts b'"
  by (auto elim!: batch_stepE intro: perform_ok)

lemma batch_reachable_ok: "batch_step\<^sup>*\<^sup>* (new_batch n ts) b \<Longrightarrow> batch_ok n ts b"
  by (induction rule: rtranclp_induct) (auto intro: new_batch_ok batch_step_ok)

section \<open>Progress\<close>

text \<open>What a task still has before it, as a number every action of its own or of the merge lowers.\<close>

definition task_work :: "'p task_run \<Rightarrow> nat" where
  "task_work t = (case tk_phase t of Waiting \<Rightarrow> 3 + 2 * length (tk_rest t)
     | Running \<Rightarrow> 2 + 2 * length (tk_rest t) | Ended \<Rightarrow> 0) + length (tk_queue t)"

definition batch_work :: "'p batch \<Rightarrow> nat" where
  "batch_work b = sum_list (map task_work (b_tasks b))"

lemma task_step_work: "task_step a n t = Some (t', n', ps) \<Longrightarrow> task_work t' < task_work t"
  by (cases a) (auto simp: task_work_def split: if_splits list.splits option.splits phase.splits)

lemma sum_list_update_less:
  fixes f :: "'a \<Rightarrow> nat"
  assumes "i < length xs" "f y < f (xs ! i)"
  shows "sum_list (map f (xs[i := y])) < sum_list (map f xs)"
  using assms
proof (induction xs arbitrary: i)
  case (Cons x xs)
  then show ?case by (cases i) auto
qed simp

lemma batch_step_work: "batch_step b b' \<Longrightarrow> batch_work b' < batch_work b"
  by (auto simp: perform_eq_Some batch_work_def elim!: batch_stepE
      intro!: sum_list_update_less task_step_work)

lemma batch_steps_work: "(batch_step ^^ k) b b' \<Longrightarrow> k + batch_work b' \<le> batch_work b"
proof (induction k arbitrary: b')
  case (Suc k)
  then obtain c where "(batch_step ^^ k) b c" "batch_step c b'" by auto
  with Suc.IH [of c] batch_step_work [of c b'] show ?case by simp
qed simp

lemma new_batch_work: "batch_work (new_batch n ts) = sum_list (map (\<lambda>t. 3 + 2 * length (snd t)) ts)"
  by (simp add: batch_work_def new_batch_def new_tool_task_def task_work_def case_prod_beta comp_def)

text \<open>A task some action other than a cancellation can move, or that waits for a permit.\<close>

lemma task_moves:
  assumes "task_ok t" "tk_open t"
  shows "(\<exists>a. a \<noteq> Cancel \<and> task_step a n t \<noteq> None) \<or> tk_phase t = Waiting \<and> tk_known t \<and> n = 0"
proof (cases "tk_phase t")
  case Waiting
  then have "task_step Start n t \<noteq> None \<or> tk_known t \<and> n = 0" by auto
  moreover have "Start \<noteq> Cancel" by simp
  ultimately show ?thesis using Waiting by blast
next
  case Running
  then have "task_step Emit n t \<noteq> None \<or> task_step Finish n t \<noteq> None"
    by (cases "tk_rest t") auto
  moreover have "Emit \<noteq> Cancel" "Finish \<noteq> Cancel" by simp_all
  ultimately show ?thesis by blast
next
  case Ended
  then obtain qs where "tk_queue t = map Some qs @ [None]" using assms by (auto simp: task_ok_def)
  then have "task_step Take n t \<noteq> None \<or> task_step Close n t \<noteq> None"
    using assms(2) by (cases qs) auto
  moreover have "Take \<noteq> Cancel" "Close \<noteq> Cancel" by simp_all
  ultimately show ?thesis by blast
qed

lemma running_moves: "tk_phase t = Running \<Longrightarrow> \<exists>a. a \<noteq> Cancel \<and> task_step a n t \<noteq> None"
  by (cases "tk_rest t") (rule exI [of _ Finish], simp, rule exI [of _ Emit], simp)

lemma batch_progress:
  assumes "batch_ok n ts b" "0 < n" "\<not> batch_done b"
  shows "\<exists>a i b'. a \<noteq> Cancel \<and> perform a i b = Some b'"
proof -
  have act: "\<exists>a i b'. a \<noteq> Cancel \<and> perform a i b = Some b'"
    if "j < length (b_tasks b)" "\<exists>a. a \<noteq> Cancel \<and> task_step a (b_permits b) (b_tasks b ! j) \<noteq> None" for j
  proof -
    from that(2) obtain a where a: "a \<noteq> Cancel" "task_step a (b_permits b) (b_tasks b ! j) \<noteq> None"
      by (elim exE conjE)
    from a(2) obtain t k ps where "task_step a (b_permits b) (b_tasks b ! j) = Some (t, k, ps)"
      by (metis not_None_eq prod_cases3)
    then have "perform a j b = Some \<lparr>b_tasks = (b_tasks b)[j := t], b_permits = k,
        b_merged = b_merged b @ map (Pair j) ps\<rparr>"
      using that(1) by (simp add: perform_def)
    with a(1) show ?thesis by (intro exI conjI)
  qed
  obtain i where i: "i < length (b_tasks b)" "tk_open (b_tasks b ! i)"
    using assms(3) by (auto simp: batch_done_def in_set_conv_nth)
  then have ok: "task_ok (b_tasks b ! i)" using assms(1) by (auto simp: batch_ok_def)
  show ?thesis
  proof (cases "b_permits b = 0")
    case False
    with task_moves [OF ok i(2), of "b_permits b"]
    have "\<exists>a. a \<noteq> Cancel \<and> task_step a (b_permits b) (b_tasks b ! i) \<noteq> None" by simp
    with i(1) show ?thesis by (rule act)
  next
    case True
    then have "length (filter holds_permit (b_tasks b)) \<noteq> 0"
      using assms(1,2) by (auto simp: batch_ok_def)
    then obtain t where "t \<in> set (b_tasks b)" "holds_permit t"
      by (metis filter_False list.size(3))
    then obtain j where j: "j < length (b_tasks b)" "tk_phase (b_tasks b ! j) = Running"
      by (auto simp: holds_permit_def in_set_conv_nth)
    from j(1) running_moves [OF j(2)] show ?thesis by (rule act)
  qed
qed

section \<open>What the merge yields\<close>

definition results_of :: "event_pair list \<Rightarrow> tool_result list" where
  "results_of ps = map the (filter (\<lambda>r. r \<noteq> None) (map snd ps))"

lemma results_of_simps [simp]:
  "results_of [] = []" "results_of (ps @ qs) = results_of ps @ results_of qs"
  "silent ps \<Longrightarrow> results_of ps = []"
  by (auto simp: results_of_def silent_def filter_empty_conv)

lemma one_result_results:
  assumes "one_result tc ps e"
  shows "map tr_tool_use_id (results_of ps) = (if e = Finished then [tu_id tc] else [])"
proof (cases "e = Finished")
  case True
  with assms obtain r where "ps \<noteq> []" "silent (butlast ps)" "snd (last ps) = Some r" "tr_tool_use_id r = tu_id tc"
    by (auto simp: one_result_def)
  moreover from this have "results_of ps = results_of (butlast ps) @ results_of [last ps]"
    by (metis append_butlast_last_id results_of_simps(2))
  ultimately show ?thesis using True by (simp add: results_of_def silent_def)
qed (use assms in \<open>simp add: one_result_def\<close>)

lemma sum_single: "k < n \<Longrightarrow> (\<Sum>i<n. if i = k then M else {#}) = (M :: 'a multiset)" for k n :: nat
  by (induction n) (auto simp: less_Suc_eq intro: sum.neutral)

lemma mset_by_index:
  fixes xs :: "(nat \<times> 'b) list"
  assumes "\<forall>x \<in> set xs. fst x < n"
  shows "mset xs = (\<Sum>i<n. mset (filter (\<lambda>x. fst x = i) xs))"
  using assms
proof (induction xs)
  case (Cons x xs)
  then have "fst x < n" by simp
  have "(\<Sum>i<n. mset (filter (\<lambda>y. fst y = i) (x # xs))) =
      (\<Sum>i<n. (if i = fst x then {#x#} else {#}) + mset (filter (\<lambda>y. fst y = i) xs))"
    by (rule sum.cong) auto
  also have "\<dots> = {#x#} + (\<Sum>i<n. mset (filter (\<lambda>y. fst y = i) xs))"
    using \<open>fst x < n\<close> sum_single [of "fst x" n "{#x#}"] by (simp add: sum.distrib)
  finally show ?case using Cons by simp
qed simp

lemma merged_results:
  assumes "\<forall>x \<in> set (b_merged b). fst x < n"
  shows "mset (results_of (map snd (b_merged b))) = (\<Sum>i<n. mset (results_of (delivered i b)))"
proof -
  define g where "g = (\<lambda>M :: (nat \<times> event_pair) multiset.
     image_mset the (filter_mset (\<lambda>r. r \<noteq> None) (image_mset (\<lambda>x. snd (snd x)) M)))"
  have g: "mset (results_of (map snd xs)) = g (mset xs)" for xs
    by (simp add: g_def results_of_def comp_def flip: mset_map mset_filter)
  have add: "g (\<Sum>i<k. f i) = (\<Sum>i<k. g (f i))" for f :: "nat \<Rightarrow> (nat \<times> event_pair) multiset" and k
    by (induction k) (simp_all add: g_def)
  have "g (mset (b_merged b)) = (\<Sum>i<n. g (mset (filter (\<lambda>x. fst x = i) (b_merged b))))"
    by (subst mset_by_index [OF assms]) (rule add)
  then show ?thesis by (simp only: g delivered_def)
qed

section \<open>Complete batches\<close>

lemma task_output_one_result:
  "task_output w m lookup tctx tc st = (ps, e, st') \<Longrightarrow> one_result tc ps e"
  by (auto simp: task_output_def error_unknown_tool_def error_tuple_def one_result_def
      dest!: run_one_one_result split: option.splits)

lemma done_delivered:
  assumes "batch_ok n ts b" "batch_done b" "i < length ts" "\<not> tk_cancelled (b_tasks b ! i)"
  shows "delivered i b = snd (ts ! i)"
proof -
  have "task_ok (b_tasks b ! i)" "\<not> tk_open (b_tasks b ! i)"
    "accounted (delivered i b) (snd (ts ! i)) (b_tasks b ! i)"
    using assms by (auto simp: batch_ok_def batch_done_def)
  with assms(4) show ?thesis
    by (auto simp: task_ok_def accounted_def split: if_splits)
qed

text \<open>A cancelled task delivers a prefix of its output.\<close>

lemma delivered_prefix:
  assumes "batch_ok n ts b" "i < length ts"
  shows "prefix (delivered i b) (snd (ts ! i))"
proof -
  have "accounted (delivered i b) (snd (ts ! i)) (b_tasks b ! i)"
    using assms by (auto simp: batch_ok_def)
  then show ?thesis by (metis accounted_def prefixI)
qed

lemma image_mset_sum: "image_mset f (\<Sum>i<n. g i) = (\<Sum>i<n. image_mset f (g i))" for n :: nat
  by (induction n) simp_all

lemma sum_filter_ids:
  assumes "length es = length tcs"
  shows "(\<Sum>i<length tcs. if es ! i = Finished then {#tu_id (tcs ! i)#} else {#}) =
    mset (map (tu_id \<circ> fst) (filter (\<lambda>p. snd p = Finished) (zip tcs es)))"
  using assms
proof (induction tcs arbitrary: es rule: rev_induct)
  case (snoc x xs zs)
  from snoc.prems obtain ys y where zs: "zs = ys @ [y]" "length ys = length xs"
    by (cases zs rule: rev_cases) auto
  have "(\<Sum>i<length xs. if (ys @ [y]) ! i = Finished then {#tu_id ((xs @ [x]) ! i)#} else {#}) =
      (\<Sum>i<length xs. if ys ! i = Finished then {#tu_id (xs ! i)#} else {#})"
    using zs by (intro sum.cong) (auto simp: nth_append)
  with snoc.IH [of ys] zs show ?case by (simp add: nth_append)
qed simp

fun perform_all :: "(action \<times> nat) list \<Rightarrow> 'p batch \<Rightarrow> 'p batch option" where
  "perform_all [] b = Some b"
| "perform_all ((a, i) # as) b = (case perform a i b of None \<Rightarrow> None | Some b' \<Rightarrow> perform_all as b')"

lemma perform_all_steps: "perform_all as b = Some b' \<Longrightarrow> (batch_step ^^ length as) b b'"
proof (induction as b rule: perform_all.induct)
  case (2 a i as b)
  then obtain c where c: "perform a i b = Some c" "perform_all as c = Some b'"
    by (auto split: option.splits)
  then have "batch_step b c" by (auto intro: batch_step.intros)
  moreover have "(batch_step ^^ length as) c b'" using 2 c by blast
  ultimately show ?case by (metis length_Cons relpowp_Suc_I2)
qed simp

end
