(* ===== verification/Executor_Properties.thy ===== *)
theory Executor_Properties
  imports Executor Pipeline_Properties
begin

text \<open>
  The properties of a concurrent batch of tool calls (\<open>orchestrator/tools_exec/scheduler.py\<close>): under
  every schedule the merge delivers each call's output in order and complete, the batch ends, and at
  most the permitted number of known tools run at a time.
\<close>

text \<open>
  C27: Whatever the schedule, a batch that ran to its end without a cancellation delivered, for every
  call, exactly the pairs its task yielded and in their order; so the tool results handed to the
  query loop are one for each call whose run finished, under that call's id, and no others.
\<close>

theorem batch_results:
  assumes "batch_step\<^sup>*\<^sup>* (new_batch n ts) b" "batch_done b"
    and "\<forall>t \<in> set (b_tasks b). \<not> tk_cancelled t"
    and "length ts = length tcs" "length es = length tcs"
    and "\<forall>i < length tcs. \<exists>lookup tctx st st'.
      task_output w m lookup tctx (tcs ! i) st = (snd (ts ! i), es ! i, st')"
  shows "(\<forall>i < length tcs. delivered i b = snd (ts ! i))
    \<and> mset (map tr_tool_use_id (results_of (map snd (b_merged b)))) =
        mset (map (tu_id \<circ> fst) (filter (\<lambda>p. snd p = Finished) (zip tcs es)))"
proof
  have ok: "batch_ok n ts b" using assms(1) by (rule batch_reachable_ok)
  then have len: "length (b_tasks b) = length tcs" "\<forall>x \<in> set (b_merged b). fst x < length tcs"
    using assms(4) by (auto simp: batch_ok_def)
  then show del: "\<forall>i < length tcs. delivered i b = snd (ts ! i)"
    using done_delivered [OF ok assms(2)] assms(3,4) by simp
  have one: "mset (map tr_tool_use_id (results_of (delivered i b))) =
      (if es ! i = Finished then {#tu_id (tcs ! i)#} else {#})" if "i < length tcs" for i
    using assms(6) that del task_output_one_result [THEN one_result_results, of w m _ _ "tcs ! i" _ "snd (ts ! i)" "es ! i"]
    by (fastforce split: if_splits)
  have "mset (map tr_tool_use_id (results_of (map snd (b_merged b)))) =
      (\<Sum>i<length tcs. mset (map tr_tool_use_id (results_of (delivered i b))))"
    using merged_results [OF len(2)] by (simp add: image_mset_sum)
  also have "\<dots> = (\<Sum>i<length tcs. if es ! i = Finished then {#tu_id (tcs ! i)#} else {#})"
    by (intro sum.cong refl one) simp
  also have "\<dots> = mset (map (tu_id \<circ> fst) (filter (\<lambda>p. snd p = Finished) (zip tcs es)))"
    using sum_filter_ids [OF assms(5)] .
  finally show "mset (map tr_tool_use_id (results_of (map snd (b_merged b)))) =
      mset (map (tu_id \<circ> fst) (filter (\<lambda>p. snd p = Finished) (zip tcs es)))" .
qed

lemma sample_batch_done:
  "\<exists>b. batch_step\<^sup>*\<^sup>* (new_batch 1 [(False, error_unknown_tool sample_use)]) b \<and> batch_done b
     \<and> (\<forall>t \<in> set (b_tasks b). \<not> tk_cancelled t)"
proof -
  let ?as = "map (\<lambda>a. (a, 0)) [Start, Emit, Take, Emit, Finish, Take, Close]"
  have "\<exists>b. perform_all ?as (new_batch 1 [(False, error_unknown_tool sample_use)]) = Some b
      \<and> batch_done b \<and> (\<forall>t \<in> set (b_tasks b). \<not> tk_cancelled t)"
    by (simp add: perform_def new_batch_def new_tool_task_def error_unknown_tool_def batch_done_def)
  then show ?thesis by (metis perform_all_steps relpowp_imp_rtranclp)
qed

theorem batch_results_witness:
  "\<exists>b. batch_step\<^sup>*\<^sup>* (new_batch 1 [(False, error_unknown_tool sample_use)]) b
     \<and> mset (map tr_tool_use_id (results_of (map snd (b_merged b)))) = {#''u''#}"
proof -
  obtain b where b: "batch_step\<^sup>*\<^sup>* (new_batch 1 [(False, error_unknown_tool sample_use)]) b"
    "batch_done b" "\<forall>t \<in> set (b_tasks b). \<not> tk_cancelled t"
    using sample_batch_done by blast
  have "\<exists>lookup tctx st st'. task_output (sample_tool_world (\<lambda>_. []) (\<lambda>_. Inr None)) Default lookup tctx
      sample_use st = (error_unknown_tool sample_use, Finished, st')"
    by (intro exI [of _ None] exI) (simp add: task_output_def)
  then have "\<forall>i < length [sample_use]. \<exists>lookup tctx st st'. task_output (sample_tool_world (\<lambda>_. []) (\<lambda>_. Inr None))
      Default lookup tctx ([sample_use] ! i) st
      = (snd ([(False, error_unknown_tool sample_use)] ! i), [Finished] ! i, st')" by simp
  from batch_results [OF b _ _ this] b(1) show ?thesis by auto
qed

text \<open>
  C28: A batch always ends: however its actions are scheduled, it takes at most three steps for each
  call and two for each pair a call yields; as long as a queue is still open some action other than a
  cancellation is possible (no deadlock on the semaphore or on a queue); and at every moment at most
  \<open>n\<close> known tools run.
\<close>

theorem batch_terminates:
  assumes "(batch_step ^^ k) (new_batch n ts) b" "0 < n"
  shows "k \<le> sum_list (map (\<lambda>t. 3 + 2 * length (snd t)) ts)
    \<and> (\<not> batch_done b \<longrightarrow> (\<exists>a i b'. a \<noteq> Cancel \<and> perform a i b = Some b'))
    \<and> length (filter holds_permit (b_tasks b)) \<le> n"
proof -
  have "batch_ok n ts b"
    using assms(1) by (intro batch_reachable_ok) (rule relpowp_imp_rtranclp)
  then show ?thesis
    using batch_steps_work [OF assms(1)] batch_progress [of n ts b] assms(2)
    by (auto simp: new_batch_work batch_ok_def)
qed

theorem batch_terminates_witness:
  "\<exists>b. (batch_step ^^ 1) (new_batch 1 [(True, [True]), (True, [])]) b
     \<and> length (filter holds_permit (b_tasks b)) \<le> 1 \<and> (\<exists>a i b'. a \<noteq> Cancel \<and> perform a i b = Some b')"
proof -
  obtain b where b: "perform_all [(Start, 0)] (new_batch 1 [(True, [True]), (True, [])]) = Some b"
    "\<not> batch_done b"
    by (simp add: perform_def new_batch_def new_tool_task_def batch_done_def)
  then have step: "(batch_step ^^ 1) (new_batch 1 [(True, [True]), (True, [])]) b"
    using perform_all_steps [OF b(1)] by simp
  from batch_terminates [OF this] b(2) step show ?thesis by auto
qed

end
