(* ===== verification/History.thy ===== *)
theory History
  imports Tool_Types
begin

text \<open>
  \<open>orchestrator/history/\<close> over the message types of \<open>llm/types.py\<close>: the conversation one orchestrator
  keeps, its token estimate, the thinking blocks it assembles, and the pairing of tool uses with tool
  results. The pairing rule of the providers, which the code's comments appeal to, is stated as a
  predicate on message lists. \<open>len_input\<close> is the length of Python's \<open>str\<close> of a tool input.
\<close>

section \<open>Messages\<close>

datatype media_block = Media_Text string | Media_Image string string

datatype result_content = Content_Text string | Content_Blocks "media_block list"

record result_block =
  rb_tool_use_id :: string
  rb_content :: result_content
  rb_is_error :: bool

datatype user_block = User_Text string | User_Image string string | User_Result result_block

datatype assistant_block =
  Assistant_Text string
| Assistant_Tool_Use string string dict
| Assistant_Thinking string string

datatype message = User_Message "user_block list" | Assistant_Message "assistant_block list"

definition is_user :: "message \<Rightarrow> bool" where
  "is_user m = (case m of User_Message _ \<Rightarrow> True | Assistant_Message _ \<Rightarrow> False)"

fun use_ids :: "assistant_block list \<Rightarrow> string list" where
  "use_ids [] = []"
| "use_ids (Assistant_Tool_Use i n d # bs) = i # use_ids bs"
| "use_ids (_ # bs) = use_ids bs"

fun result_ids :: "user_block list \<Rightarrow> string list" where
  "result_ids [] = []"
| "result_ids (User_Result r # bs) = rb_tool_use_id r # result_ids bs"
| "result_ids (_ # bs) = result_ids bs"

definition uses_of :: "message \<Rightarrow> string list" where
  "uses_of m = (case m of Assistant_Message bs \<Rightarrow> use_ids bs | User_Message _ \<Rightarrow> [])"

definition answers_of :: "message \<Rightarrow> string list" where
  "answers_of m = (case m of User_Message bs \<Rightarrow> result_ids bs | Assistant_Message _ \<Rightarrow> [])"

section \<open>Thinking blocks\<close>

text \<open>A thought chunk is its content and its signature, the empty string when it has none.\<close>

record thought_accumulator =
  content_parts :: "string list"
  ta_signature :: string

definition add_content :: "string \<Rightarrow> thought_accumulator \<Rightarrow> thought_accumulator" where
  "add_content s acc = (if s \<noteq> [] then acc\<lparr>content_parts := content_parts acc @ [s]\<rparr> else acc)"

definition add_signature :: "string \<Rightarrow> thought_accumulator \<Rightarrow> thought_accumulator" where
  "add_signature s acc = (if s \<noteq> [] then acc\<lparr>ta_signature := s\<rparr> else acc)"

definition build_thinking :: "thought_accumulator \<Rightarrow> assistant_block option" where
  "build_thinking acc =
     (let content = concat (content_parts acc) in
      if content = [] \<and> ta_signature acc = [] then None
      else Some (Assistant_Thinking content (ta_signature acc)))"

definition assemble_thinking :: "(string \<times> string) list \<Rightarrow> assistant_block option" where
  "assemble_thinking thoughts =
     (if thoughts = [] then None
      else build_thinking
        (fold (\<lambda>(content, sig) acc. if sig \<noteq> [] then add_signature sig acc else add_content content acc)
           thoughts \<lparr>content_parts = [], ta_signature = []\<rparr>))"

section \<open>Token estimates\<close>

definition CHARS_PER_TOKEN :: nat where "CHARS_PER_TOKEN = 4"

fun media_chars :: "media_block \<Rightarrow> nat" where
  "media_chars (Media_Text s) = length s"
| "media_chars (Media_Image _ _) = 0"

fun content_char_count :: "result_content \<Rightarrow> nat" where
  "content_char_count (Content_Text s) = length s"
| "content_char_count (Content_Blocks bs) = sum_list (map media_chars bs)"

fun user_chars :: "user_block \<Rightarrow> nat" where
  "user_chars (User_Text s) = length s"
| "user_chars (User_Image _ _) = 0"
| "user_chars (User_Result r) = content_char_count (rb_content r)"

fun assistant_chars :: "(dict \<Rightarrow> nat) \<Rightarrow> assistant_block \<Rightarrow> nat" where
  "assistant_chars len_input (Assistant_Text s) = length s"
| "assistant_chars len_input (Assistant_Thinking s _) = length s"
| "assistant_chars len_input (Assistant_Tool_Use _ n d) = length n + len_input d"

definition message_chars :: "(dict \<Rightarrow> nat) \<Rightarrow> message \<Rightarrow> nat" where
  "message_chars len_input m =
     (case m of
        User_Message bs \<Rightarrow> sum_list (map user_chars bs)
      | Assistant_Message bs \<Rightarrow> sum_list (map (assistant_chars len_input) bs))"

definition estimate_tokens_for :: "(dict \<Rightarrow> nat) \<Rightarrow> message list \<Rightarrow> int" where
  "estimate_tokens_for len_input ms =
     int (max 1 (sum_list (map (message_chars len_input) ms) div CHARS_PER_TOKEN))"

section \<open>The history\<close>

record history =
  h_messages :: "message list"
  h_token_count :: int
  h_tool_kinds :: "string \<rightharpoonup> tool_kind"

definition new_history :: "(dict \<Rightarrow> nat) \<Rightarrow> message list option \<Rightarrow> history" where
  "new_history len_input initial =
     (let ms = (case initial of Some ms \<Rightarrow> ms | None \<Rightarrow> []) in
      \<lparr>h_messages = ms, h_token_count = estimate_tokens_for len_input ms, h_tool_kinds = Map.empty\<rparr>)"

definition push_message :: "(dict \<Rightarrow> nat) \<Rightarrow> message \<Rightarrow> history \<Rightarrow> history" where
  "push_message len_input m h =
     h\<lparr>h_messages := h_messages h @ [m],
       h_token_count := h_token_count h + estimate_tokens_for len_input [m]\<rparr>"

definition append_user :: "(dict \<Rightarrow> nat) \<Rightarrow> string list \<Rightarrow> history \<Rightarrow> history" where
  "append_user len_input texts h = push_message len_input (User_Message (map User_Text texts)) h"

definition append_assistant ::
    "(dict \<Rightarrow> nat) \<Rightarrow> string \<Rightarrow> (string \<times> string) list \<Rightarrow> (string \<times> string \<times> dict) list
       \<Rightarrow> history \<Rightarrow> history" where
  "append_assistant len_input s thoughts calls h =
     (let content =
        (case assemble_thinking thoughts of Some b \<Rightarrow> [b] | None \<Rightarrow> [])
        @ (if s \<noteq> [] then [Assistant_Text s] else [])
        @ map (\<lambda>(i, n, d). Assistant_Tool_Use i n d) calls
      in if content = [] then h else push_message len_input (Assistant_Message content) h)"

definition append_tool_results :: "(dict \<Rightarrow> nat) \<Rightarrow> result_block list \<Rightarrow> history \<Rightarrow> history" where
  "append_tool_results len_input rs h =
     (if rs = [] then h else push_message len_input (User_Message (map User_Result rs)) h)"

definition record_tool_kind :: "string \<Rightarrow> tool_kind \<Rightarrow> history \<Rightarrow> history" where
  "record_tool_kind i k h = h\<lparr>h_tool_kinds := (h_tool_kinds h)(i \<mapsto> k)\<rparr>"

definition tool_kind_for :: "string \<Rightarrow> history \<Rightarrow> tool_kind option" where
  "tool_kind_for i h = h_tool_kinds h i"

definition pop_last_assistant :: "(dict \<Rightarrow> nat) \<Rightarrow> history \<Rightarrow> bool \<times> history" where
  "pop_last_assistant len_input h =
     (if h_messages h \<noteq> [] \<and> \<not> is_user (last (h_messages h))
      then (True, h\<lparr>h_messages := butlast (h_messages h),
                    h_token_count := estimate_tokens_for len_input (butlast (h_messages h))\<rparr>)
      else (False, h))"

definition update_token_count :: "int \<Rightarrow> int \<Rightarrow> history \<Rightarrow> history" where
  "update_token_count inp out h = (if 0 < inp then h\<lparr>h_token_count := inp + out\<rparr> else h)"

text \<open>The scan from the end for the last assistant message, and what follows it.\<close>

fun split_last_assistant :: "message list \<Rightarrow> (assistant_block list \<times> message list) option" where
  "split_last_assistant [] = None"
| "split_last_assistant (m # ms) =
     (case split_last_assistant ms of
        Some r \<Rightarrow> Some r
      | None \<Rightarrow> (case m of Assistant_Message bs \<Rightarrow> Some (bs, ms) | User_Message _ \<Rightarrow> None))"

definition pending_tool_use_ids :: "message list \<Rightarrow> string list" where
  "pending_tool_use_ids ms =
     (case split_last_assistant ms of
        None \<Rightarrow> []
      | Some (bs, rest) \<Rightarrow>
          (let answered = set (concat (map answers_of rest))
           in filter (\<lambda>i. i \<notin> answered) (use_ids bs)))"

definition user_indices :: "message list \<Rightarrow> nat list" where
  "user_indices ms = filter (\<lambda>i. is_user (ms ! i)) [0 ..< length ms]"

definition find_compaction_boundary :: "nat \<Rightarrow> message list \<Rightarrow> nat" where
  "find_compaction_boundary keep ms =
     (let us = user_indices ms in
      if length us \<le> keep then 0 else us ! (if keep = 0 then 0 else length us - keep))"

definition replace_with_compacted ::
    "(dict \<Rightarrow> nat) \<Rightarrow> string \<Rightarrow> nat \<Rightarrow> string option \<Rightarrow> history \<Rightarrow> history" where
  "replace_with_compacted len_input summary boundary header h =
     (let s = (case header of
                 Some x \<Rightarrow> if x \<noteq> [] then x else ''Prior conversation summary:'' @ [CHR 0x0A] @ summary
               | None \<Rightarrow> ''Prior conversation summary:'' @ [CHR 0x0A] @ summary);
          ms = User_Message [User_Text s] # drop boundary (h_messages h)
      in h\<lparr>h_messages := ms, h_token_count := estimate_tokens_for len_input ms\<rparr>)"

section \<open>Pairing\<close>

text \<open>
  What providers require of a conversation: an assistant message's tool uses are all answered by the
  very next message, and a message answers nothing else. The first argument is the uses still open.
  A conversation may end with open uses: the executor is running them.
\<close>

fun paired_from :: "string list \<Rightarrow> message list \<Rightarrow> bool" where
  "paired_from opened [] = True"
| "paired_from opened (User_Message bs # ms) =
     (set (result_ids bs) = set opened \<and> paired_from [] ms)"
| "paired_from opened (Assistant_Message bs # ms) = (opened = [] \<and> paired_from (use_ids bs) ms)"

abbreviation paired :: "message list \<Rightarrow> bool" where "paired ms \<equiv> paired_from [] ms"

fun still_open :: "string list \<Rightarrow> message list \<Rightarrow> string list" where
  "still_open opened [] = opened"
| "still_open opened (m # ms) = still_open (uses_of m) ms"

lemma paired_append [simp]:
  "paired_from p (xs @ ys) \<longleftrightarrow> paired_from p xs \<and> paired_from (still_open p xs) ys"
  by (induction p xs rule: paired_from.induct) (auto simp: uses_of_def)

lemma paired_Cons:
  "paired_from p (m # ms) \<longleftrightarrow>
     (if is_user m then set (answers_of m) = set p else p = []) \<and> paired_from (uses_of m) ms"
  by (cases m) (auto simp: uses_of_def answers_of_def is_user_def)

lemma still_open_append [simp]: "still_open p (xs @ ys) = still_open (still_open p xs) ys"
  by (induction xs arbitrary: p) auto

text \<open>Pairing, pending uses and the boundary look at a message through this view only.\<close>

definition view :: "message \<Rightarrow> bool \<times> string list \<times> string list" where
  "view m = (is_user m, uses_of m, answers_of m)"

lemma view_simps [simp]:
  "view (User_Message us) = (True, [], result_ids us)"
  "view (Assistant_Message bs) = (False, use_ids bs, [])"
  by (simp_all add: view_def is_user_def uses_of_def answers_of_def)

lemma paired_view:
  "map view ms = map view ms' \<Longrightarrow> paired_from p ms = paired_from p ms'"
proof (induction ms arbitrary: ms' p)
  case (Cons m ms)
  then obtain m' rest where ms': "ms' = m' # rest" "view m' = view m" "map view ms = map view rest"
    by (cases ms') auto
  then show ?case using Cons.IH [of rest]
    by (cases m; cases m') auto
qed simp

lemma still_open_view: "map view ms = map view ms' \<Longrightarrow> still_open p ms = still_open p ms'"
proof (induction ms arbitrary: ms' p)
  case (Cons m ms)
  then obtain m' rest where "ms' = m' # rest" "view m' = view m" "map view ms = map view rest"
    by (cases ms') auto
  moreover from this(2) have "uses_of m' = uses_of m" by (simp add: view_def)
  ultimately show ?case using Cons.IH [of rest] by simp
qed simp

lemma boundary_view:
  assumes "map is_user ms = map is_user ms'"
  shows "find_compaction_boundary keep ms = find_compaction_boundary keep ms'"
proof -
  have len: "length ms = length ms'" using assms by (rule map_eq_imp_length_eq)
  then have "is_user (ms ! i) = is_user (ms' ! i)" if "i < length ms" for i
    using assms that by (metis nth_map)
  with len have "user_indices ms = user_indices ms'"
    unfolding user_indices_def by (intro filter_cong) auto
  then show ?thesis by (simp add: find_compaction_boundary_def)
qed

lemma view_is_user: "map view ms = map view ms' \<Longrightarrow> map is_user ms = map is_user ms'"
  by (drule arg_cong [of _ _ "map fst"]) (simp add: view_def comp_def)

section \<open>Where the boundary falls\<close>

lemma boundary_user:
  assumes "find_compaction_boundary keep ms = b" "0 < b"
  shows "b < length ms \<and> is_user (ms ! b)"
proof -
  have "b \<in> set (user_indices ms)"
    using assms by (auto simp: find_compaction_boundary_def Let_def split: if_splits intro!: nth_mem)
  then show ?thesis by (auto simp: user_indices_def)
qed

lemma boundary_le: "find_compaction_boundary keep ms \<le> length ms"
  using boundary_user [of keep ms] by (cases "find_compaction_boundary keep ms = 0") fastforce+

section \<open>Pending uses\<close>

lemma split_last_append:
  "split_last_assistant (ms @ [User_Message bs]) =
     map_option (map_prod id (\<lambda>r. r @ [User_Message bs])) (split_last_assistant ms)"
  by (induction ms) (auto split: option.splits message.splits)

lemma split_last_assistant_snoc [simp]:
  "split_last_assistant (ms @ [Assistant_Message bs]) = Some (bs, [])"
  by (induction ms) auto

lemma pending_assistant [simp]: "pending_tool_use_ids (ms @ [Assistant_Message bs]) = use_ids bs"
  by (simp add: pending_tool_use_ids_def)

lemma pending_results [simp]:
  "pending_tool_use_ids (ms @ [Assistant_Message bs, User_Message us]) =
     filter (\<lambda>i. i \<notin> set (result_ids us)) (use_ids bs)"
  using split_last_append [of "ms @ [Assistant_Message bs]" us]
  by (simp add: pending_tool_use_ids_def answers_of_def)

lemma use_ids_append [simp]: "use_ids (xs @ ys) = use_ids xs @ use_ids ys"
  by (induction xs rule: use_ids.induct) auto

lemma use_ids_calls [simp]: "use_ids (map (\<lambda>(i, n, d). Assistant_Tool_Use i n d) calls) = map fst calls"
  by (induction calls) auto

lemma result_ids_results [simp]: "result_ids (map User_Result rs) = map rb_tool_use_id rs"
  by (induction rs) auto

lemma use_ids_thinking: "assemble_thinking ts = Some b \<Longrightarrow> use_ids [b] = []"
  by (auto simp: assemble_thinking_def build_thinking_def Let_def split: if_splits)

lemma append_assistant_messages:
  assumes "calls \<noteq> []"
  shows "\<exists>bs. h_messages (append_assistant li s ts calls h) = h_messages h @ [Assistant_Message bs]
    \<and> use_ids bs = map fst calls"
proof -
  let ?bs = "(case assemble_thinking ts of Some b \<Rightarrow> [b] | None \<Rightarrow> [])
        @ (if s \<noteq> [] then [Assistant_Text s] else []) @ map (\<lambda>(i, n, d). Assistant_Tool_Use i n d) calls"
  have "h_messages (append_assistant li s ts calls h) = h_messages h @ [Assistant_Message ?bs]"
    using assms by (simp add: append_assistant_def push_message_def Let_def)
  moreover have "use_ids ?bs = map fst calls"
    using use_ids_thinking [of ts] by (auto split: option.splits)
  ultimately show ?thesis by blast
qed

text \<open>A conversation with no open use is a complete one: nothing is pending in it.\<close>

definition settled :: "message list \<Rightarrow> bool" where
  "settled ms \<longleftrightarrow> paired ms \<and> still_open [] ms = []"

lemma split_last_assistant_Some:
  "split_last_assistant ms = Some (bs, rest) \<Longrightarrow>
     \<exists>pre. ms = pre @ Assistant_Message bs # rest \<and> (\<forall>m \<in> set rest. is_user m)"
proof (induction ms)
  case (Cons m ms)
  show ?case
  proof (cases "split_last_assistant ms")
    case None
    have "split_last_assistant xs = None \<Longrightarrow> \<forall>m \<in> set xs. is_user m" for xs
      by (induction xs) (auto simp: is_user_def split: option.splits message.splits)
    with None Cons.prems show ?thesis by (auto split: message.splits)
  next
    case (Some r)
    with Cons show ?thesis by (metis Cons_eq_appendI option.simps(5) split_last_assistant.simps(2))
  qed
qed simp

lemma settled_pending:
  assumes "settled ms"
  shows "pending_tool_use_ids ms = []"
proof (cases "split_last_assistant ms")
  case (Some r)
  obtain bs rest where "r = (bs, rest)" by force
  then obtain pre where ms: "ms = pre @ Assistant_Message bs # rest" "\<forall>m \<in> set rest. is_user m"
    using split_last_assistant_Some Some by blast
  show ?thesis
  proof (cases rest)
    case Nil
    then have "use_ids bs = []" using assms ms by (auto simp: settled_def uses_of_def)
    then show ?thesis using Some \<open>r = (bs, rest)\<close> by (simp add: pending_tool_use_ids_def)
  next
    case (Cons u us)
    then have "set (answers_of u) = set (use_ids bs)"
      using assms ms by (auto simp: settled_def uses_of_def paired_Cons)
    then show ?thesis
      using Some \<open>r = (bs, rest)\<close> Cons by (auto simp: pending_tool_use_ids_def filter_empty_conv)
  qed
qed (simp add: pending_tool_use_ids_def)

lemma settled_user [simp]: "settled ms \<Longrightarrow> settled (ms @ [User_Message (map User_Text ts)])"
proof -
  have "result_ids (map User_Text ts) = []" by (induction ts) auto
  then show "settled ms \<Longrightarrow> settled (ms @ [User_Message (map User_Text ts)])"
    by (simp add: settled_def uses_of_def)
qed

lemma settled_snoc_assistant: "settled (ms @ [Assistant_Message bs]) \<Longrightarrow> settled ms"
  by (simp add: settled_def)

lemma settled_assistant: "settled ms \<Longrightarrow> use_ids bs = [] \<Longrightarrow> settled (ms @ [Assistant_Message bs])"
  by (simp add: settled_def uses_of_def)

lemma settled_round:
  "settled ms \<Longrightarrow> set (result_ids us) = set (use_ids bs) \<Longrightarrow>
     settled (ms @ [Assistant_Message bs, User_Message us])"
  by (simp add: settled_def uses_of_def)

lemma append_assistant_plain:
  "\<exists>bs. use_ids bs = map fst calls
     \<and> (h_messages (append_assistant li s ts calls h) = h_messages h @ [Assistant_Message bs]
        \<or> calls = [] \<and> append_assistant li s ts calls h = h)"
proof -
  let ?bs = "(case assemble_thinking ts of Some b \<Rightarrow> [b] | None \<Rightarrow> [])
        @ (if s \<noteq> [] then [Assistant_Text s] else []) @ map (\<lambda>(i, n, d). Assistant_Tool_Use i n d) calls"
  have "use_ids ?bs = map fst calls"
    using use_ids_thinking [of ts] by (auto split: option.splits)
  moreover have "h_messages (append_assistant li s ts calls h) = h_messages h @ [Assistant_Message ?bs]
      \<or> calls = [] \<and> append_assistant li s ts calls h = h"
    by (simp add: append_assistant_def push_message_def Let_def)
  ultimately show ?thesis by blast
qed

lemma pop_settled:
  "settled (h_messages h) \<Longrightarrow> settled (h_messages (snd (pop_last_assistant li h)))"
proof (cases "h_messages h" rule: rev_cases)
  case (snoc ms m)
  assume "settled (h_messages h)"
  with snoc show ?thesis
    by (cases m) (auto simp: pop_last_assistant_def is_user_def dest: settled_snoc_assistant)
qed (simp add: pop_last_assistant_def)

end
