(* ===== verification/Compaction.thy ===== *)
theory Compaction
  imports History Classifier
begin

text \<open>
  \<open>orchestrator/compact/\<close> and \<open>prepare_history\<close> of \<open>loop/steps.py\<close>: the four passes that shrink a
  conversation - snipping read-only results, removing read-only pairs, stripping media, and
  replacing the old prefix by a summary the model writes. \<open>show_input\<close> is Python's \<open>str\<close> of a tool
  input, \<open>show_content\<close> that of a list of content blocks.
\<close>

section \<open>Rendering\<close>

definition is_read_only_assistant :: "(string \<rightharpoonup> tool_kind) \<Rightarrow> assistant_block list \<Rightarrow> bool" where
  "is_read_only_assistant kinds bs =
     (bs \<noteq> [] \<and> list_all (\<lambda>b. case b of
        Assistant_Tool_Use i _ _ \<Rightarrow> (case kinds i of Some k \<Rightarrow> is_read_only k | None \<Rightarrow> False)
      | _ \<Rightarrow> False) bs)"

definition is_tool_result_only :: "user_block list \<Rightarrow> bool" where
  "is_tool_result_only bs =
     (bs \<noteq> [] \<and> list_all (\<lambda>b. case b of User_Result _ \<Rightarrow> True | _ \<Rightarrow> False) bs)"

definition render_result :: "(media_block list \<Rightarrow> string) \<Rightarrow> result_content \<Rightarrow> string" where
  "render_result show_content c =
     (case c of Content_Text s \<Rightarrow> s | Content_Blocks bs \<Rightarrow> take 200 (show_content bs))"

definition render_user :: "(media_block list \<Rightarrow> string) \<Rightarrow> user_block \<Rightarrow> string list" where
  "render_user show_content b =
     (case b of
        User_Text s \<Rightarrow> [s]
      | User_Image _ _ \<Rightarrow> []
      | User_Result r \<Rightarrow> [''[tool_result: '' @ render_result show_content (rb_content r) @ '']''])"

definition render_assistant :: "(dict \<Rightarrow> string) \<Rightarrow> assistant_block \<Rightarrow> string list" where
  "render_assistant show_input b =
     (case b of
        Assistant_Text s \<Rightarrow> [s]
      | Assistant_Thinking s _ \<Rightarrow> [''[thinking: '' @ take 200 s @ [CHR 0x99] @ '']'']
      | Assistant_Tool_Use _ n d \<Rightarrow> [''[tool_use: '' @ n @ ''('' @ show_input d @ '')]''])"

definition render_line ::
    "(dict \<Rightarrow> string) \<Rightarrow> (media_block list \<Rightarrow> string) \<Rightarrow> message \<Rightarrow> string list" where
  "render_line show_input show_content m =
     (let (role, parts) =
        (case m of
           User_Message bs \<Rightarrow> (''User'', concat (map (render_user show_content) bs))
         | Assistant_Message bs \<Rightarrow> (''Assistant'', concat (map (render_assistant show_input) bs)))
      in if parts = [] then [] else [role @ '': '' @ join ''  '' parts])"

definition render_messages ::
    "(dict \<Rightarrow> string) \<Rightarrow> (media_block list \<Rightarrow> string) \<Rightarrow> message list \<Rightarrow> string" where
  "render_messages show_input show_content ms =
     join nl (concat (map (render_line show_input show_content) ms))"

section \<open>Snipping read-only results\<close>

definition snip_note :: "nat \<Rightarrow> string" where
  "snip_note n = ''[result snipped '' @ [CHR 0x97] @ '' '' @ show_nat n @ '' chars]''"

text \<open>The block and the characters it freed.\<close>

definition snip_block :: "(string \<rightharpoonup> tool_kind) \<Rightarrow> user_block \<Rightarrow> user_block \<times> nat" where
  "snip_block kinds b =
     (case b of
        User_Result r \<Rightarrow>
          (if rb_is_error r then (b, 0)
           else (case kinds (rb_tool_use_id r) of
                   Some k \<Rightarrow>
                     (let n = content_char_count (rb_content r) in
                      if is_read_only k \<and> 0 < n
                      then (User_Result \<lparr>rb_tool_use_id = rb_tool_use_id r,
                              rb_content = Content_Text (snip_note n), rb_is_error = False\<rparr>, n)
                      else (b, 0))
                 | None \<Rightarrow> (b, 0)))
      | _ \<Rightarrow> (b, 0))"

definition snip_message :: "(string \<rightharpoonup> tool_kind) \<Rightarrow> message \<Rightarrow> message \<times> nat" where
  "snip_message kinds m =
     (case m of
        Assistant_Message _ \<Rightarrow> (m, 0)
      | User_Message bs \<Rightarrow>
          (User_Message (map (\<lambda>b. fst (snip_block kinds b)) bs),
           sum_list (map (\<lambda>b. snd (snip_block kinds b)) bs)))"

definition snip_read_only_results ::
    "(dict \<Rightarrow> nat) \<Rightarrow> nat \<Rightarrow> history \<Rightarrow> nat \<times> history" where
  "snip_read_only_results len_input keep h =
     (let ms = h_messages h; boundary = find_compaction_boundary keep ms in
      if boundary = 0 then (0, h)
      else (let old = map (snip_message (h_tool_kinds h)) (take boundary ms);
                freed = sum_list (map snd old);
                ms' = map fst old @ drop boundary ms
            in if 0 < freed
               then (freed, h\<lparr>h_messages := ms', h_token_count := estimate_tokens_for len_input ms'\<rparr>)
               else (0, h\<lparr>h_messages := ms'\<rparr>)))"

section \<open>Removing read-only pairs\<close>

text \<open>The scan over the messages before the boundary, from index \<open>i\<close>: the indices to remove.\<close>

fun pair_indices :: "(string \<rightharpoonup> tool_kind) \<Rightarrow> nat \<Rightarrow> message list \<Rightarrow> nat list" where
  "pair_indices kinds i (Assistant_Message a # User_Message u # ms) =
     (if is_read_only_assistant kinds a \<and> is_tool_result_only u
      then i # Suc i # pair_indices kinds (i + 2) ms
      else pair_indices kinds (Suc i) (User_Message u # ms))"
| "pair_indices kinds i (m # ms) = pair_indices kinds (Suc i) ms"
| "pair_indices kinds i [] = []"

definition removal_marker :: "nat \<Rightarrow> message" where
  "removal_marker n = User_Message [User_Text (''['' @ show_nat n @ '' read-only tool calls removed]'')]"

definition insert_at :: "nat \<Rightarrow> 'a \<Rightarrow> 'a list \<Rightarrow> 'a list" where
  "insert_at k x xs = take k xs @ x # drop k xs"

definition remove_read_only_pairs ::
    "(dict \<Rightarrow> nat) \<Rightarrow> nat \<Rightarrow> history \<Rightarrow> nat \<times> history" where
  "remove_read_only_pairs len_input keep h =
     (let ms = h_messages h; boundary = find_compaction_boundary keep ms in
      if boundary \<le> 1 then (0, h)
      else (let pre = take boundary ms; gone = pair_indices (h_tool_kinds h) 0 pre in
            if gone = [] then (0, h)
            else (let pairs = length gone div 2;
                      kept = map (\<lambda>j. pre ! j) (filter (\<lambda>j. j \<notin> set gone) [0 ..< length pre]);
                      ms' = insert_at (min (Min (set gone)) (length kept)) (removal_marker pairs) kept
                            @ drop boundary ms
                  in (pairs, h\<lparr>h_messages := ms', h_token_count := estimate_tokens_for len_input ms'\<rparr>))))"

section \<open>Stripping media\<close>

definition image_note :: string where
  "image_note = ''[image removed '' @ [CHR 0x97] @ '' media size limit]''"

definition is_image :: "media_block \<Rightarrow> bool" where
  "is_image b = (case b of Media_Image _ _ \<Rightarrow> True | Media_Text _ \<Rightarrow> False)"

definition strip_tool_result_media :: "result_block \<Rightarrow> result_block \<times> nat" where
  "strip_tool_result_media r =
     (case rb_content r of
        Content_Text _ \<Rightarrow> (r, 0)
      | Content_Blocks bs \<Rightarrow>
          (let n = length (filter is_image bs) in
           if n = 0 then (r, 0)
           else (r\<lparr>rb_content := Content_Blocks (map (\<lambda>b. if is_image b then Media_Text image_note else b) bs)\<rparr>, n)))"

definition strip_user_block :: "user_block \<Rightarrow> user_block \<times> nat" where
  "strip_user_block b =
     (case b of
        User_Image _ _ \<Rightarrow> (User_Text image_note, 1)
      | User_Result r \<Rightarrow> (let (r', n) = strip_tool_result_media r in (User_Result r', n))
      | User_Text _ \<Rightarrow> (b, 0))"

definition strip_message :: "message \<Rightarrow> message \<times> nat" where
  "strip_message m =
     (case m of
        Assistant_Message _ \<Rightarrow> (m, 0)
      | User_Message bs \<Rightarrow>
          (User_Message (map (\<lambda>b. fst (strip_user_block b)) bs),
           sum_list (map (\<lambda>b. snd (strip_user_block b)) bs)))"

definition strip_media :: "(dict \<Rightarrow> nat) \<Rightarrow> history \<Rightarrow> nat \<times> history" where
  "strip_media len_input h =
     (let old = map strip_message (h_messages h); n = sum_list (map snd old); ms = map fst old in
      if 0 < n then (n, h\<lparr>h_messages := ms, h_token_count := estimate_tokens_for len_input ms\<rparr>)
      else (0, h\<lparr>h_messages := ms\<rparr>))"

section \<open>Summarising\<close>

text \<open>
  The summariser's dependencies: \<open>cd_stream\<close> what the provider streams for a user text, with the
  exception that ended it if one did, \<open>None\<close> when there is no provider; \<open>cd_prompts\<close> the three
  prompt texts and the header renderer of the prompt manager, if there is one.
\<close>

record compact_prompts =
  cp_prefix :: string
  cp_fallback :: string
  cp_header :: "string \<Rightarrow> string"

record compact_deps =
  cd_stream :: "(string \<Rightarrow> llm_chunk list \<times> exn option) option"
  cd_prompts :: "compact_prompts option"
  cd_show_input :: "dict \<Rightarrow> string"
  cd_show_content :: "media_block list \<Rightarrow> string"

definition prompt_prefix :: "compact_deps \<Rightarrow> string" where
  "prompt_prefix d = (case cd_prompts d of
     Some p \<Rightarrow> cp_prefix p
   | None \<Rightarrow> ''Summarise the following conversation:'' @ nl @ nl)"

definition prompt_fallback :: "compact_deps \<Rightarrow> string" where
  "prompt_fallback d = (case cd_prompts d of
     Some p \<Rightarrow> cp_fallback p
   | None \<Rightarrow> ''[Conversation history compacted '' @ [CHR 0x97] @ '' summary unavailable]'')"

text \<open>The text chunks up to the first error chunk; an exception ends the stream, too.\<close>

fun summary_parts :: "llm_chunk list \<Rightarrow> string list" where
  "summary_parts [] = []"
| "summary_parts (Text_Chunk s # cs) = s # summary_parts cs"
| "summary_parts (Stream_Error _ _ # cs) = []"
| "summary_parts (_ # cs) = summary_parts cs"

definition summarise :: "compact_deps \<Rightarrow> message list \<Rightarrow> string" where
  "summarise d ms =
     (case cd_stream d of
        None \<Rightarrow> prompt_fallback d
      | Some st \<Rightarrow>
          (let s = strip (concat (summary_parts (fst (st
                     (prompt_prefix d @ render_messages (cd_show_input d) (cd_show_content d) ms)))))
           in if s \<noteq> [] then s else prompt_fallback d))"

definition len_input_of :: "compact_deps \<Rightarrow> dict \<Rightarrow> nat" where
  "len_input_of d inp = length (cd_show_input d inp)"

definition DEFAULT_KEEP_RECENT_TURNS :: nat where "DEFAULT_KEEP_RECENT_TURNS = 5"

definition compact :: "compact_deps \<Rightarrow> nat \<Rightarrow> history \<Rightarrow> history" where
  "compact d keep h =
     (let boundary = find_compaction_boundary keep (h_messages h) in
      if boundary = 0 then h
      else (let summary = summarise d (take boundary (h_messages h)) in
            replace_with_compacted (len_input_of d) summary boundary
              (map_option (\<lambda>p. cp_header p summary) (cd_prompts d)) h))"

section \<open>Skills kept after a compaction\<close>

definition POST_COMPACT_MAX_TOKENS_PER_SKILL :: nat where "POST_COMPACT_MAX_TOKENS_PER_SKILL = 5000"
definition POST_COMPACT_SKILLS_TOKEN_BUDGET :: nat where "POST_COMPACT_SKILLS_TOKEN_BUDGET = 25000"

definition SKILL_TRUNCATION_MARKER :: string where
  "SKILL_TRUNCATION_MARKER = nl @ nl
     @ ''[... skill content truncated for compaction; ''
     @ ''use Read on the skill path if you need the full text]''"

record invoked_skill =
  skill_name :: string
  skill_path :: string
  skill_content :: string

definition capped_content :: "invoked_skill \<Rightarrow> string" where
  "capped_content s =
     (let budget = POST_COMPACT_MAX_TOKENS_PER_SKILL * CHARS_PER_TOKEN in
      if budget < length (skill_content s)
      then take budget (skill_content s) @ SKILL_TRUNCATION_MARKER else skill_content s)"

fun skill_sections :: "nat \<Rightarrow> invoked_skill list \<Rightarrow> string list" where
  "skill_sections used [] = []"
| "skill_sections used (s # ss) =
     (let content = capped_content s in
      if POST_COMPACT_SKILLS_TOKEN_BUDGET * CHARS_PER_TOKEN < used + length content then []
      else (''<skill name=\"'' @ skill_name s @ ''\" path=\"'' @ skill_path s @ ''\">'' @ nl
             @ content @ nl @ ''</skill>'')
           # skill_sections (used + length content) ss)"

text \<open>\<open>None\<close> for a missing skill manager and for one that raises.\<close>

definition create_skill_attachment :: "invoked_skill list option \<Rightarrow> string option" where
  "create_skill_attachment invoked =
     (case invoked of
        None \<Rightarrow> None
      | Some ss \<Rightarrow>
          (let sections = skill_sections 0 ss in
           if sections = [] then None
           else Some (''The following skills were previously invoked in this session. ''
                      @ ''Their instructions remain active:'' @ nl @ nl @ join (nl @ nl) sections)))"

section \<open>The passes before a request\<close>

text \<open>
  The last component is the token counts before and after a summary pass, for its event; \<open>None\<close>
  when there was none.
\<close>

definition prepare_history ::
    "compact_deps \<Rightarrow> nat \<Rightarrow> int \<Rightarrow> history \<Rightarrow> history \<times> (int \<times> int) option" where
  "prepare_history d keep threshold h =
     (let h1 = snd (snip_read_only_results (len_input_of d) keep h);
          h2 = (if threshold < h_token_count h1
                then snd (remove_read_only_pairs (len_input_of d) keep h1) else h1)
      in if threshold < h_token_count h2
         then (let h3 = compact d keep h2 in (h3, Some (h_token_count h2, h_token_count h3)))
         else (h2, None))"

section \<open>Passes that keep every message's view\<close>

lemma result_ids_map:
  "(\<And>b. result_ids [f b] = result_ids [b]) \<Longrightarrow> result_ids (map f bs) = result_ids bs"
proof (induction bs)
  case (Cons b bs)
  have "result_ids (x # xs) = result_ids [x] @ result_ids xs" for x xs by (cases x) auto
  with Cons show ?case by (metis list.simps(9))
qed simp

lemma snip_view [simp]: "view (fst (snip_message kinds m)) = view m"
proof (cases m)
  case (User_Message bs)
  have "result_ids [fst (snip_block kinds b)] = result_ids [b]" for b
    by (auto simp: snip_block_def Let_def split: user_block.splits option.splits)
  with User_Message show ?thesis by (simp add: snip_message_def result_ids_map)
qed (simp add: snip_message_def)

lemma strip_view [simp]: "view (fst (strip_message m)) = view m"
proof (cases m)
  case (User_Message bs)
  have "result_ids [fst (strip_user_block b)] = result_ids [b]" for b
    by (auto simp: strip_user_block_def strip_tool_result_media_def Let_def
        split: user_block.splits result_content.splits)
  with User_Message show ?thesis by (simp add: strip_message_def result_ids_map)
qed (simp add: strip_message_def)

lemma snip_messages:
  "h_messages (snd (snip_read_only_results li keep h)) =
     (let b = find_compaction_boundary keep (h_messages h) in
      map (\<lambda>m. fst (snip_message (h_tool_kinds h) m)) (take b (h_messages h)) @ drop b (h_messages h))"
  by (simp add: snip_read_only_results_def Let_def comp_def)

lemma strip_messages:
  "h_messages (snd (strip_media li h)) = map (\<lambda>m. fst (strip_message m)) (h_messages h)"
  by (simp add: strip_media_def Let_def comp_def)

lemma snip_views: "map view (h_messages (snd (snip_read_only_results li keep h))) = map view (h_messages h)"
  by (simp add: snip_messages Let_def comp_def flip: take_map drop_map)

lemma strip_views: "map view (h_messages (snd (strip_media li h))) = map view (h_messages h)"
  by (simp add: strip_messages comp_def)

lemma snip_kinds [simp]: "h_tool_kinds (snd (snip_read_only_results li keep h)) = h_tool_kinds h"
  by (simp add: snip_read_only_results_def Let_def)

lemma snip_boundary:
  "find_compaction_boundary keep (h_messages (snd (snip_read_only_results li keep h))) =
     find_compaction_boundary keep (h_messages h)"
  by (intro boundary_view view_is_user snip_views)

section \<open>Snipping again\<close>

text \<open>A snipped result is a non-empty text of a read-only tool: the next pass snips the placeholder.\<close>

lemma snip_block_again:
  "0 < snd (snip_block kinds b) \<Longrightarrow> 0 < snd (snip_block kinds (fst (snip_block kinds b)))"
  by (auto simp: snip_block_def snip_note_def Let_def split: user_block.splits option.splits if_splits)

lemma snip_message_again:
  assumes "0 < snd (snip_message kinds m)"
  shows "0 < snd (snip_message kinds (fst (snip_message kinds m)))"
proof -
  obtain bs where m: "m = User_Message bs"
    using assms by (cases m) (auto simp: snip_message_def)
  then obtain b where "b \<in> set bs" "0 < snd (snip_block kinds b)"
    using assms by (auto simp: snip_message_def sum_list_pos_iff)
  then have "\<exists>x \<in> set (map (\<lambda>b. fst (snip_block kinds b)) bs). 0 < snd (snip_block kinds x)"
    using snip_block_again by auto
  with m show ?thesis by (auto simp: snip_message_def sum_list_pos_iff)
qed

section \<open>Removing pairs\<close>

text \<open>The scan and the index filter amount to dropping the pairs one meets from the left.\<close>

fun remove_pairs :: "(string \<rightharpoonup> tool_kind) \<Rightarrow> message list \<Rightarrow> message list" where
  "remove_pairs kinds (Assistant_Message a # User_Message u # ms) =
     (if is_read_only_assistant kinds a \<and> is_tool_result_only u then remove_pairs kinds ms
      else Assistant_Message a # remove_pairs kinds (User_Message u # ms))"
| "remove_pairs kinds (m # ms) = m # remove_pairs kinds ms"
| "remove_pairs kinds [] = []"

definition kept_from :: "nat \<Rightarrow> message list \<Rightarrow> nat set \<Rightarrow> message list" where
  "kept_from i ms gone = map (\<lambda>j. ms ! (j - i)) (filter (\<lambda>j. j \<notin> gone) [i ..< i + length ms])"

lemma kept_from_Cons:
  "kept_from i (m # ms) gone = (if i \<in> gone then [] else [m]) @ kept_from (Suc i) ms gone"
proof -
  have "[i ..< i + length (m # ms)] = i # [Suc i ..< Suc i + length ms]"
    using upt_conv_Cons [of i "i + length (m # ms)"] by simp
  moreover have "map (\<lambda>j. (m # ms) ! (j - i)) (filter (\<lambda>j. j \<notin> gone) [Suc i ..< Suc i + length ms]) =
      kept_from (Suc i) ms gone"
    unfolding kept_from_def by (rule map_cong) (auto simp: nth_Cons' Suc_diff_le)
  ultimately show ?thesis by (simp add: kept_from_def del: upt_Suc)
qed

lemma kept_from_insert: "j < i \<Longrightarrow> kept_from i ms (insert j gone) = kept_from i ms gone"
  by (auto simp: kept_from_def intro!: arg_cong [of _ _ "map _"] filter_cong)

lemma pair_indices_ge: "j \<in> set (pair_indices kinds i ms) \<Longrightarrow> i \<le> j"
  by (induction kinds i ms rule: pair_indices.induct) (auto split: if_splits)

lemma kept_from_pairs: "kept_from i ms (set (pair_indices kinds i ms)) = remove_pairs kinds ms"
proof (induction kinds i ms rule: pair_indices.induct)
  case (1 kinds i a u ms)
  show ?case
  proof (cases "is_read_only_assistant kinds a \<and> is_tool_result_only u")
    case True
    with 1 show ?thesis by (simp add: kept_from_Cons kept_from_insert)
  next
    case False
    then have "pair_indices kinds i (Assistant_Message a # User_Message u # ms) =
        pair_indices kinds (Suc i) (User_Message u # ms)"
      "remove_pairs kinds (Assistant_Message a # User_Message u # ms) =
        Assistant_Message a # remove_pairs kinds (User_Message u # ms)" by auto
    moreover have "i \<notin> set (pair_indices kinds (Suc i) (User_Message u # ms))"
      using pair_indices_ge [of i kinds "Suc i"] by fastforce
    ultimately show ?thesis using 1(2) [OF False]
      by (simp only: kept_from_Cons [of i] if_False append.simps)
  qed
qed (simp_all add: kept_from_Cons [of _ "_" "[]"] kept_from_Cons, auto simp: kept_from_def dest: pair_indices_ge)

lemma pair_indices_Nil: "pair_indices kinds i ms = [] \<Longrightarrow> remove_pairs kinds ms = ms"
  by (induction kinds i ms rule: pair_indices.induct) (auto split: if_splits)

text \<open>The first removed pair: everything before it stays, so the marker takes its place.\<close>

definition first_pair_at :: "(string \<rightharpoonup> tool_kind) \<Rightarrow> message list \<Rightarrow> nat \<Rightarrow> bool" where
  "first_pair_at kinds ms k \<longleftrightarrow> (\<exists>xs a u rest. ms = xs @ Assistant_Message a # User_Message u # rest
     \<and> is_read_only_assistant kinds a \<and> is_tool_result_only u \<and> k = length xs
     \<and> remove_pairs kinds ms = xs @ remove_pairs kinds rest)"

lemma first_pair_skip:
  assumes "first_pair_at kinds ms k" "remove_pairs kinds (m # ms) = m # remove_pairs kinds ms"
  shows "first_pair_at kinds (m # ms) (Suc k)"
proof -
  obtain xs a u rest where "ms = xs @ Assistant_Message a # User_Message u # rest"
    "is_read_only_assistant kinds a" "is_tool_result_only u" "k = length xs"
    "remove_pairs kinds ms = xs @ remove_pairs kinds rest"
    using assms(1) by (auto simp: first_pair_at_def)
  with assms(2) have "m # ms = (m # xs) @ Assistant_Message a # User_Message u # rest
      \<and> is_read_only_assistant kinds a \<and> is_tool_result_only u \<and> Suc k = length (m # xs)
      \<and> remove_pairs kinds (m # ms) = (m # xs) @ remove_pairs kinds rest" by simp
  then show ?thesis unfolding first_pair_at_def by blast
qed

lemma first_pair:
  "pair_indices kinds i ms \<noteq> [] \<Longrightarrow>
     \<exists>k. hd (pair_indices kinds i ms) = i + k \<and> first_pair_at kinds ms k"
proof (induction kinds i ms rule: pair_indices.induct)
  case (1 kinds i a u ms)
  show ?case
  proof (cases "is_read_only_assistant kinds a \<and> is_tool_result_only u")
    case True
    then have "first_pair_at kinds (Assistant_Message a # User_Message u # ms) 0"
      unfolding first_pair_at_def
      by - (rule exI [of _ "[]"], rule exI [of _ a], rule exI [of _ u], rule exI [of _ ms], simp)
    with True show ?thesis by auto
  next
    case False
    then have eq: "pair_indices kinds i (Assistant_Message a # User_Message u # ms) =
        pair_indices kinds (Suc i) (User_Message u # ms)"
      "remove_pairs kinds (Assistant_Message a # User_Message u # ms) =
        Assistant_Message a # remove_pairs kinds (User_Message u # ms)" by auto
    then obtain k where "hd (pair_indices kinds (Suc i) (User_Message u # ms)) = Suc i + k"
      "first_pair_at kinds (User_Message u # ms) k"
      using 1(2) [OF False] 1(3) by auto
    with eq show ?thesis using first_pair_skip [of kinds "User_Message u # ms" k "Assistant_Message a"]
      by (intro exI [of _ "Suc k"]) simp
  qed
qed (auto intro: first_pair_skip, (metis add_Suc_right first_pair_skip remove_pairs.simps)+)

lemma sorted_pair_indices: "sorted (pair_indices kinds i ms)"
  by (induction kinds i ms rule: pair_indices.induct)
     (auto dest: pair_indices_ge intro: Suc_leD le_SucI)

lemma Min_pair_indices: "pair_indices kinds i ms \<noteq> [] \<Longrightarrow> Min (set (pair_indices kinds i ms)) = hd (pair_indices kinds i ms)"
  using sorted_pair_indices [of kinds i ms] by (cases "pair_indices kinds i ms") (auto simp: Min_insert2)

lemma remove_pairs_paired:
  "paired_from p ms \<Longrightarrow> paired_from p (remove_pairs kinds ms)
     \<and> still_open p (remove_pairs kinds ms) = still_open p ms"
proof (induction kinds ms arbitrary: p rule: remove_pairs.induct)
  case (1 kinds a u ms)
  then show ?case by (auto simp: uses_of_def split: if_splits)
qed (auto simp: paired_Cons simp del: paired_from.simps(2,3))

lemma pair_indices_length: "even (length (pair_indices kinds i ms))"
  by (induction kinds i ms rule: pair_indices.induct) auto

lemma nothing_removed:
  assumes "fst (remove_read_only_pairs li keep h) = 0"
  shows "snd (remove_read_only_pairs li keep h) = h"
proof -
  have "2 \<le> length (pair_indices kinds i ms)" if "pair_indices kinds i ms \<noteq> []" for kinds i ms
    using that pair_indices_length [of kinds i ms] by (cases "pair_indices kinds i ms") (auto dest: odd_pos simp: Suc_leI)
  with assms show ?thesis by (fastforce simp: remove_read_only_pairs_def Let_def split: if_splits)
qed

text \<open>What \<open>remove_read_only_pairs\<close> leaves, when it removes something.\<close>

lemma removed_shape:
  assumes "remove_read_only_pairs li keep h = (n, h')" "0 < n"
  shows "\<exists>xs a u rest. let b = find_compaction_boundary keep (h_messages h) in
    take b (h_messages h) = xs @ Assistant_Message a # User_Message u # rest
    \<and> is_read_only_assistant (h_tool_kinds h) a \<and> is_tool_result_only u
    \<and> h_messages h' = xs @ removal_marker n # remove_pairs (h_tool_kinds h) rest @ drop b (h_messages h)"
proof -
  let ?b = "find_compaction_boundary keep (h_messages h)"
  let ?pre = "take ?b (h_messages h)"
  let ?gone = "pair_indices (h_tool_kinds h) 0 ?pre"
  have ne: "?gone \<noteq> []" using assms by (auto simp: remove_read_only_pairs_def Let_def split: if_splits)
  then obtain xs a u rest where split: "?pre = xs @ Assistant_Message a # User_Message u # rest"
    "is_read_only_assistant (h_tool_kinds h) a" "is_tool_result_only u"
    "hd ?gone = length xs" "remove_pairs (h_tool_kinds h) ?pre = xs @ remove_pairs (h_tool_kinds h) rest"
    using first_pair [OF ne] by (auto simp: first_pair_at_def)
  have kept: "map (\<lambda>j. ?pre ! j) (filter (\<lambda>j. j \<notin> set ?gone) [0 ..< length ?pre]) =
      xs @ remove_pairs (h_tool_kinds h) rest"
    using kept_from_pairs [of 0 ?pre "h_tool_kinds h"] split(5) by (simp add: kept_from_def)
  have "min (Min (set ?gone)) (length (xs @ remove_pairs (h_tool_kinds h) rest)) = length xs"
    using Min_pair_indices [OF ne] split(4) by simp
  then have "h_messages h' = insert_at (length xs) (removal_marker n) (xs @ remove_pairs (h_tool_kinds h) rest)
      @ drop ?b (h_messages h)"
    using assms ne kept
    by (auto simp: remove_read_only_pairs_def Let_def simp del: length_append split: if_splits)
  with split show ?thesis by (auto simp: insert_at_def Let_def)
qed

section \<open>The cheap passes and pairing\<close>

lemma micro_pass:
  assumes "paired (h_messages h)"
  shows "paired (h_messages (snd (remove_read_only_pairs li keep h)))
    \<and> still_open [] (h_messages (snd (remove_read_only_pairs li keep h))) = still_open [] (h_messages h)
    \<and> suffix (drop (find_compaction_boundary keep (h_messages h)) (h_messages h))
        (h_messages (snd (remove_read_only_pairs li keep h)))"
proof (cases "0 < fst (remove_read_only_pairs li keep h)")
  case True
  let ?b = "find_compaction_boundary keep (h_messages h)"
  let ?micro = "snd (remove_read_only_pairs li keep h)"
  obtain xs a u rest where
    split: "take ?b (h_messages h) = xs @ Assistant_Message a # User_Message u # rest"
    and after: "h_messages ?micro = xs @ removal_marker (fst (remove_read_only_pairs li keep h))
        # remove_pairs (h_tool_kinds h) rest @ drop ?b (h_messages h)"
    using removed_shape [of li keep h _ ?micro] True by (auto simp: Let_def prod_eq_iff)
  have h: "h_messages h = (xs @ Assistant_Message a # User_Message u # rest) @ drop ?b (h_messages h)"
    using split by (metis append_take_drop_id)
  then have "paired ((xs @ Assistant_Message a # User_Message u # rest) @ drop ?b (h_messages h))"
    using assms by simp
  then have "paired (h_messages ?micro)
      \<and> still_open [] (h_messages ?micro) =
          still_open [] ((xs @ Assistant_Message a # User_Message u # rest) @ drop ?b (h_messages h))"
    using remove_pairs_paired [of "[]" rest "h_tool_kinds h"]
    by (auto simp: after removal_marker_def uses_of_def)
  moreover have "suffix (drop ?b (h_messages h)) (h_messages ?micro)" by (auto simp: after suffix_def)
  ultimately show ?thesis using arg_cong [OF h, of "still_open []"] by simp
next
  case False
  then have "snd (remove_read_only_pairs li keep h) = h" using nothing_removed by simp
  then show ?thesis using assms suffix_drop by auto
qed

lemma snip_pass:
  assumes "paired (h_messages h)"
  shows "paired (h_messages (snd (snip_read_only_results li keep h)))
    \<and> still_open [] (h_messages (snd (snip_read_only_results li keep h))) = still_open [] (h_messages h)"
  using assms paired_view [OF snip_views] still_open_view [OF snip_views] by blast

lemma strip_pass:
  assumes "paired (h_messages h)"
  shows "paired (h_messages (snd (strip_media li h)))
    \<and> still_open [] (h_messages (snd (strip_media li h))) = still_open [] (h_messages h)"
  using assms paired_view [OF strip_views] still_open_view [OF strip_views] by blast

end
