(* ===== verification/Compaction_Properties.thy ===== *)
theory Compaction_Properties
  imports Compaction
begin

text \<open>
  The properties of the conversation history (\<open>orchestrator/history/\<close>) and of its compaction passes
  (\<open>orchestrator/compact/\<close>), with their witnesses: which passes keep the pairing of tool uses and
  results that providers require, and where the pairing or the token count is lost.
\<close>

section \<open>A conversation for the witnesses\<close>

definition sample_result :: "string \<Rightarrow> string \<Rightarrow> user_block" where
  "sample_result i s = User_Result \<lparr>rb_tool_use_id = i, rb_content = Content_Text s, rb_is_error = False\<rparr>"

text \<open>A question, a read, its result, and the answer.\<close>

definition sample_talk :: history where
  "sample_talk =
     \<lparr>h_messages =
        [User_Message [User_Text ''q''], Assistant_Message [Assistant_Tool_Use ''a'' ''Read'' []],
         User_Message [sample_result ''a'' ''text''], Assistant_Message [Assistant_Text ''r'']],
      h_token_count = 9, h_tool_kinds = [''a'' \<mapsto> Read]\<rparr>"

lemma sample_paired: "paired (h_messages sample_talk)" "still_open [] (h_messages sample_talk) = []"
  by (simp_all add: sample_talk_def sample_result_def uses_of_def)

lemma sample_boundary:
  "find_compaction_boundary 1 (h_messages sample_talk) = 2"
  "find_compaction_boundary 0 (h_messages sample_talk) = 0"
  by (simp_all add: sample_talk_def find_compaction_boundary_def user_indices_def is_user_def upt_rec)

definition sample_deps :: compact_deps where
  "sample_deps = \<lparr>cd_stream = None, cd_prompts = None, cd_show_input = (\<lambda>_. ''{}''),
     cd_show_content = (\<lambda>_. ''[]'')\<rparr>"

section \<open>The properties\<close>

text \<open>
  C29: The cheap passes keep a conversation valid: snipping, removing read-only pairs and stripping
  media turn a conversation in which tool uses and results are paired into another one, with the
  same uses still open, and the first two leave everything from the compaction boundary on verbatim.
\<close>

theorem cheap_passes_keep_pairing:
  assumes "paired (h_messages h)"
  shows "let b = find_compaction_boundary keep (h_messages h);
      snip = h_messages (snd (snip_read_only_results li keep h));
      micro = h_messages (snd (remove_read_only_pairs li keep h));
      bare = h_messages (snd (strip_media li h))
    in paired snip \<and> paired micro \<and> paired bare
       \<and> (\<forall>p. p = snip \<or> p = micro \<or> p = bare \<longrightarrow> still_open [] p = still_open [] (h_messages h))
       \<and> suffix (drop b (h_messages h)) snip \<and> suffix (drop b (h_messages h)) micro"
  using micro_pass [OF assms, of li keep] snip_pass [OF assms, of li keep] strip_pass [OF assms, of li]
  by (simp add: Let_def snip_messages suffix_def)

theorem cheap_passes_keep_pairing_witness:
  "paired (h_messages (snd (remove_read_only_pairs (\<lambda>_. 0) 1 sample_talk)))"
  using cheap_passes_keep_pairing [OF sample_paired(1), of 1 "\<lambda>_. 0"] by (simp add: Let_def)

text \<open>
  A summary pass orphans tool results: from a paired conversation it makes a paired one exactly
  if the first message it keeps carries no tool results. The boundary counts tool-result messages as
  user turns, so whenever it falls on one the summary swallows the tool uses that message answers.
\<close>

lemma compact_pairing:
  assumes "paired (h_messages h)" "find_compaction_boundary keep (h_messages h) = b" "0 < b"
  shows "paired (h_messages (compact d keep h)) \<longleftrightarrow> answers_of (h_messages h ! b) = []"
proof -
  have b: "b < length (h_messages h)" "is_user (h_messages h ! b)"
    using boundary_user [OF assms(2,3)] by auto
  then have drop: "drop b (h_messages h) = h_messages h ! b # drop (Suc b) (h_messages h)"
    by (simp add: Cons_nth_drop_Suc)
  obtain us where us: "h_messages h ! b = User_Message us"
    using b(2) by (cases "h_messages h ! b") (auto simp: is_user_def)
  have "paired (take b (h_messages h) @ drop b (h_messages h))" using assms(1) by simp
  then have "paired (drop (Suc b) (h_messages h))"
    unfolding paired_append drop us by simp
  moreover have "\<exists>s. h_messages (compact d keep h) = User_Message [User_Text s] # drop b (h_messages h)"
    using assms(2,3) by (simp add: compact_def replace_with_compacted_def Let_def)
  ultimately show ?thesis by (auto simp: drop us answers_of_def)
qed

lemma compact_pairing_witness:
  "\<not> paired (h_messages (compact sample_deps 1 sample_talk))"
  using compact_pairing [OF sample_paired(1) sample_boundary(1), of sample_deps]
  by (simp add: sample_talk_def sample_result_def answers_of_def)

text \<open>
  Snipping never settles: once it has freed something, every later call of it on the same
  conversation frees again - it snips its own placeholders - and each time replaces the token count
  the provider reported by the local estimate.
\<close>

lemma snip_never_settles:
  assumes "snip_read_only_results li keep h = (n, h1)" "0 < n"
    and "snip_read_only_results li keep (h1\<lparr>h_token_count := reported\<rparr>) = (n', h2)"
  shows "0 < n' \<and> h_token_count h2 = estimate_tokens_for li (h_messages h2)"
proof -
  let ?b = "find_compaction_boundary keep (h_messages h)"
  let ?f = "\<lambda>m. fst (snip_message (h_tool_kinds h) m)"
  have h1: "h_messages h1 = map ?f (take ?b (h_messages h)) @ drop ?b (h_messages h)"
    "h_tool_kinds h1 = h_tool_kinds h"
    using snip_messages [of li keep h] snip_kinds [of li keep h] assms(1) by (simp_all add: Let_def)
  have b1: "find_compaction_boundary keep (h_messages h1) = ?b"
    using snip_boundary [of keep li h] assms(1) by simp
  have b: "0 < ?b" and "\<exists>m \<in> set (take ?b (h_messages h)). 0 < snd (snip_message (h_tool_kinds h) m)"
    using assms(1,2) by (auto simp: snip_read_only_results_def Let_def sum_list_pos_iff split: if_splits)
  then obtain m where m: "m \<in> set (take ?b (h_messages h))" "0 < snd (snip_message (h_tool_kinds h) m)"
    by blast
  have "take ?b (h_messages h1) = map ?f (take ?b (h_messages h))"
    using boundary_le [of keep "h_messages h"] by (simp add: h1)
  then have "?f m \<in> set (take ?b (h_messages h1))" using m(1) by simp
  with snip_message_again [OF m(2)]
  have "0 < sum_list (map (\<lambda>m. snd (snip_message (h_tool_kinds h) m)) (take ?b (h_messages h1)))"
    by (auto simp: sum_list_pos_iff)
  with b assms(3) show ?thesis
    by (auto simp: snip_read_only_results_def b1 h1(2) Let_def comp_def split: if_splits)
qed

definition sample_long_talk :: history where
  "sample_long_talk = sample_talk\<lparr>h_messages := h_messages sample_talk @ [User_Message [User_Text ''p'']]\<rparr>"

lemma sample_long_boundary: "find_compaction_boundary 1 (h_messages sample_long_talk) = 4"
  by (simp add: sample_long_talk_def sample_talk_def find_compaction_boundary_def user_indices_def
      is_user_def upt_rec)

lemma sample_snips: "fst (snip_read_only_results li 1 sample_long_talk) = 4"
  unfolding snip_read_only_results_def Let_def sample_long_boundary
  by (simp add: sample_long_talk_def sample_talk_def sample_result_def snip_message_def snip_block_def
      is_read_only_def)

lemma snip_never_settles_witness:
  "0 < fst (snip_read_only_results (\<lambda>_. 0) 1
      ((snd (snip_read_only_results (\<lambda>_. 0) 1 sample_long_talk))\<lparr>h_token_count := 100000\<rparr>))"
  using snip_never_settles [of "\<lambda>_. 0" 1 sample_long_talk 4 "snd (snip_read_only_results (\<lambda>_. 0) 1 sample_long_talk)" 100000]
    sample_snips [of "\<lambda>_. 0"] by (auto simp: prod_eq_iff)

text \<open>
  A round of tool calls: after the assistant's turn the pending ids are exactly its calls, and
  after the results are appended exactly the calls without a result are pending; the conversation is
  then valid for the provider iff the results answer all the calls and nothing else.
\<close>

lemma round_pairing:
  assumes "paired (h_messages h)" "still_open [] (h_messages h) = []" "calls \<noteq> []" "rs \<noteq> []"
  shows "let h1 = append_assistant li s thoughts calls h; h2 = append_tool_results li rs h1 in
      pending_tool_use_ids (h_messages h1) = map fst calls
    \<and> pending_tool_use_ids (h_messages h2) = filter (\<lambda>i. i \<notin> set (map rb_tool_use_id rs)) (map fst calls)
    \<and> (paired (h_messages h2) \<longleftrightarrow> set (map rb_tool_use_id rs) = set (map fst calls))"
proof -
  obtain bs where bs: "h_messages (append_assistant li s thoughts calls h) = h_messages h @ [Assistant_Message bs]"
    "use_ids bs = map fst calls"
    using append_assistant_messages [OF assms(3)] by blast
  then have "h_messages (append_tool_results li rs (append_assistant li s thoughts calls h)) =
      h_messages h @ [Assistant_Message bs, User_Message (map User_Result rs)]"
    using assms(4) by (simp add: append_tool_results_def push_message_def)
  with bs assms(1,2) show ?thesis by (simp add: Let_def uses_of_def)
qed

lemma round_pairing_witness:
  "pending_tool_use_ids (h_messages (append_assistant (\<lambda>_. 0) [] [] [(''b'', ''Read'', [])] sample_talk)) = [''b'']"
  using round_pairing [OF sample_paired, of "[(''b'', ''Read'', [])]"
      "[\<lparr>rb_tool_use_id = ''b'', rb_content = Content_Text [], rb_is_error = False\<rparr>]" "\<lambda>_. 0" "[]" "[]"]
  by (simp add: Let_def)

end
