(* ===== verification/Mailboxes.thy ===== *)
theory Mailboxes
  imports Prelude
begin

text \<open>
  The contract of a queue that several owners share: an item goes to at most one owner, an owner takes
  everything it has at once, and what the owners have does not depend on each other. The task registry
  provides it twice, for the notifications of tasks and for the messages to agents.
\<close>

datatype ('o, 'a) mail_op = Mail_Put 'a | Mail_Take 'o

fun run_mail ::
    "('a \<Rightarrow> 'q \<Rightarrow> 'q) \<Rightarrow> ('o \<Rightarrow> 'q \<Rightarrow> 'a list \<times> 'q) \<Rightarrow> ('o, 'a) mail_op list \<Rightarrow> 'q
       \<Rightarrow> ('o \<times> 'a list) list \<times> 'q" where
  "run_mail put grab [] q = ([], q)"
| "run_mail put grab (Mail_Put x # ops) q = run_mail put grab ops (put x q)"
| "run_mail put grab (Mail_Take k # ops) q =
     (let (xs, q1) = grab k q; (ds, q2) = run_mail put grab ops q1 in ((k, xs) # ds, q2))"

definition received :: "'o \<Rightarrow> ('o \<times> 'a list) list \<Rightarrow> 'a list" where
  "received k ds = concat (map snd (filter (\<lambda>d. fst d = k) ds))"

text \<open>The items accepted for an owner along a run.\<close>

fun accepted ::
    "('a \<Rightarrow> 'q \<Rightarrow> 'o option) \<Rightarrow> ('a \<Rightarrow> 'q \<Rightarrow> 'q) \<Rightarrow> ('o \<Rightarrow> 'q \<Rightarrow> 'a list \<times> 'q) \<Rightarrow> 'o
       \<Rightarrow> ('o, 'a) mail_op list \<Rightarrow> 'q \<Rightarrow> 'a list" where
  "accepted dest put grab k [] q = []"
| "accepted dest put grab k (Mail_Put x # ops) q =
     (if dest x q = Some k then [x] else []) @ accepted dest put grab k ops (put x q)"
| "accepted dest put grab k (Mail_Take k' # ops) q = accepted dest put grab k ops (snd (grab k' q))"

locale mailbox =
  fixes content :: "'o \<Rightarrow> 'q \<Rightarrow> 'a list"
    and dest :: "'a \<Rightarrow> 'q \<Rightarrow> 'o option"
    and put :: "'a \<Rightarrow> 'q \<Rightarrow> 'q"
    and grab :: "'o \<Rightarrow> 'q \<Rightarrow> 'a list \<times> 'q"
  assumes content_put: "content k (put x q) = content k q @ (if dest x q = Some k then [x] else [])"
    and grab_gives: "fst (grab k q) = content k q"
    and content_grab: "content k' (snd (grab k q)) = (if k' = k then [] else content k' q)"
begin

lemma conservation:
  "received k (fst (run_mail put grab ops q)) @ content k (snd (run_mail put grab ops q)) =
     content k q @ accepted dest put grab k ops q"
proof (induction ops arbitrary: q)
  case (Cons op ops)
  show ?case
  proof (cases op)
    case (Mail_Put x)
    then show ?thesis using Cons by (simp add: content_put)
  next
    case (Mail_Take k')
    obtain xs q1 where g: "grab k' q = (xs, q1)" by force
    obtain ds q2 where r: "run_mail put grab ops q1 = (ds, q2)" by force
    have "xs = content k' q" "content k q1 = (if k = k' then [] else content k q)"
      using grab_gives [of k' q] content_grab [of k k' q] g by simp_all
    with Cons [of q1] r g Mail_Take show ?thesis by (auto simp: received_def)
  qed
qed (simp add: received_def)

lemma takes_all: "content k (snd (run_mail put grab (ops @ [Mail_Take k]) q)) = []"
proof (induction ops arbitrary: q)
  case Nil
  show ?case using content_grab [of k k q] by (simp add: case_prod_beta Let_def)
next
  case (Cons op ops)
  then show ?case by (cases op) (simp_all add: case_prod_beta Let_def)
qed

end

end
