(* ===== verification/Tasks.thy ===== *)
theory Tasks
  imports History Mailboxes
begin

text \<open>
  Background tasks: \<open>tasks/types.py\<close>, \<open>tasks/registry.py\<close> and \<open>tasks/id.py\<close>, the notification texts
  of \<open>orchestrator/notifications.py\<close>, the drains of \<open>loop/steps.py\<close> and \<open>orchestrator/agents.py\<close>, and
  the tools and coroutines that change the registry (\<open>agent.py\<close>, \<open>send_message.py\<close>,
  \<open>task_stop.py\<close>, \<open>todo_write.py\<close>, \<open>monitor.py\<close>, the background part of \<open>bash.py\<close>). Processes and
  output files are outside; what a process did is an argument. The registry's listeners get no
  data and cannot fail, so they are left out.
\<close>

section \<open>Task states\<close>

datatype task_status = Task_Pending | Task_Running | Task_Completed | Task_Failed | Task_Killed

fun task_status_value :: "task_status \<Rightarrow> string" where
  "task_status_value Task_Pending = ''pending''"
| "task_status_value Task_Running = ''running''"
| "task_status_value Task_Completed = ''completed''"
| "task_status_value Task_Failed = ''failed''"
| "task_status_value Task_Killed = ''killed''"

definition is_terminal :: "task_status \<Rightarrow> bool" where
  "is_terminal s \<longleftrightarrow> s \<in> {Task_Completed, Task_Failed, Task_Killed}"

text \<open>
  A process and a cancel event are handles: the model keeps whether there is one.
\<close>

record process_body =
  pb_command :: string
  pb_exit_code :: "int option"
  pb_process :: bool

record monitor_body = process_body +
  mb_lines :: "string list"
  mb_cap :: nat

record agent_body =
  ab_agent_id :: string
  ab_agent_type :: string
  ab_prompt :: string
  ab_model :: "string option"
  ab_result :: "string option"
  ab_error :: "string option"
  ab_backgrounded :: bool
  ab_name :: "string option"
  ab_messages :: "string list"
  ab_transcript :: "message list option"
  ab_cancel_event :: bool

datatype task_body = Shell process_body | Agent agent_body | Monitor monitor_body

datatype task_type = Local_Bash | Local_Agent | Monitor_Type

fun type_of :: "task_body \<Rightarrow> task_type" where
  "type_of (Shell _) = Local_Bash"
| "type_of (Agent _) = Local_Agent"
| "type_of (Monitor _) = Monitor_Type"

record bg_task =
  bt_id :: string
  bt_status :: task_status
  bt_description :: string
  bt_tool_use_id :: "string option"
  bt_owner :: "string option"
  bt_start :: time
  bt_end :: "time option"
  bt_output_file :: string
  bt_notified :: bool
  bt_body :: task_body

definition agent_of :: "bg_task \<Rightarrow> agent_body option" where
  "agent_of t = (case bt_body t of Agent b \<Rightarrow> Some b | _ \<Rightarrow> None)"

definition monitor_of :: "bg_task \<Rightarrow> monitor_body option" where
  "monitor_of t = (case bt_body t of Monitor b \<Rightarrow> Some b | _ \<Rightarrow> None)"

text \<open>\<open>generate_task_id\<close>, with the eight random draws from the alphabet as argument.\<close>

definition task_alphabet :: string where
  "task_alphabet = ''0123456789abcdefghijklmnopqrstuvwxyz''"

fun task_prefix :: "task_type \<Rightarrow> char" where
  "task_prefix Local_Bash = CHR ''b''"
| "task_prefix Local_Agent = CHR ''a''"
| "task_prefix Monitor_Type = CHR ''m''"

definition generate_task_id :: "task_type \<Rightarrow> (nat \<Rightarrow> nat) \<Rightarrow> string" where
  "generate_task_id ty draw = task_prefix ty # map (\<lambda>i. task_alphabet ! (draw i mod 36)) [0 ..< 8]"

section \<open>The registry\<close>

text \<open>The task dictionary keeps insertion order, and its values are updated in place.\<close>

record task_registry =
  tk_tasks :: "(string \<times> bg_task) list"
  tk_queue :: "(string \<times> string option) list"
  tk_todos :: "string option \<rightharpoonup> dict list"
  tk_names :: "string \<rightharpoonup> string"

definition new_registry :: task_registry where
  "new_registry = \<lparr>tk_tasks = [], tk_queue = [], tk_todos = Map.empty, tk_names = Map.empty\<rparr>"

definition get_task :: "string \<Rightarrow> task_registry \<Rightarrow> bg_task option" where
  "get_task i r = map_of (tk_tasks r) i"

definition get_all_tasks :: "task_registry \<Rightarrow> bg_task list" where
  "get_all_tasks r = map snd (tk_tasks r)"

definition get_running :: "task_registry \<Rightarrow> bg_task list" where
  "get_running r = filter (\<lambda>t. bt_status t = Task_Running) (get_all_tasks r)"

definition put_task :: "string \<Rightarrow> bg_task \<Rightarrow> task_registry \<Rightarrow> task_registry" where
  "put_task i t r = r\<lparr>tk_tasks := AList.update i t (tk_tasks r)\<rparr>"

definition modify_task :: "string \<Rightarrow> (bg_task \<Rightarrow> bg_task) \<Rightarrow> task_registry \<Rightarrow> task_registry" where
  "modify_task i f r = (case get_task i r of None \<Rightarrow> r | Some t \<Rightarrow> put_task i (f t) r)"

definition register_task :: "time \<Rightarrow> bg_task \<Rightarrow> task_registry \<Rightarrow> task_registry" where
  "register_task now t r = put_task (bt_id t) (t\<lparr>bt_start := now\<rparr>) r"

definition or_keep :: "'a option \<Rightarrow> 'a option \<Rightarrow> 'a option" where
  "or_keep new old = (case new of Some x \<Rightarrow> Some x | None \<Rightarrow> old)"

fun update_body :: "int option \<Rightarrow> string option \<Rightarrow> string option \<Rightarrow> task_body \<Rightarrow> task_body" where
  "update_body ec result err (Shell b) = Shell (b\<lparr>pb_exit_code := or_keep ec (pb_exit_code b)\<rparr>)"
| "update_body ec result err (Monitor b) = Monitor (b\<lparr>pb_exit_code := or_keep ec (pb_exit_code b)\<rparr>)"
| "update_body ec result err (Agent b) =
     Agent (b\<lparr>ab_result := or_keep result (ab_result b), ab_error := or_keep err (ab_error b)\<rparr>)"

definition closed_task ::
    "time \<Rightarrow> task_status \<Rightarrow> int option \<Rightarrow> string option \<Rightarrow> string option \<Rightarrow> bg_task \<Rightarrow> bg_task" where
  "closed_task now s ec result err t =
     t\<lparr>bt_status := s, bt_end := (if is_terminal s then Some now else bt_end t),
       bt_body := update_body ec result err (bt_body t)\<rparr>"

definition update_task_status ::
    "time \<Rightarrow> string \<Rightarrow> task_status \<Rightarrow> int option \<Rightarrow> string option \<Rightarrow> string option \<Rightarrow> task_registry
       \<Rightarrow> task_registry" where
  "update_task_status now i s ec result err = modify_task i (closed_task now s ec result err)"

definition register_name :: "string \<Rightarrow> string \<Rightarrow> task_registry \<Rightarrow> bool \<times> task_registry" where
  "register_name n i r =
     (if tk_names r n \<noteq> None then (False, r) else (True, r\<lparr>tk_names := (tk_names r)(n \<mapsto> i)\<rparr>))"

definition resolve_name :: "string \<Rightarrow> task_registry \<Rightarrow> string option" where
  "resolve_name n r = tk_names r n"

definition unregister_name :: "string \<Rightarrow> task_registry \<Rightarrow> task_registry" where
  "unregister_name n r = r\<lparr>tk_names := (tk_names r)(n := None)\<rparr>"

definition update_name :: "string \<Rightarrow> string \<Rightarrow> task_registry \<Rightarrow> task_registry" where
  "update_name n i r = r\<lparr>tk_names := (tk_names r)(n \<mapsto> i)\<rparr>"

definition with_messages :: "string list \<Rightarrow> bg_task \<Rightarrow> bg_task" where
  "with_messages ms t =
     t\<lparr>bt_body := (case bt_body t of Agent b \<Rightarrow> Agent (b\<lparr>ab_messages := ms\<rparr>) | x \<Rightarrow> x)\<rparr>"

definition queue_message :: "string \<Rightarrow> string \<Rightarrow> task_registry \<Rightarrow> bool \<times> task_registry" where
  "queue_message i m r =
     (case get_task i r of
        None \<Rightarrow> (False, r)
      | Some t \<Rightarrow> (case agent_of t of
                     None \<Rightarrow> (False, r)
                   | Some b \<Rightarrow> (True, put_task i (with_messages (ab_messages b @ [m]) t) r)))"

definition drain_messages :: "string \<Rightarrow> task_registry \<Rightarrow> string list \<times> task_registry" where
  "drain_messages i r =
     (case get_task i r of
        None \<Rightarrow> ([], r)
      | Some t \<Rightarrow> (case agent_of t of
                     None \<Rightarrow> ([], r)
                   | Some b \<Rightarrow> if ab_messages b = [] then ([], r)
                              else (ab_messages b, put_task i (with_messages [] t) r)))"

definition enqueue_notification :: "string \<Rightarrow> task_registry \<Rightarrow> task_registry" where
  "enqueue_notification i r =
     (case get_task i r of
        None \<Rightarrow> r
      | Some t \<Rightarrow>
          if bt_notified t then r
          else (put_task i (t\<lparr>bt_notified := True\<rparr>) r)\<lparr>tk_queue := tk_queue r @ [(i, bt_owner t)]\<rparr>)"

text \<open>The queue is emptied into the owner's ids and the others, which go back in order.\<close>

definition drain_notifications :: "string option \<Rightarrow> task_registry \<Rightarrow> string list \<times> task_registry" where
  "drain_notifications agent r =
     (map fst (filter (\<lambda>(i, owner). owner = agent) (tk_queue r)),
      r\<lparr>tk_queue := filter (\<lambda>(i, owner). owner \<noteq> agent) (tk_queue r)\<rparr>)"

definition drains_monitor :: "string option \<Rightarrow> bg_task \<Rightarrow> string list option" where
  "drains_monitor agent t =
     (case monitor_of t of
        Some b \<Rightarrow> if bt_owner t = agent \<and> mb_lines b \<noteq> [] then Some (mb_lines b) else None
      | None \<Rightarrow> None)"

definition with_lines :: "string list \<Rightarrow> bg_task \<Rightarrow> bg_task" where
  "with_lines ls t =
     t\<lparr>bt_body := (case bt_body t of Monitor b \<Rightarrow> Monitor (b\<lparr>mb_lines := ls\<rparr>) | x \<Rightarrow> x)\<rparr>"

definition drain_monitor_lines ::
    "string option \<Rightarrow> task_registry \<Rightarrow> (string \<times> string list) list \<times> task_registry" where
  "drain_monitor_lines agent r =
     (concat (map (\<lambda>(i, t). case drains_monitor agent t of Some ls \<Rightarrow> [(bt_id t, ls)] | None \<Rightarrow> []) (tk_tasks r)),
      r\<lparr>tk_tasks := map (\<lambda>(i, t). (i, if drains_monitor agent t \<noteq> None then with_lines [] t else t)) (tk_tasks r)\<rparr>)"

definition evictable :: "bg_task \<Rightarrow> bool" where
  "evictable t \<longleftrightarrow> is_terminal (bt_status t) \<and> bt_notified t"

definition evict_terminal :: "task_registry \<Rightarrow> string list \<times> task_registry" where
  "evict_terminal r =
     (let evicted = map fst (filter (\<lambda>(i, t). evictable t) (tk_tasks r))
      in (evicted,
          r\<lparr>tk_tasks := filter (\<lambda>(i, t). \<not> evictable t) (tk_tasks r),
            tk_names := (\<lambda>n. case tk_names r n of
                            Some i \<Rightarrow> if i \<in> set evicted then None else Some i | None \<Rightarrow> None)\<rparr>))"

text \<open>
  Shutdown: the processes killed, the agents told to stop, the output files unlinked, and the
  registry with no task left.
\<close>

definition shutdown_tasks ::
    "task_registry \<Rightarrow> string list \<times> string list \<times> string list \<times> task_registry" where
  "shutdown_tasks r =
     (let running = get_running r;
          has_process = (\<lambda>t. case bt_body t of
             Shell b \<Rightarrow> pb_process b | Monitor b \<Rightarrow> pb_process b | Agent b \<Rightarrow> False);
          has_event = (\<lambda>t. case agent_of t of Some b \<Rightarrow> ab_cancel_event b | None \<Rightarrow> False)
      in (map bt_id (filter has_process running), map bt_id (filter has_event running),
          filter (\<lambda>f. f \<noteq> []) (map bt_output_file (get_all_tasks r)), r\<lparr>tk_tasks := []\<rparr>))"

definition get_todos :: "string option \<Rightarrow> task_registry \<Rightarrow> dict list" where
  "get_todos agent r = (case tk_todos r agent of Some ts \<Rightarrow> ts | None \<Rightarrow> [])"

definition set_todos :: "string option \<Rightarrow> dict list \<Rightarrow> task_registry \<Rightarrow> task_registry" where
  "set_todos agent ts r = r\<lparr>tk_todos := (tk_todos r)(agent := (if ts \<noteq> [] then Some ts else None))\<rparr>"

section \<open>Notifications\<close>

definition exit_note :: "string \<Rightarrow> string \<Rightarrow> int option \<Rightarrow> string" where
  "exit_note before after ec = (case ec of Some c \<Rightarrow> before @ show_int c @ after | None \<Rightarrow> [])"

definition quoted :: "string \<Rightarrow> string" where
  "quoted s = ''\"'' @ s @ ''\"''"

definition monitor_summary :: "monitor_body \<Rightarrow> string \<Rightarrow> task_status \<Rightarrow> string" where
  "monitor_summary b d s =
     (if s = Task_Completed then ''Monitor '' @ quoted d @ '' stopped'' @ exit_note '' (exit code '' '')'' (pb_exit_code b)
      else if s = Task_Failed then ''Monitor '' @ quoted d @ '' failed'' @ exit_note '' with exit code '' [] (pb_exit_code b)
      else ''Monitor '' @ quoted d @ '' was stopped'')"

definition shell_summary :: "process_body \<Rightarrow> string \<Rightarrow> task_status \<Rightarrow> string" where
  "shell_summary b d s =
     (if s = Task_Completed then
        ''Background command '' @ quoted d @ '' completed'' @ exit_note '' (exit code '' '')'' (pb_exit_code b)
      else if s = Task_Failed then
        ''Background command '' @ quoted d @ '' failed'' @ exit_note '' with exit code '' [] (pb_exit_code b)
      else ''Background command '' @ quoted d @ '' was stopped'')"

definition nonempty_or :: "string \<Rightarrow> string option \<Rightarrow> string" where
  "nonempty_or d s = (case s of Some x \<Rightarrow> if x = [] then d else x | None \<Rightarrow> d)"

definition agent_summary :: "agent_body \<Rightarrow> string \<Rightarrow> task_status \<Rightarrow> string" where
  "agent_summary b d s =
     (if s = Task_Completed then ''Agent '' @ quoted d @ '' completed''
      else if s = Task_Failed then
        ''Agent '' @ quoted d @ '' failed: '' @ nonempty_or ''Unknown error'' (ab_error b)
      else ''Agent '' @ quoted d @ '' was stopped'')"

definition task_summary :: "bg_task \<Rightarrow> string" where
  "task_summary t =
     (case bt_body t of
        Monitor b \<Rightarrow> monitor_summary b (bt_description t) (bt_status t)
      | Shell b \<Rightarrow> shell_summary b (bt_description t) (bt_status t)
      | Agent b \<Rightarrow> agent_summary b (bt_description t) (bt_status t))"

definition tagged :: "string \<Rightarrow> string \<Rightarrow> string" where
  "tagged tag s = ''<'' @ tag @ ''>'' @ s @ ''</'' @ tag @ ''>''"

abbreviation newline :: string where "newline \<equiv> [CHR 0x0A]"

definition format_task_notification :: "bg_task \<Rightarrow> string" where
  "format_task_notification t =
     ''<task-notification>'' @ newline
     @ tagged ''task-id'' (bt_id t)
     @ (case bt_tool_use_id t of
          Some u \<Rightarrow> if u = [] then [] else newline @ tagged ''tool-use-id'' u | None \<Rightarrow> []) @ newline
     @ tagged ''output-file'' (bt_output_file t) @ newline
     @ tagged ''status'' (task_status_value (bt_status t)) @ newline
     @ tagged ''summary'' (task_summary t)
     @ (case agent_of t of
          Some b \<Rightarrow> (case ab_result b of
             Some x \<Rightarrow> if x = [] then [] else newline @ tagged ''result'' x | None \<Rightarrow> [])
        | None \<Rightarrow> []) @ newline
     @ ''</task-notification>''"

definition format_monitor_notification :: "string \<Rightarrow> string list \<Rightarrow> string" where
  "format_monitor_notification i lines =
     ''<monitor-update>'' @ newline @ tagged ''task-id'' i @ newline
     @ ''<output>'' @ newline @ join newline lines @ newline @ ''</output>'' @ newline
     @ ''</monitor-update>''"

text \<open>The notices of the drained ids; a task that is gone by now yields none.\<close>

definition notices :: "string list \<Rightarrow> task_registry \<Rightarrow> string list" where
  "notices ids r =
     concat (map (\<lambda>i. case get_task i r of Some t \<Rightarrow> [format_task_notification t] | None \<Rightarrow> []) ids)"

text \<open>
  \<open>drain_task_notifications\<close> of an orchestrator: the reminders it queues, if it can queue any.
\<close>

definition drain_task_notifications ::
    "string option \<Rightarrow> bool \<Rightarrow> task_registry \<Rightarrow> string list \<times> task_registry" where
  "drain_task_notifications agent can_queue r =
     (let (ids, r1) = drain_notifications agent r;
          r2 = snd (evict_terminal r1);
          (updates, r3) = drain_monitor_lines agent r2;
          reminders = notices ids r1 @ map (\<lambda>(i, ls). format_monitor_notification i ls) updates
      in (if can_queue then reminders else [], r3))"

text \<open>What a parent does for a child that ended: its notices, without the eviction.\<close>

definition drain_orphan_notifications ::
    "string \<Rightarrow> bool \<Rightarrow> task_registry \<Rightarrow> string list \<times> task_registry" where
  "drain_orphan_notifications child can_queue r =
     (let (ids, r1) = drain_notifications (Some child) r
      in (if can_queue then notices ids r1 else [], r1))"

section \<open>Tools and background coroutines\<close>

text \<open>\<open>_wait_and_notify\<close>: the exit code, \<open>None\<close> when the timeout killed the process.\<close>

definition wait_and_notify :: "time \<Rightarrow> string \<Rightarrow> int option \<Rightarrow> task_registry \<Rightarrow> task_registry" where
  "wait_and_notify now i exited r =
     (let rc = (case exited of Some c \<Rightarrow> c | None \<Rightarrow> - 1)
      in enqueue_notification i
           (update_task_status now i (if rc = 0 then Task_Completed else Task_Failed) (Some rc) None None r))"

definition monitor_exit :: "time \<Rightarrow> string \<Rightarrow> int option \<Rightarrow> task_registry \<Rightarrow> task_registry" where
  "monitor_exit now i rc r =
     (case get_task i r of
        None \<Rightarrow> r
      | Some t \<Rightarrow>
          if is_terminal (bt_status t) then r
          else enqueue_notification i
            (update_task_status now i (if rc = Some 0 then Task_Completed else Task_Failed) rc None None r))"

definition MAX_BUFFERED_LINES :: nat where "MAX_BUFFERED_LINES = 50"

text \<open>One line into the ring buffer; with a cap of zero the \<open>pop\<close> raises and nothing is buffered.\<close>

definition buffer_line :: "nat \<Rightarrow> string \<Rightarrow> string list \<Rightarrow> string list" where
  "buffer_line cap line buf =
     (if cap \<le> length buf then (case buf of [] \<Rightarrow> [] | _ # rest \<Rightarrow> rest @ [line]) else buf @ [line])"

definition monitor_read :: "string \<Rightarrow> string list \<Rightarrow> task_registry \<Rightarrow> task_registry" where
  "monitor_read i lines =
     modify_task i (\<lambda>t. case monitor_of t of
       Some b \<Rightarrow> with_lines (fold (buffer_line (mb_cap b)) lines (mb_lines b)) t | None \<Rightarrow> t)"

text \<open>How a background agent's run ended: its text parts and its transcript.\<close>

datatype agent_ending =
  Agent_Unspawnable
| Agent_Returned "string list" "message list"
| Agent_Cancelled
| Agent_Crashed string

definition with_transcript :: "message list \<Rightarrow> bg_task \<Rightarrow> bg_task" where
  "with_transcript ms t =
     t\<lparr>bt_body := (case bt_body t of
         Agent b \<Rightarrow> if ms \<noteq> [] then Agent (b\<lparr>ab_transcript := Some ms\<rparr>) else Agent b | x \<Rightarrow> x)\<rparr>"

definition run_agent_background :: "time \<Rightarrow> string \<Rightarrow> agent_ending \<Rightarrow> task_registry \<Rightarrow> task_registry" where
  "run_agent_background now i ending r =
     enqueue_notification i
       (case ending of
          Agent_Unspawnable \<Rightarrow>
            update_task_status now i Task_Failed None None (Some ''spawn_subagent not available'') r
        | Agent_Returned parts transcript \<Rightarrow>
            (let reply = (if concat parts = [] then ''(agent produced no output)'' else concat parts)
             in modify_task i (with_transcript transcript)
                  (update_task_status now i Task_Completed None (Some reply) None r))
        | Agent_Cancelled \<Rightarrow> update_task_status now i Task_Killed None None None r
        | Agent_Crashed e \<Rightarrow> update_task_status now i Task_Failed None None (Some e) r)"

definition single_quoted :: "string \<Rightarrow> string" where
  "single_quoted s = [CHR 0x27] @ s @ [CHR 0x27]"

text \<open>\<open>_spawn_background\<close> of the agent tool, with the new id and its output path.\<close>

record agent_request =
  ar_description :: string
  ar_prompt :: string
  ar_type :: string
  ar_model :: "string option"
  ar_name :: "string option"

definition new_agent_task ::
    "string \<Rightarrow> string \<Rightarrow> string option \<Rightarrow> agent_request \<Rightarrow> bg_task" where
  "new_agent_task i path owner q =
     \<lparr>bt_id = i, bt_status = Task_Running, bt_description = ar_description q, bt_tool_use_id = None,
      bt_owner = owner, bt_start = 0, bt_end = None, bt_output_file = path, bt_notified = False,
      bt_body = Agent \<lparr>ab_agent_id = i, ab_agent_type = ar_type q, ab_prompt = ar_prompt q,
        ab_model = ar_model q, ab_result = None, ab_error = None, ab_backgrounded = True,
        ab_name = ar_name q, ab_messages = [], ab_transcript = None, ab_cancel_event = False\<rparr>\<rparr>"

definition spawn_background_agent ::
    "time \<Rightarrow> string \<Rightarrow> string \<Rightarrow> string option \<Rightarrow> agent_request \<Rightarrow> task_registry
       \<Rightarrow> string result \<times> task_registry" where
  "spawn_background_agent now i path owner q r =
     (case ar_name q of
        None \<Rightarrow> (Inr i, register_task now (new_agent_task i path owner q) r)
      | Some n \<Rightarrow>
          if n = [] then (Inr i, register_task now (new_agent_task i path owner q) r)
          else (let (ok, r1) = register_name n i r in
                if ok then (Inr i, register_task now (new_agent_task i path owner q) r1)
                else (Inl (''Agent name '' @ single_quoted n @ '' is already taken. Choose a different name.''), r1)))"

text \<open>The stop of a task: its answer, and whether a process was killed or an agent told to stop.\<close>

datatype stop_effect = Process_Killed | Cancel_Set | Nothing_Stopped

definition stop_effect_of :: "bg_task \<Rightarrow> stop_effect" where
  "stop_effect_of t =
     (case bt_body t of
        Shell b \<Rightarrow> if pb_process b then Process_Killed else Nothing_Stopped
      | Monitor b \<Rightarrow> if pb_process b then Process_Killed else Nothing_Stopped
      | Agent b \<Rightarrow> if ab_cancel_event b then Cancel_Set else Nothing_Stopped)"

definition task_stop ::
    "time \<Rightarrow> string \<Rightarrow> task_registry \<Rightarrow> (stop_effect \<times> string) result \<times> task_registry" where
  "task_stop now i r =
     (case get_task i r of
        None \<Rightarrow> (Inl (''No task found with ID: '' @ i), r)
      | Some t \<Rightarrow>
          if bt_status t \<noteq> Task_Running then
            (Inl (''Task '' @ i @ '' is not running (status: '' @ task_status_value (bt_status t) @ '')''), r)
          else
            (Inr (stop_effect_of t, ''Successfully stopped task: '' @ i @ '' ('' @ bt_description t @ '')''),
             enqueue_notification i (update_task_status now i Task_Killed None None None r)))"

text \<open>
  \<open>SendMessage\<close>: the answer and the agent it launches, if any, with its transcript.
  \<open>deliver\<close> is the cross-session closure.
\<close>

record send_world =
  sw_tasks :: bool
  sw_spawn :: bool
  sw_agent_id :: "string option"
  sw_deliver :: "(string \<Rightarrow> string \<Rightarrow> bool) option"

definition session_prefix :: string where "session_prefix = ''session:''"

definition resume_request :: "string \<Rightarrow> bg_task \<Rightarrow> agent_body \<Rightarrow> agent_request" where
  "resume_request m t b =
     \<lparr>ar_description = ''(resumed) '' @ bt_description t, ar_prompt = m, ar_type = ab_agent_type b,
      ar_model = ab_model b, ar_name = ab_name b\<rparr>"

definition resume_agent ::
    "send_world \<Rightarrow> time \<Rightarrow> string \<Rightarrow> string \<Rightarrow> string \<Rightarrow> bg_task \<Rightarrow> agent_body \<Rightarrow> string \<Rightarrow> task_registry
       \<Rightarrow> (bool \<times> string) \<times> (string \<times> message list option) option \<times> task_registry" where
  "resume_agent w now new_id path to t b m r =
     (if \<not> sw_spawn w then
        ((False, ''Cannot resume agent: sub-agent spawning not available.''), None, r)
      else
        (let r1 = register_task now (new_agent_task new_id path (sw_agent_id w) (resume_request m t b)) r;
             r2 = (case ab_name b of Some n \<Rightarrow> if n = [] then r1 else update_name n new_id r1 | None \<Rightarrow> r1);
             label = single_quoted (nonempty_or to (ab_name b))
         in ((True, ''Agent '' @ label @ '' was stopped ('' @ task_status_value (bt_status t)
                @ ''); resumed in background with your message.  New task ID: '' @ new_id @ ''.''),
             Some (new_id, ab_transcript b), r2)))"

definition send_to_session :: "send_world \<Rightarrow> string \<Rightarrow> string \<Rightarrow> bool \<times> string" where
  "send_to_session w target m =
     (if target = [] then (False, ''Empty session ID in '' @ single_quoted ''to'' @ '' field.'')
      else (case sw_deliver w of
              None \<Rightarrow> (False, ''Cross-session messaging is not available (SessionManager not wired).'')
            | Some deliver \<Rightarrow>
                if deliver target m then (True, ''Message delivered to session '' @ target @ ''.'')
                else (False, ''Session '' @ single_quoted target @ '' not found or not active.'')))"

definition resolve_agent :: "string \<Rightarrow> task_registry \<Rightarrow> string option" where
  "resolve_agent to r =
     (case resolve_name to r of
        Some i \<Rightarrow> Some i
      | None \<Rightarrow> if get_task to r \<noteq> None then Some to else None)"

definition send_message ::
    "send_world \<Rightarrow> time \<Rightarrow> string \<Rightarrow> string \<Rightarrow> string \<Rightarrow> string \<Rightarrow> task_registry
       \<Rightarrow> (bool \<times> string) \<times> (string \<times> message list option) option \<times> task_registry" where
  "send_message w now new_id path to m r =
     (if to = ''*'' then ((False, ''Broadcast (to='' @ single_quoted ''*'' @ '') is not yet supported.''), None, r)
      else if prefix session_prefix to then
        (send_to_session w (drop (length session_prefix) to) m, None, r)
      else if \<not> sw_tasks w then ((False, ''Task registry not available.''), None, r)
      else (case resolve_agent to r of
              None \<Rightarrow> ((False, ''Agent '' @ single_quoted to
                @ '' not found.  No agent with that name or task ID exists.''), None, r)
            | Some i \<Rightarrow>
                (case get_task i r of
                   None \<Rightarrow> ((False, ''Task '' @ single_quoted i @ '' is not an agent task.''), None, r)
                 | Some t \<Rightarrow>
                     (case agent_of t of
                        None \<Rightarrow> ((False, ''Task '' @ single_quoted i @ '' is not an agent task.''), None, r)
                      | Some b \<Rightarrow>
                          if bt_status t = Task_Running then
                            ((True, ''Message queued for delivery to '' @ single_quoted to
                               @ '' at its next tool round.''), None, snd (queue_message i m r))
                          else if is_terminal (bt_status t) then
                            resume_agent w now new_id path to t b m r
                          else ((False, ''Agent '' @ single_quoted to @ '' is in status ''
                                   @ single_quoted (task_status_value (bt_status t))
                                   @ '' and cannot receive messages.''), None, r)))))"

text \<open>
  \<open>TodoWrite\<close> on validated todos: a list whose items are all completed is stored as no list. The
  answer is the old and the new todos; \<open>None\<close> stands for a context without a registry.
\<close>

definition all_done :: "dict list \<Rightarrow> bool" where
  "all_done todos \<longleftrightarrow> list_all (\<lambda>t. map_of t ''status'' = Some (JStr ''completed'')) todos"

definition todo_write ::
    "string option \<Rightarrow> dict list \<Rightarrow> task_registry option \<Rightarrow> (dict list \<times> dict list) \<times> task_registry option" where
  "todo_write agent todos reg =
     (let new_todos = (if all_done todos then [] else todos)
      in case reg of
           None \<Rightarrow> (([], new_todos), None)
         | Some r \<Rightarrow> ((get_todos agent r, new_todos), Some (set_todos agent new_todos r)))"

text \<open>\<open>validate_input\<close>: the message of the error it raises, if it does.\<close>

definition TODO_FIELDS :: "string list" where
  "TODO_FIELDS = [''content'', ''activeForm'', ''status'']"

definition blank_field :: "dict \<Rightarrow> string \<Rightarrow> bool" where
  "blank_field item k = (case map_of item k of Some (JStr s) \<Rightarrow> strip s = [] | _ \<Rightarrow> True)"

definition todo_at :: "nat \<Rightarrow> string" where "todo_at i = ''todos['' @ show_nat i @ '']''"

definition check_todo :: "nat \<Rightarrow> json \<Rightarrow> string option" where
  "check_todo i item =
     (case item of
        JObj d \<Rightarrow>
          (case filter (blank_field d) TODO_FIELDS of
             k # _ \<Rightarrow> Some (todo_at i @ ''.'' @ k @ '' is required (non-empty string)'')
           | [] \<Rightarrow> if map_of d ''status'' \<in> {Some (JStr ''pending''), Some (JStr ''in_progress''), Some (JStr ''completed'')}
                  then None
                  else Some (todo_at i @ ''.status must be one of pending / in_progress / completed''))
      | _ \<Rightarrow> Some (todo_at i @ '' must be an object''))"

fun check_todos :: "nat \<Rightarrow> json list \<Rightarrow> string option" where
  "check_todos i [] = None"
| "check_todos i (x # xs) = (case check_todo i x of Some e \<Rightarrow> Some e | None \<Rightarrow> check_todos (Suc i) xs)"

definition validate_todos :: "dict \<Rightarrow> string option" where
  "validate_todos inp =
     (case map_of inp ''todos'' of
        Some (JArr xs) \<Rightarrow> check_todos 0 xs
      | _ \<Rightarrow> Some ([CHR 0x27] @ ''todos'' @ [CHR 0x27] @ '' must be a list''))"

section \<open>The dictionary\<close>

lemma get_put [simp]: "get_task j (put_task i t r) = (if j = i then Some t else get_task j r)"
  by (simp add: get_task_def put_task_def update_conv')

lemma put_fields [simp]:
  "tk_queue (put_task i t r) = tk_queue r" "tk_names (put_task i t r) = tk_names r"
  "tk_todos (put_task i t r) = tk_todos r"
  by (simp_all add: put_task_def)

lemma get_update [simp]:
  "get_task i (r\<lparr>tk_queue := q\<rparr>) = get_task i r" "get_task i (r\<lparr>tk_names := n\<rparr>) = get_task i r"
  "get_task i (r\<lparr>tk_todos := td\<rparr>) = get_task i r"
  by (simp_all add: get_task_def)

lemma modify_fields [simp]:
  "tk_queue (modify_task i f r) = tk_queue r" "tk_names (modify_task i f r) = tk_names r"
  by (simp_all add: modify_task_def split: option.split)

lemma get_modify [simp]:
  "get_task j (modify_task i f r) = (if j = i then map_option f (get_task j r) else get_task j r)"
  by (simp add: modify_task_def split: option.split)

lemma with_messages_agent [simp]:
  "agent_of (with_messages ms t) = map_option (\<lambda>b. b\<lparr>ab_messages := ms\<rparr>) (agent_of t)"
  by (simp add: agent_of_def with_messages_def split: task_body.split)

lemma agent_of_notified [simp]:
  "agent_of (t\<lparr>bt_notified := n\<rparr>) = agent_of t"
  by (simp add: agent_of_def)

section \<open>The two mailboxes\<close>

definition pending_for :: "string option \<Rightarrow> task_registry \<Rightarrow> string list" where
  "pending_for a r = map fst (filter (\<lambda>x. snd x = a) (tk_queue r))"

definition notice_owner :: "string \<Rightarrow> task_registry \<Rightarrow> string option option" where
  "notice_owner i r = (case get_task i r of
     Some t \<Rightarrow> if bt_notified t then None else Some (bt_owner t) | None \<Rightarrow> None)"

interpretation notice_box: mailbox pending_for notice_owner enqueue_notification drain_notifications
proof unfold_locales
  fix a x r
  show "pending_for a (enqueue_notification x r) =
      pending_for a r @ (if notice_owner x r = Some a then [x] else [])"
    by (simp add: pending_for_def enqueue_notification_def notice_owner_def split: option.split)
next
  fix a r
  show "fst (drain_notifications a r) = pending_for a r"
    by (simp add: drain_notifications_def pending_for_def case_prod_unfold)
next
  fix b a r
  show "pending_for b (snd (drain_notifications a r)) = (if b = a then [] else pending_for b r)"
    by (auto simp: drain_notifications_def pending_for_def case_prod_unfold filter_empty_conv
        intro!: arg_cong [of _ _ "map fst"] filter_cong)
qed

definition inbox :: "string \<Rightarrow> task_registry \<Rightarrow> (string \<times> string) list" where
  "inbox i r = (case get_task i r of
     Some t \<Rightarrow> (case agent_of t of Some b \<Rightarrow> map (Pair i) (ab_messages b) | None \<Rightarrow> []) | None \<Rightarrow> [])"

definition addressee :: "string \<times> string \<Rightarrow> task_registry \<Rightarrow> string option" where
  "addressee x r = (case get_task (fst x) r of
     Some t \<Rightarrow> (case agent_of t of Some b \<Rightarrow> Some (fst x) | None \<Rightarrow> None) | None \<Rightarrow> None)"

definition post_message :: "string \<times> string \<Rightarrow> task_registry \<Rightarrow> task_registry" where
  "post_message x r = snd (queue_message (fst x) (snd x) r)"

definition fetch_messages :: "string \<Rightarrow> task_registry \<Rightarrow> (string \<times> string) list \<times> task_registry" where
  "fetch_messages i r = (let (ms, r') = drain_messages i r in (map (Pair i) ms, r'))"

interpretation agent_box: mailbox inbox addressee post_message fetch_messages
proof unfold_locales
  fix k x r
  show "inbox k (post_message x r) = inbox k r @ (if addressee x r = Some k then [x] else [])"
    by (auto simp: inbox_def post_message_def queue_message_def addressee_def split: option.splits)
next
  fix k r
  show "fst (fetch_messages k r) = inbox k r"
    by (auto simp: inbox_def fetch_messages_def drain_messages_def split: option.splits)
next
  fix j k r
  show "inbox j (snd (fetch_messages k r)) = (if j = k then [] else inbox j r)"
    by (auto simp: inbox_def fetch_messages_def drain_messages_def split: option.splits)
qed

end
