(* ===== verification/Task_Session.thy ===== *)
theory Task_Session
  imports Tasks
begin

text \<open>
  A session's task registry over time: the operations the tools, the background coroutines and the
  orchestrators perform on it, in any order, and the invariants they keep.
\<close>

section \<open>Operations\<close>

datatype bg_op =
  Op_Register time bg_task
| Op_Spawn time string string "string option" agent_request
| Op_Send send_world time string string string string
| Op_Messages string
| Op_Wait time string "int option"
| Op_Monitor_Exit time string "int option"
| Op_Monitor_Read string "string list"
| Op_Agent_End time string agent_ending
| Op_Stop time string
| Op_Turn "string option" bool
| Op_Child_End string bool
| Op_Todos "string option" "dict list"

fun bg_step :: "bg_op \<Rightarrow> task_registry \<Rightarrow> task_registry" where
  "bg_step (Op_Register now t) r = register_task now t r"
| "bg_step (Op_Spawn now i path owner q) r = snd (spawn_background_agent now i path owner q r)"
| "bg_step (Op_Send w now i path to m) r = snd (snd (send_message w now i path to m r))"
| "bg_step (Op_Messages i) r = snd (drain_messages i r)"
| "bg_step (Op_Wait now i rc) r = wait_and_notify now i rc r"
| "bg_step (Op_Monitor_Exit now i rc) r = monitor_exit now i rc r"
| "bg_step (Op_Monitor_Read i ls) r = monitor_read i ls r"
| "bg_step (Op_Agent_End now i e) r = run_agent_background now i e r"
| "bg_step (Op_Stop now i) r = snd (task_stop now i r)"
| "bg_step (Op_Turn a q) r = snd (drain_task_notifications a q r)"
| "bg_step (Op_Child_End c q) r = snd (drain_orphan_notifications c q r)"
| "bg_step (Op_Todos a ts) r = set_todos a ts r"

definition bg_run :: "bg_op list \<Rightarrow> task_registry \<Rightarrow> task_registry" where
  "bg_run ops r = fold bg_step ops r"

text \<open>
  A new task is registered running, not notified, and under an id that is neither registered nor
  waiting in the queue: ids are random.
\<close>

definition unused :: "string \<Rightarrow> task_registry \<Rightarrow> bool" where
  "unused i r \<longleftrightarrow> get_task i r = None \<and> i \<notin> fst ` set (tk_queue r)"

fun fresh_op :: "bg_op \<Rightarrow> task_registry \<Rightarrow> bool" where
  "fresh_op (Op_Register now t) r =
     (unused (bt_id t) r \<and> \<not> bt_notified t \<and> \<not> is_terminal (bt_status t)
      \<and> (\<forall>b. monitor_of t = Some b \<longrightarrow> length (mb_lines b) \<le> mb_cap b))"
| "fresh_op (Op_Spawn now i path owner q) r = unused i r"
| "fresh_op (Op_Send w now i path to m) r = unused i r"
| "fresh_op _ r = True"

fun fresh_run :: "bg_op list \<Rightarrow> task_registry \<Rightarrow> bool" where
  "fresh_run [] r = True"
| "fresh_run (op # ops) r = (fresh_op op r \<and> fresh_run ops (bg_step op r))"

text \<open>The agents an operation names: who owns its new task, who drains.\<close>

fun agents_of :: "bg_op \<Rightarrow> string option set" where
  "agents_of (Op_Register now t) = {bt_owner t}"
| "agents_of (Op_Spawn now i path owner q) = {owner}"
| "agents_of (Op_Send w now i path to m) = {sw_agent_id w}"
| "agents_of (Op_Turn a q) = {a}"
| "agents_of (Op_Child_End c q) = {Some c}"
| "agents_of _ = {}"

section \<open>The invariant\<close>

text \<open>
  Ids are distinct and are the tasks' own; a task is queued at most once, and a queued task is marked
  and queued under its owner; a finished task is marked, and only a finished one is; a monitor's buffer is
  within its cap.
\<close>

definition task_fits :: "string \<Rightarrow> bg_task \<Rightarrow> bool" where
  "task_fits i t \<longleftrightarrow> bt_id t = i \<and> (bt_notified t \<longleftrightarrow> is_terminal (bt_status t))
     \<and> (\<forall>b. monitor_of t = Some b \<longrightarrow> length (mb_lines b) \<le> mb_cap b)"

definition registry_ok :: "task_registry \<Rightarrow> bool" where
  "registry_ok r \<longleftrightarrow>
     distinct (map fst (tk_tasks r)) \<and> distinct (map fst (tk_queue r))
     \<and> (\<forall>i t. get_task i r = Some t \<longrightarrow> task_fits i t)
     \<and> (\<forall>i a t. (i, a) \<in> set (tk_queue r) \<and> get_task i r = Some t \<longrightarrow> bt_notified t \<and> bt_owner t = a)"

text \<open>In a session of one agent the queue holds exactly the finished tasks.\<close>

definition only_agent :: "string option \<Rightarrow> task_registry \<Rightarrow> bool" where
  "only_agent a r \<longleftrightarrow>
     (\<forall>i t. get_task i r = Some t \<longrightarrow> bt_owner t = a \<and> (bt_notified t \<longrightarrow> i \<in> fst ` set (tk_queue r)))
     \<and> (\<forall>x \<in> set (tk_queue r). snd x = a \<and> get_task (fst x) r \<noteq> None)"

lemma registry_okD:
  assumes "registry_ok r"
  shows "distinct (map fst (tk_tasks r))" "distinct (map fst (tk_queue r))"
    "get_task i r = Some t \<Longrightarrow> task_fits i t"
    "(i, a) \<in> set (tk_queue r) \<Longrightarrow> get_task i r = Some t \<Longrightarrow> bt_notified t \<and> bt_owner t = a"
  using assms by (auto simp: registry_ok_def)

lemma new_registry_ok [simp]: "registry_ok new_registry" "only_agent a new_registry"
  by (simp_all add: registry_ok_def only_agent_def new_registry_def get_task_def)

lemma put_distinct: "distinct (map fst (tk_tasks r)) \<Longrightarrow> distinct (map fst (tk_tasks (put_task i t r)))"
  by (simp add: put_task_def distinct_update)

text \<open>An update that leaves the owner and the mark alone.\<close>

definition quiet :: "(bg_task \<Rightarrow> bg_task) \<Rightarrow> bool" where
  "quiet f \<longleftrightarrow> (\<forall>t. bt_owner (f t) = bt_owner t \<and> bt_notified (f t) = bt_notified t)"

lemma put_keeps:
  assumes "registry_ok r" "get_task i r = Some t" "task_fits i t'"
    and "bt_owner t' = bt_owner t" "bt_notified t' = bt_notified t"
  shows "registry_ok (put_task i t' r)" "only_agent a r \<Longrightarrow> only_agent a (put_task i t' r)"
  using assms put_distinct [of r i t'] by (auto simp: registry_ok_def only_agent_def)

lemma fields_keep:
  assumes "registry_ok r"
  shows "registry_ok (r\<lparr>tk_names := n\<rparr>)" "registry_ok (r\<lparr>tk_todos := td\<rparr>)"
    "only_agent a r \<Longrightarrow> only_agent a (r\<lparr>tk_names := n\<rparr>)" "only_agent a r \<Longrightarrow> only_agent a (r\<lparr>tk_todos := td\<rparr>)"
  using assms by (auto simp: registry_ok_def only_agent_def)

lemma register_keeps:
  assumes "registry_ok r" "unused (bt_id t) r" "\<not> bt_notified t" "\<not> is_terminal (bt_status t)"
    and "\<forall>b. monitor_of t = Some b \<longrightarrow> length (mb_lines b) \<le> mb_cap b"
  shows "registry_ok (register_task now t r)"
    "only_agent a r \<Longrightarrow> bt_owner t = a \<Longrightarrow> only_agent a (register_task now t r)"
proof -
  have "task_fits (bt_id t) (t\<lparr>bt_start := now\<rparr>)"
    using assms(3-5) by (auto simp: task_fits_def monitor_of_def)
  moreover have "bt_id t \<notin> fst ` set (tk_queue r)" using assms(2) by (simp add: unused_def)
  ultimately show "registry_ok (register_task now t r)"
    using assms(1) put_distinct [of r "bt_id t" "t\<lparr>bt_start := now\<rparr>"]
    by (force simp: registry_ok_def register_task_def)
  show "only_agent a r \<Longrightarrow> bt_owner t = a \<Longrightarrow> only_agent a (register_task now t r)"
    using assms(3) by (auto simp: only_agent_def register_task_def)
qed

text \<open>Closing a task and announcing it, the shape all the coroutines share.\<close>

definition announce :: "string \<Rightarrow> (bg_task \<Rightarrow> bg_task) \<Rightarrow> task_registry \<Rightarrow> task_registry" where
  "announce i f r = enqueue_notification i (modify_task i f r)"

definition closes :: "(bg_task \<Rightarrow> bg_task) \<Rightarrow> bool" where
  "closes f \<longleftrightarrow> quiet f \<and> (\<forall>t. bt_id (f t) = bt_id t \<and> is_terminal (bt_status (f t))
     \<and> (\<forall>b. monitor_of (f t) = Some b \<longrightarrow> (\<exists>b0. monitor_of t = Some b0 \<and> mb_lines b = mb_lines b0 \<and> mb_cap b = mb_cap b0)))"

lemma closes_close [simp]: "is_terminal s \<Longrightarrow> closes (closed_task now s ec res err)"
  by (auto simp: closes_def quiet_def closed_task_def monitor_of_def split: task_body.splits)

lemma closes_transcript [simp]: "closes f \<Longrightarrow> closes (with_transcript ms \<circ> f)"
  by (fastforce simp: closes_def quiet_def with_transcript_def monitor_of_def split: task_body.splits)

lemma announce_queue:
  "tk_queue (announce i f r) = tk_queue r @
     (case get_task i r of Some t \<Rightarrow> if bt_notified (f t) then [] else [(i, bt_owner (f t))] | None \<Rightarrow> [])"
  by (simp add: announce_def enqueue_notification_def split: option.split)

lemma announce_get:
  "get_task j (announce i f r) =
     (if j = i then map_option (\<lambda>t. (f t)\<lparr>bt_notified := True\<rparr>) (get_task i r) else get_task j r)"
  by (auto simp: announce_def enqueue_notification_def split: option.split)

lemma announce_distinct:
  assumes "distinct (map fst (tk_tasks r))"
  shows "distinct (map fst (tk_tasks (announce i f r)))"
proof -
  have "distinct (map fst (tk_tasks (modify_task i f r)))"
    using assms put_distinct by (simp add: modify_task_def split: option.split)
  then show ?thesis
    using put_distinct [of "modify_task i f r" i] by (simp add: announce_def enqueue_notification_def split: option.split)
qed

lemma announce_keeps:
  assumes ok: "registry_ok r" and "closes f"
  shows "registry_ok (announce i f r)" "only_agent a r \<Longrightarrow> only_agent a (announce i f r)"
proof -
  have f: "bt_notified (f t) = bt_notified t" "bt_owner (f t) = bt_owner t" for t
    using assms(2) by (simp_all add: closes_def quiet_def)
  have fits: "task_fits i ((f t)\<lparr>bt_notified := True\<rparr>)" if "get_task i r = Some t" for t
    using registry_okD(3) [OF ok that] assms(2) by (fastforce simp: task_fits_def closes_def monitor_of_def)
  have "i \<notin> fst ` set (tk_queue r)" if "get_task i r = Some t" "\<not> bt_notified t" for t
    using registry_okD(4) [OF ok _ that(1)] that(2) by auto
  then have "distinct (map fst (tk_queue (announce i f r)))"
    using registry_okD(2) [OF ok] by (force simp: announce_queue f split: option.splits)
  then show "registry_ok (announce i f r)"
    using announce_distinct [OF registry_okD(1) [OF ok]] registry_okD(3,4) [OF ok] fits
    by (auto simp: registry_ok_def announce_get announce_queue f split: option.splits if_splits)
  show "only_agent a (announce i f r)" if only: "only_agent a r"
  proof (cases "get_task i r")
    case None
    then show ?thesis using only by (auto simp: only_agent_def announce_get announce_queue f)
  next
    case (Some t)
    then have "bt_owner t = a" "bt_notified t \<Longrightarrow> i \<in> fst ` set (tk_queue r)"
      using only by (auto simp: only_agent_def)
    with only Some show ?thesis
      by (cases "bt_notified t") (simp_all add: only_agent_def announce_get announce_queue f)
  qed
qed

section \<open>Every operation keeps it\<close>

lemma coroutines:
  "wait_and_notify now i rc r =
     announce i (closed_task now (if (case rc of Some c \<Rightarrow> c | None \<Rightarrow> - 1) = 0 then Task_Completed else Task_Failed)
       (Some (case rc of Some c \<Rightarrow> c | None \<Rightarrow> - 1)) None None) r"
  "run_agent_background now i e r =
     announce i (case e of
       Agent_Unspawnable \<Rightarrow> closed_task now Task_Failed None None (Some ''spawn_subagent not available'')
     | Agent_Returned parts ms \<Rightarrow> with_transcript ms \<circ> closed_task now Task_Completed None
         (Some (if concat parts = [] then ''(agent produced no output)'' else concat parts)) None
     | Agent_Cancelled \<Rightarrow> closed_task now Task_Killed None None None
     | Agent_Crashed x \<Rightarrow> closed_task now Task_Failed None None (Some x)) r"
proof -
  have "modify_task i g (modify_task i f r) = modify_task i (g \<circ> f) r" for f g
    by (simp add: modify_task_def put_task_def get_task_def update_conv' split: option.split)
  then show "run_agent_background now i e r = announce i (case e of
       Agent_Unspawnable \<Rightarrow> closed_task now Task_Failed None None (Some ''spawn_subagent not available'')
     | Agent_Returned parts ms \<Rightarrow> with_transcript ms \<circ> closed_task now Task_Completed None
         (Some (if concat parts = [] then ''(agent produced no output)'' else concat parts)) None
     | Agent_Cancelled \<Rightarrow> closed_task now Task_Killed None None None
     | Agent_Crashed x \<Rightarrow> closed_task now Task_Failed None None (Some x)) r"
    by (cases e) (simp_all add: run_agent_background_def announce_def update_task_status_def Let_def)
qed (simp add: wait_and_notify_def announce_def update_task_status_def Let_def)

lemma terminal_simps [simp]:
  "is_terminal Task_Completed" "is_terminal Task_Failed" "is_terminal Task_Killed"
  "\<not> is_terminal Task_Running" "\<not> is_terminal Task_Pending"
  by (simp_all add: is_terminal_def)

lemma announced:
  "\<exists>f. closes f \<and> wait_and_notify now i rc r = announce i f r"
  "\<exists>f. closes f \<and> run_agent_background now i e r = announce i f r"
  "monitor_exit now i ec r = r \<or> (\<exists>f. closes f \<and> monitor_exit now i ec r = announce i f r)"
  "snd (task_stop now i r) = r \<or> (\<exists>f. closes f \<and> snd (task_stop now i r) = announce i f r)"
proof -
  show "\<exists>f. closes f \<and> wait_and_notify now i rc r = announce i f r"
    unfolding coroutines by (intro exI conjI, rule closes_close) (simp_all split: if_splits)
  show "\<exists>f. closes f \<and> run_agent_background now i e r = announce i f r"
    unfolding coroutines by (cases e) (simp_all only: agent_ending.case, (rule exI, rule conjI [OF _ refl], simp)+)
  show "monitor_exit now i ec r = r \<or> (\<exists>f. closes f \<and> monitor_exit now i ec r = announce i f r)"
    by (auto simp: monitor_exit_def announce_def update_task_status_def split: option.splits
        intro!: exI [where x = "closed_task now (if ec = Some 0 then Task_Completed else Task_Failed) ec None None"])
  show "snd (task_stop now i r) = r \<or> (\<exists>f. closes f \<and> snd (task_stop now i r) = announce i f r)"
    by (auto simp: task_stop_def announce_def update_task_status_def split: option.splits
        intro!: exI [where x = "closed_task now Task_Killed None None None"])
qed

lemma buffer_line_cap: "length buf \<le> cap \<Longrightarrow> length (buffer_line cap l buf) \<le> cap"
  by (cases buf) (auto simp: buffer_line_def)

lemma buffer_lines_cap: "length buf \<le> cap \<Longrightarrow> length (fold (buffer_line cap) ls buf) \<le> cap"
  by (induction ls arbitrary: buf) (simp_all add: buffer_line_cap)

lemma body_update_fields [simp]:
  "bt_owner (with_messages ms t) = bt_owner t" "bt_notified (with_messages ms t) = bt_notified t"
  "bt_owner (with_lines ls t) = bt_owner t" "bt_notified (with_lines ls t) = bt_notified t"
  "bt_status (with_lines ls t) = bt_status t" "bt_id (with_lines ls t) = bt_id t"
  "monitor_of (with_messages ms t) = monitor_of t"
  "monitor_of (with_lines ls t) = map_option (\<lambda>b. b\<lparr>mb_lines := ls\<rparr>) (monitor_of t)"
  by (simp_all add: with_messages_def with_lines_def monitor_of_def split: task_body.splits)

lemma with_messages_fits [simp]: "task_fits i (with_messages ms t) = task_fits i t"
  by (simp add: task_fits_def) (simp add: with_messages_def)

lemma messages_keep:
  assumes "registry_ok r"
  shows "registry_ok (snd (queue_message i m r))" "registry_ok (snd (drain_messages i r))"
    "only_agent a r \<Longrightarrow> only_agent a (snd (queue_message i m r))"
    "only_agent a r \<Longrightarrow> only_agent a (snd (drain_messages i r))"
  using assms registry_okD(3) [OF assms]
  by (auto simp: queue_message_def drain_messages_def split: option.split intro!: put_keeps)

lemma monitor_read_keeps:
  assumes "registry_ok r"
  shows "registry_ok (monitor_read i ls r)" "only_agent a r \<Longrightarrow> only_agent a (monitor_read i ls r)"
  using assms registry_okD(3) [OF assms]
  by (auto simp: monitor_read_def modify_task_def task_fits_def buffer_lines_cap
      split: option.split intro!: put_keeps)

lemma spawn_keeps:
  assumes "registry_ok r" "unused i r"
  shows "registry_ok (snd (spawn_background_agent now i path ow q r))"
    "only_agent a r \<Longrightarrow> ow = a \<Longrightarrow> only_agent a (snd (spawn_background_agent now i path ow q r))"
proof -
  have unused: "unused i (r\<lparr>tk_names := n\<rparr>)" for n using assms(2) by (simp add: unused_def)
  have "registry_ok (register_task now (new_agent_task i path ow q) r')"
    "only_agent a r' \<Longrightarrow> ow = a \<Longrightarrow> only_agent a (register_task now (new_agent_task i path ow q) r')"
    if "registry_ok r'" "unused i r'" for r' a
    using register_keeps [where r = r' and t = "new_agent_task i path ow q" and now = now] that
    by (simp_all add: new_agent_task_def monitor_of_def)
  from this [OF assms] this [OF fields_keep(1) [OF assms(1)] unused] show
    "registry_ok (snd (spawn_background_agent now i path ow q r))"
    "only_agent a r \<Longrightarrow> ow = a \<Longrightarrow> only_agent a (snd (spawn_background_agent now i path ow q r))"
    using assms(1) fields_keep(3)
    by (auto simp: spawn_background_agent_def register_name_def split: option.split)
qed

lemma send_keeps:
  assumes "registry_ok r" "unused i r"
  shows "registry_ok (snd (snd (send_message w now i path to m r)))"
    "only_agent a r \<Longrightarrow> sw_agent_id w = a \<Longrightarrow> only_agent a (snd (snd (send_message w now i path to m r)))"
proof -
  have reg: "registry_ok (register_task now (new_agent_task i path (sw_agent_id w) q) r)"
    "only_agent a r \<Longrightarrow> sw_agent_id w = a \<Longrightarrow>
       only_agent a (register_task now (new_agent_task i path (sw_agent_id w) q) r)" for q a
    using register_keeps [where r = r and t = "new_agent_task i path (sw_agent_id w) q" and now = now] assms
    by (simp_all add: new_agent_task_def monitor_of_def)
  have "registry_ok (snd (snd (resume_agent w now i path to t b m r)))"
    "only_agent a r \<Longrightarrow> sw_agent_id w = a \<Longrightarrow> only_agent a (snd (snd (resume_agent w now i path to t b m r)))"
    for t b a
    using reg assms(1) fields_keep(1,3) [OF reg(1)]
    by (auto simp: resume_agent_def update_name_def Let_def split: option.split)
  then show "registry_ok (snd (snd (send_message w now i path to m r)))"
    "only_agent a r \<Longrightarrow> sw_agent_id w = a \<Longrightarrow> only_agent a (snd (snd (send_message w now i path to m r)))"
    using assms(1) messages_keep(1,3) [OF assms(1)] by (auto simp: send_message_def split: option.split)
qed

lemma map_of_map_filter:
  assumes "distinct (map fst xs)"
  shows "map_of (filter (\<lambda>(i, t). P t) xs) i = (case map_of xs i of Some t \<Rightarrow> if P t then Some t else None | None \<Rightarrow> None)"
  using assms by (induction xs) (auto simp: map_of_eq_None_iff split: option.splits)

lemma evict_get:
  assumes "distinct (map fst (tk_tasks r))"
  shows "get_task i (snd (evict_terminal r)) =
     (case get_task i r of Some t \<Rightarrow> if evictable t then None else Some t | None \<Rightarrow> None)"
  using map_of_map_filter [OF assms, of "\<lambda>t. \<not> evictable t" i]
  by (simp add: get_task_def evict_terminal_def Let_def split: option.splits)

lemma lines_get:
  "get_task i (snd (drain_monitor_lines a r)) =
     map_option (\<lambda>t. if drains_monitor a t \<noteq> None then with_lines [] t else t) (get_task i r)"
proof -
  have "map_of (map (\<lambda>(i, t). (i, g t)) xs) i = map_option g (map_of xs i)" for g :: "bg_task \<Rightarrow> bg_task" and xs
    by (induction xs) auto
  then show ?thesis by (simp add: get_task_def drain_monitor_lines_def)
qed

lemma turn_parts:
  "snd (drain_task_notifications a q r) =
     snd (drain_monitor_lines a (snd (evict_terminal (snd (drain_notifications a r)))))"
  by (simp add: drain_task_notifications_def case_prod_unfold Let_def)

lemma drain_fields [simp]:
  "tk_tasks (snd (drain_notifications a r)) = tk_tasks r"
  "get_task i (snd (drain_notifications a r)) = get_task i r"
  by (simp_all add: drain_notifications_def)

lemma turn_get:
  assumes "distinct (map fst (tk_tasks r))"
  shows "get_task i (snd (drain_task_notifications a q r)) =
     (case get_task i r of
        Some t \<Rightarrow> if evictable t then None else Some (if drains_monitor a t \<noteq> None then with_lines [] t else t)
      | None \<Rightarrow> None)"
  using assms by (simp add: turn_parts lines_get evict_get split: option.splits)

lemma turn_queue:
  "tk_queue (snd (drain_task_notifications a q r)) = filter (\<lambda>(i, owner). owner \<noteq> a) (tk_queue r)"
  by (simp add: turn_parts drain_monitor_lines_def evict_terminal_def drain_notifications_def Let_def)

lemma turn_keeps:
  assumes ok: "registry_ok r"
  shows "registry_ok (snd (drain_task_notifications a q r))"
    "only_agent a r \<Longrightarrow> only_agent a (snd (drain_task_notifications a q r))"
proof -
  note d = registry_okD(1) [OF ok]
  have "distinct (map fst (filter P (tk_tasks r)))" for P
    using d by (simp add: distinct_map_filter)
  then have "distinct (map fst (tk_tasks (snd (drain_task_notifications a q r))))"
    by (simp add: turn_parts drain_monitor_lines_def evict_terminal_def drain_notifications_def Let_def
        comp_def case_prod_unfold)
  moreover have "distinct (map fst (tk_queue (snd (drain_task_notifications a q r))))"
    using registry_okD(2) [OF ok] by (simp add: turn_queue distinct_map_filter)
  moreover have "task_fits i (with_lines [] t)" if "task_fits i t" for i t
    using that by (auto simp: task_fits_def)
  ultimately show "registry_ok (snd (drain_task_notifications a q r))"
    using registry_okD(3,4) [OF ok] unfolding registry_ok_def
    by (auto simp: turn_get [OF d] turn_queue split: option.splits if_splits)
  show "only_agent a (snd (drain_task_notifications a q r))" if only: "only_agent a r"
  proof -
    have "bt_owner t = a \<and> \<not> bt_notified t"
      if get: "get_task i r = Some t" "\<not> evictable t" for i t
      using only registry_okD(3) [OF ok get(1)] get by (auto simp: only_agent_def task_fits_def evictable_def)
    moreover have "filter (\<lambda>(i, owner). owner \<noteq> a) (tk_queue r) = []"
      using only by (auto simp: only_agent_def filter_empty_conv)
    ultimately show ?thesis
      by (auto simp: only_agent_def turn_get [OF d] turn_queue split: option.splits if_splits)
  qed
qed

lemma child_keeps:
  assumes ok: "registry_ok r"
  shows "registry_ok (snd (drain_orphan_notifications c q r))"
    "only_agent a r \<Longrightarrow> a \<noteq> Some c \<Longrightarrow> only_agent a (snd (drain_orphan_notifications c q r))"
proof -
  have eq: "snd (drain_orphan_notifications c q r) = r\<lparr>tk_queue := filter (\<lambda>(i, owner). owner \<noteq> Some c) (tk_queue r)\<rparr>"
    by (simp add: drain_orphan_notifications_def drain_notifications_def)
  show "registry_ok (snd (drain_orphan_notifications c q r))"
    using ok unfolding eq registry_ok_def by (auto simp: distinct_map_filter)
  assume "only_agent a r" "a \<noteq> Some c"
  then have "filter (\<lambda>(i, owner). owner \<noteq> Some c) (tk_queue r) = tk_queue r"
    by (intro filter_True) (auto simp: only_agent_def)
  with \<open>only_agent a r\<close> show "only_agent a (snd (drain_orphan_notifications c q r))"
    by (simp add: eq)
qed

lemma step_keeps:
  assumes ok: "registry_ok r" and "fresh_op op r"
  shows "registry_ok (bg_step op r)"
    "only_agent a r \<Longrightarrow> agents_of op \<subseteq> {a} \<Longrightarrow> (\<forall>c q. op \<noteq> Op_Child_End c q) \<Longrightarrow> only_agent a (bg_step op r)"
proof -
  note closing = announce_keeps [OF ok]
  show "registry_ok (bg_step op r)"
  proof (cases op)
    case (Op_Wait now i rc)
    then show ?thesis using announced(1) [of now i rc r] closing(1) by auto
  next
    case (Op_Monitor_Exit now i rc)
    then show ?thesis using announced(3) [of now i rc r] closing(1) ok by auto
  next
    case (Op_Agent_End now i e)
    then show ?thesis using announced(2) [of now i e r] closing(1) by auto
  next
    case (Op_Stop now i)
    then show ?thesis using announced(4) [of now i r] closing(1) ok by auto
  qed (use assms register_keeps(1) spawn_keeps(1) send_keeps(1) messages_keep(2) monitor_read_keeps(1)
      turn_keeps(1) child_keeps(1) fields_keep(2) in \<open>auto simp: set_todos_def\<close>)
  assume only: "only_agent a r" and op: "agents_of op \<subseteq> {a}" "\<forall>c q. op \<noteq> Op_Child_End c q"
  show "only_agent a (bg_step op r)"
  proof (cases op)
    case (Op_Wait now i rc)
    then show ?thesis using announced(1) [of now i rc r] closing(2) [OF _ only] by auto
  next
    case (Op_Monitor_Exit now i rc)
    then show ?thesis using announced(3) [of now i rc r] closing(2) [OF _ only] only by auto
  next
    case (Op_Agent_End now i e)
    then show ?thesis using announced(2) [of now i e r] closing(2) [OF _ only] by auto
  next
    case (Op_Stop now i)
    then show ?thesis using announced(4) [of now i r] closing(2) [OF _ only] only by auto
  qed (use assms only op register_keeps(2) spawn_keeps(2) send_keeps(2) messages_keep(4)
      monitor_read_keeps(2) turn_keeps(2) fields_keep(4) in \<open>auto simp: set_todos_def\<close>)
qed

lemma run_keeps:
  assumes "registry_ok r" "fresh_run ops r"
  shows "registry_ok (bg_run ops r)"
    "only_agent a r \<Longrightarrow> \<forall>op \<in> set ops. agents_of op \<subseteq> {a} \<and> (\<forall>c q. op \<noteq> Op_Child_End c q) \<Longrightarrow>
       only_agent a (bg_run ops r)"
  using assms
proof (induction ops arbitrary: r)
  case (Cons op ops)
  { case 1
    then show ?case using Cons.IH(1) [of "bg_step op r"] step_keeps(1) [of r op] by (simp add: bg_run_def)
  next
    case 2
    then show ?case using Cons.IH(2) [of "bg_step op r"] step_keeps(1) [of r op] step_keeps(2) [of r op a] by (simp add: bg_run_def) }
qed (simp_all add: bg_run_def)

end
