(* ===== verification/Query_Loop.thy ===== *)
theory Query_Loop
  imports Pipeline Compaction Task_Session
begin

text \<open>
  \<open>orchestrator/loop/engine.py\<close> with the steps of \<open>loop/steps.py\<close> and the text helpers of
  \<open>reminders.py\<close>: one user prompt through the model/tool loop. The provider is the list of its
  responses, one for each request, and the executor's round on a response's tool calls comes with
  the response; so a run consumes responses until it ends, and a run that has used up the list is
  still waiting. Every event the generator yields is kept in order. The session's task registry is part of the state;
  what tools and background coroutines did to it during a round comes with the round.
\<close>

section \<open>Prompt text\<close>

text \<open>A prompt block is its visible text, \<open>None\<close> when it has none.\<close>

type_synonym prompt_block = "string option"

definition visible_texts :: "prompt_block list \<Rightarrow> string list" where
  "visible_texts blocks = concat (map (\<lambda>b. case b of Some s \<Rightarrow> [s] | None \<Rightarrow> []) blocks)"

definition extract_text :: "prompt_block list \<Rightarrow> string" where
  "extract_text blocks = join '' '' (visible_texts blocks)"

definition default_wrap :: "string \<Rightarrow> string" where
  "default_wrap r = ''<system-reminder>'' @ nl @ r @ nl @ ''</system-reminder>''"

text \<open>\<open>wrap\<close> is the template of the prompt manager, if there is one.\<close>

definition format_reminders :: "(string \<Rightarrow> string) option \<Rightarrow> string list \<Rightarrow> string" where
  "format_reminders wrap rs =
     join (nl @ nl) (map (case wrap of Some f \<Rightarrow> f | None \<Rightarrow> default_wrap) rs) @ nl @ nl"

definition to_text_content :: "(string \<Rightarrow> string) option \<Rightarrow> string list \<Rightarrow> prompt_block list \<Rightarrow> string list"
where
  "to_text_content wrap reminders blocks =
     (let texts = (if reminders \<noteq> [] then [format_reminders wrap reminders] else []) @ visible_texts blocks
      in if texts = [] then [[]] else texts)"

section \<open>World and state\<close>

datatype stop_reason =
  Stop_End_Turn | Stop_Max_Turns | Stop_Cancelled | Stop_Error | Stop_Hook_Blocked | Stop_Budget

datatype query_event =
  Text_Delta string
| Thought_Delta string
| History_Append message
| History_Snapshot "message list"
| Compaction_Event int int
| Query_Error string "string option"
| User_Prompt_Blocked string
| Cancelled_Event

text \<open>
  A response: the chunks the provider streamed, how the stream ended, and the executor's round on
  its tool calls - the kinds of the start events, the results collected, what happened to the task
  registry meanwhile, and whether the query was cancelled during the round.
\<close>

datatype stream_ending =
  Stream_Ended | Prompt_Too_Long string | Media_Size string | Provider_Failed string | Stream_Cancelled

record tool_round =
  rd_starts :: "(string \<times> tool_kind) list"
  rd_results :: "result_block list"
  rd_tasks :: "bg_op list"
  rd_cancelled :: bool

record response =
  rp_chunks :: "llm_chunk list"
  rp_ending :: stream_ending
  rp_round :: tool_round

record query_world =
  q_compact :: compact_deps
  q_keep :: nat
  q_threshold :: int
  q_hooks :: "hook_registry option"
  q_ambient :: ambient_context
  q_wrap :: "(string \<Rightarrow> string) option"
  q_queue_reminders :: bool
  q_agent_id :: "string option"

record query_state =
  qs_history :: history
  qs_stop :: stop_reason
  qs_input_tokens :: int
  qs_output_tokens :: int
  qs_reminders :: "string list"
  qs_tasks :: "task_registry option"
  qs_events :: "query_event list"

record turn_state =
  tn_index :: nat
  tn_reactive_retries :: nat
  tn_max_tokens_override :: "nat option"
  tn_max_tokens_retries :: nat

definition new_turn :: turn_state where
  "new_turn = \<lparr>tn_index = 0, tn_reactive_retries = 0, tn_max_tokens_override = None,
     tn_max_tokens_retries = 0\<rparr>"

record stream_accumulator =
  sa_text_parts :: "string list"
  sa_thoughts :: "(string \<times> string) list"
  sa_calls :: "tool_use list"
  sa_stop_reason :: "string option"

definition new_accumulator :: stream_accumulator where
  "new_accumulator = \<lparr>sa_text_parts = [], sa_thoughts = [], sa_calls = [], sa_stop_reason = None\<rparr>"

definition MAX_REACTIVE_RETRIES :: nat where "MAX_REACTIVE_RETRIES = 2"
definition MAX_OUTPUT_TOKEN_RETRIES :: nat where "MAX_OUTPUT_TOKEN_RETRIES = 3"
definition MAX_TOKENS_ESCALATED :: nat where "MAX_TOKENS_ESCALATED = 64000"

definition emit :: "query_event list \<Rightarrow> query_state \<Rightarrow> query_state" where
  "emit evs st = st\<lparr>qs_events := qs_events st @ evs\<rparr>"

section \<open>The steps\<close>

text \<open>
  \<open>fire_query_hook\<close>: the context of a query-level event, and the reminders its handlers leave.
\<close>

definition query_ctx :: "query_world \<Rightarrow> hook_event \<Rightarrow> hook_ctx" where
  "query_ctx w ev = new_hook_ctx ev (q_ambient w) None [] None None"

definition fire_query_hook :: "query_world \<Rightarrow> hook_ctx \<Rightarrow> query_state \<Rightarrow> (bool \<times> hook_ctx) \<times> query_state" where
  "fire_query_hook w ctx st =
     (case q_hooks w of
        None \<Rightarrow> ((False, ctx), st)
      | Some reg \<Rightarrow>
          (let (blocked, ctx') = fire reg ctx
           in ((blocked, ctx'),
               if q_queue_reminders w \<and> hc_messages ctx' \<noteq> []
               then st\<lparr>qs_reminders := qs_reminders st @ hc_messages ctx'\<rparr> else st)))"

definition submit_hook :: "query_world \<Rightarrow> string \<Rightarrow> query_state \<Rightarrow> (bool \<times> hook_ctx) \<times> query_state" where
  "submit_hook w s = fire_query_hook w ((query_ctx w USER_PROMPT_SUBMIT)\<lparr>hc_user_text := Some s\<rparr>)"

text \<open>
  \<open>setup_turn\<close>: reminders and the parent's messages are drained, and the submit hook may block or
  rewrite the text. The text it returns goes to the prompt builder.
\<close>

definition parent_messages :: "query_world \<Rightarrow> query_state \<Rightarrow> string list \<times> query_state" where
  "parent_messages w st =
     (case (q_agent_id w, qs_tasks st) of
        (Some i, Some r) \<Rightarrow>
          (if i = [] then ([], st)
           else (let (ms, r') = drain_messages i r
                 in (map (\<lambda>m. ''Message from parent agent:'' @ nl @ m) ms, st\<lparr>qs_tasks := Some r'\<rparr>)))
      | _ \<Rightarrow> ([], st))"

definition setup_turn ::
    "query_world \<Rightarrow> prompt_block list \<Rightarrow> query_state \<Rightarrow> (string \<times> string list \<times> bool) \<times> query_state" where
  "setup_turn w prompt st =
     (let (messages, st1) = parent_messages w (st\<lparr>qs_reminders := []\<rparr>);
          reminders = qs_reminders st @ messages;
          text0 = extract_text prompt;
          s = (if reminders \<noteq> [] then format_reminders (q_wrap w) reminders @ text0 else text0);
          ((blocked, ctx), st') = submit_hook w s st1
      in if blocked then ((s, reminders, True), st'\<lparr>qs_stop := Stop_Hook_Blocked\<rparr>)
         else (case hc_user_text ctx of
                 Some u \<Rightarrow> ((if u \<noteq> s then u else s, reminders, False), st')
               | None \<Rightarrow> ((s, reminders, False), st')))"

definition prepare_turn :: "query_world \<Rightarrow> query_state \<Rightarrow> query_state" where
  "prepare_turn w st =
     (let (h, c) = prepare_history (q_compact w) (q_keep w) (q_threshold w) (qs_history st);
          st' = st\<lparr>qs_history := h\<rparr>
      in case c of
           None \<Rightarrow> st'
         | Some (before, after) \<Rightarrow>
             emit [Compaction_Event before after, History_Snapshot (h_messages h)] st')"

text \<open>The loop over the stream's chunks; an error chunk ends the query.\<close>

fun consume ::
    "llm_chunk list \<Rightarrow> stream_accumulator \<Rightarrow> query_state
       \<Rightarrow> (string \<times> string option) option \<times> stream_accumulator \<times> query_state" where
  "consume [] acc st = (None, acc, st)"
| "consume (Text_Chunk s # cs) acc st =
     consume cs (acc\<lparr>sa_text_parts := sa_text_parts acc @ [s]\<rparr>) (emit [Text_Delta s] st)"
| "consume (Thought_Chunk s sig # cs) acc st =
     consume cs (acc\<lparr>sa_thoughts := sa_thoughts acc @ [(s, sig)]\<rparr>)
       (if s \<noteq> [] then emit [Thought_Delta s] st else st)"
| "consume (Tool_Use_Chunk i n d # cs) acc st =
     consume cs (acc\<lparr>sa_calls := sa_calls acc @ [\<lparr>tu_id = i, tu_name = n, tu_input = d\<rparr>]\<rparr>) st"
| "consume (Usage_Chunk i out r # cs) acc st =
     consume cs (acc\<lparr>sa_stop_reason := r\<rparr>)
       (st\<lparr>qs_history := update_token_count i out (qs_history st),
           qs_input_tokens := qs_input_tokens st + i, qs_output_tokens := qs_output_tokens st + out\<rparr>)"
| "consume (Stream_Error msg code # cs) acc st = (Some (msg, code), acc, st)"

text \<open>A message just appended, if any, is announced.\<close>

definition announce_append :: "nat \<Rightarrow> query_state \<Rightarrow> query_state" where
  "announce_append before st =
     (if before < length (h_messages (qs_history st))
      then emit [History_Append (last (h_messages (qs_history st)))] st else st)"

definition append_and_announce :: "(history \<Rightarrow> history) \<Rightarrow> query_state \<Rightarrow> query_state" where
  "append_and_announce f st =
     announce_append (length (h_messages (qs_history st))) (st\<lparr>qs_history := f (qs_history st)\<rparr>)"

definition fail_query :: "string \<Rightarrow> string option \<Rightarrow> query_state \<Rightarrow> query_state" where
  "fail_query msg code st = (emit [Query_Error msg code] st)\<lparr>qs_stop := Stop_Error\<rparr>"

text \<open>The handler of \<open>CancelledError\<close>: every use still pending is answered as interrupted.\<close>

definition interrupted :: "string \<Rightarrow> result_block" where
  "interrupted i = \<lparr>rb_tool_use_id = i, rb_content = Content_Text ''Interrupted by user'', rb_is_error = True\<rparr>"

definition cancel_query :: "query_world \<Rightarrow> query_state \<Rightarrow> query_state" where
  "cancel_query w st0 =
     (let st = st0\<lparr>qs_stop := Stop_Cancelled\<rparr>;
          orphans = pending_tool_use_ids (h_messages (qs_history st));
          st' = (if orphans = [] then st
                 else (let h = append_tool_results (len_input_of (q_compact w)) (map interrupted orphans)
                                 (qs_history st)
                       in emit [History_Append (last (h_messages h))] (st\<lparr>qs_history := h\<rparr>)))
      in emit [Cancelled_Event] st')"

text \<open>
  The branch without tool calls: what \<open>handle_stop\<close> answers, and the state with a truncated last
  message taken back when the turn is retried.
\<close>

datatype stop_answer = Retry_Turn | Over_Budget | Stop_Turn

definition stop_hook :: "query_world \<Rightarrow> string option \<Rightarrow> query_state \<Rightarrow> query_state" where
  "stop_hook w last_stop st =
     snd (fire_query_hook w ((query_ctx w STOP)
       \<lparr>hc_message_count := Some (int (length (h_messages (qs_history st)))),
        hc_token_estimate := Some (h_token_count (qs_history st)),
        hc_stop_reason := Some (case last_stop of Some r \<Rightarrow> if r = [] then ''end_turn'' else r
                                | None \<Rightarrow> ''end_turn'')\<rparr>) st)"

definition handle_stop ::
    "query_world \<Rightarrow> string option \<Rightarrow> nat \<Rightarrow> int option \<Rightarrow> query_state \<Rightarrow> stop_answer \<times> query_state" where
  "handle_stop w last_stop retries budget st =
     (if last_stop = Some ''max_tokens'' \<and> retries < MAX_OUTPUT_TOKEN_RETRIES
      then (Retry_Turn, st\<lparr>qs_history :=
              snd (pop_last_assistant (len_input_of (q_compact w)) (qs_history st))\<rparr>)
      else (let st' = stop_hook w last_stop st
            in case budget of
                 Some b \<Rightarrow>
                   (if b \<le> qs_input_tokens st' + qs_output_tokens st' then Over_Budget else Stop_Turn, st')
               | None \<Rightarrow> (Stop_Turn, st')))"

definition budget_message :: "int \<Rightarrow> query_state \<Rightarrow> string" where
  "budget_message b st =
     ''Token budget exceeded: '' @ show_int (qs_input_tokens st + qs_output_tokens st)
     @ '' tokens used, budget was '' @ show_int b"

definition sampling_hook :: "query_world \<Rightarrow> stream_accumulator \<Rightarrow> query_state \<Rightarrow> query_state" where
  "sampling_hook w acc st =
     (if sa_text_parts acc \<noteq> [] \<or> sa_calls acc \<noteq> [] then snd (fire_query_hook w (query_ctx w POST_SAMPLING) st)
      else st)"

definition assistant_turn :: "query_world \<Rightarrow> stream_accumulator \<Rightarrow> query_state \<Rightarrow> query_state" where
  "assistant_turn w acc st =
     append_and_announce (append_assistant (len_input_of (q_compact w)) (concat (sa_text_parts acc))
       (sa_thoughts acc) (map (\<lambda>c. (tu_id c, tu_name c, tu_input c)) (sa_calls acc))) st"

definition record_starts :: "(string \<times> tool_kind) list \<Rightarrow> query_state \<Rightarrow> query_state" where
  "record_starts starts st =
     st\<lparr>qs_history := fold (\<lambda>(i, k). record_tool_kind i k) starts (qs_history st)\<rparr>"

text \<open>What a round did to the registry, and the notices the turn boundary queues from it.\<close>

definition run_tasks :: "bg_op list \<Rightarrow> query_state \<Rightarrow> query_state" where
  "run_tasks ops st = st\<lparr>qs_tasks := map_option (bg_run ops) (qs_tasks st)\<rparr>"

definition drain_tasks :: "query_world \<Rightarrow> query_state \<Rightarrow> query_state" where
  "drain_tasks w st =
     (case qs_tasks st of
        None \<Rightarrow> st
      | Some r \<Rightarrow>
          (let (reminders, r') = drain_task_notifications (q_agent_id w) (q_queue_reminders w) r
           in st\<lparr>qs_tasks := Some r', qs_reminders := qs_reminders st @ reminders\<rparr>))"

definition tool_turn :: "query_world \<Rightarrow> tool_round \<Rightarrow> query_state \<Rightarrow> query_state" where
  "tool_turn w rd st =
     append_and_announce (append_tool_results (len_input_of (q_compact w)) (rd_results rd)) (drain_tasks w st)"

section \<open>The loop\<close>

text \<open>One iteration: the next turn state if the loop goes on.\<close>

definition after_stream ::
    "query_world \<Rightarrow> int option \<Rightarrow> turn_state \<Rightarrow> stream_accumulator \<Rightarrow> tool_round \<Rightarrow> query_state
       \<Rightarrow> turn_state option \<times> query_state" where
  "after_stream w budget turn acc rd st0 =
     (let st = assistant_turn w acc (sampling_hook w acc st0) in
      if sa_calls acc = [] then
        (case handle_stop w (sa_stop_reason acc) (tn_max_tokens_retries turn) budget st of
           (Retry_Turn, st') \<Rightarrow>
             (Some (turn\<lparr>tn_max_tokens_retries := tn_max_tokens_retries turn + 1,
                         tn_max_tokens_override := Some MAX_TOKENS_ESCALATED\<rparr>), st')
         | (Over_Budget, st') \<Rightarrow>
             (None, (emit [Query_Error (budget_message (case budget of Some b \<Rightarrow> b | None \<Rightarrow> 0) st')
                             (Some ''token_budget_exceeded'')] st')\<lparr>qs_stop := Stop_Budget\<rparr>)
         | (Stop_Turn, st') \<Rightarrow> (None, st'\<lparr>qs_stop := Stop_End_Turn\<rparr>))
      else (let st1 = run_tasks (rd_tasks rd) (record_starts (rd_starts rd) st) in
            if rd_cancelled rd then (None, cancel_query w st1)
            else (Some turn, tool_turn w rd st1)))"

definition reactive_compact :: "query_world \<Rightarrow> query_state \<Rightarrow> query_state" where
  "reactive_compact w st =
     (let before = h_token_count (qs_history st); h = compact (q_compact w) (q_keep w) (qs_history st)
      in emit [Compaction_Event before (h_token_count h)] (st\<lparr>qs_history := h\<rparr>))"

definition rewind :: "turn_state \<Rightarrow> turn_state" where
  "rewind t = t\<lparr>tn_reactive_retries := tn_reactive_retries t + 1, tn_index := tn_index t - 1\<rparr>"

definition iterate ::
    "query_world \<Rightarrow> int option \<Rightarrow> turn_state \<Rightarrow> response \<Rightarrow> query_state
       \<Rightarrow> turn_state option \<times> query_state" where
  "iterate w budget turn r st0 =
     (let st = prepare_turn w st0; (err, acc, st1) = consume (rp_chunks r) new_accumulator st
      in case err of
           Some (msg, code) \<Rightarrow> (None, fail_query msg code st1)
         | None \<Rightarrow>
             (case rp_ending r of
                Stream_Ended \<Rightarrow> after_stream w budget turn acc (rp_round r) st1
              | Stream_Cancelled \<Rightarrow> (None, cancel_query w st1)
              | Provider_Failed e \<Rightarrow> (None, fail_query e None st1)
              | Prompt_Too_Long e \<Rightarrow>
                  if MAX_REACTIVE_RETRIES \<le> tn_reactive_retries turn
                  then (None, fail_query e (Some ''prompt_too_long'') st1)
                  else (Some (rewind turn), reactive_compact w st1)
              | Media_Size e \<Rightarrow>
                  if MAX_REACTIVE_RETRIES \<le> tn_reactive_retries turn
                  then (None, fail_query e (Some ''media_size'') st1)
                  else
                    (let (n, h) = strip_media (len_input_of (q_compact w)) (qs_history st1);
                         st2 = st1\<lparr>qs_history := h\<rparr>
                     in (Some (rewind turn), if 0 < n then reactive_compact w st2 else st2))))"

text \<open>
  The \<open>while True\<close> loop over the responses; \<open>False\<close> says that the query waits for the next one.
\<close>

fun run_loop ::
    "query_world \<Rightarrow> nat \<Rightarrow> int option \<Rightarrow> response list \<Rightarrow> turn_state \<Rightarrow> query_state
       \<Rightarrow> bool \<times> query_state" where
  "run_loop w max_turns budget [] turn st =
     (if 0 < max_turns \<and> max_turns < tn_index turn + 1
      then (True, st\<lparr>qs_stop := Stop_Max_Turns\<rparr>) else (False, st))"
| "run_loop w max_turns budget (r # rs) turn st =
     (if 0 < max_turns \<and> max_turns < tn_index turn + 1
      then (True, st\<lparr>qs_stop := Stop_Max_Turns\<rparr>)
      else (case iterate w budget (turn\<lparr>tn_index := tn_index turn + 1\<rparr>) r st of
              (None, st') \<Rightarrow> (True, st')
            | (Some turn', st') \<Rightarrow> run_loop w max_turns budget rs turn' st'))"

definition run_query ::
    "query_world \<Rightarrow> prompt_block list \<Rightarrow> nat \<Rightarrow> int option \<Rightarrow> response list \<Rightarrow> query_state
       \<Rightarrow> bool \<times> query_state" where
  "run_query w prompt max_turns budget rs st0 =
     (let st = st0\<lparr>qs_input_tokens := 0, qs_output_tokens := 0\<rparr>;
          ((prompt_text, reminders, blocked), st1) = setup_turn w prompt st
      in if blocked then (True, emit [User_Prompt_Blocked ''user_prompt_submit hook blocked''] st1)
         else run_loop w max_turns budget rs new_turn
           (append_and_announce (append_user (len_input_of (q_compact w))
              (to_text_content (q_wrap w) reminders prompt)) st1))"

section \<open>Hooks leave the conversation alone\<close>

lemma query_hook_state [simp]:
  "qs_history (snd (fire_query_hook w ctx st)) = qs_history st"
  "qs_events (snd (fire_query_hook w ctx st)) = qs_events st"
  "qs_input_tokens (snd (fire_query_hook w ctx st)) = qs_input_tokens st"
  "qs_output_tokens (snd (fire_query_hook w ctx st)) = qs_output_tokens st"
  by (auto simp: fire_query_hook_def split: option.splits prod.splits)

lemma stop_hook_state [simp]:
  "qs_history (stop_hook w r st) = qs_history st" "qs_events (stop_hook w r st) = qs_events st"
  by (simp_all add: stop_hook_def)

lemma sampling_hook_state [simp]:
  "qs_history (sampling_hook w acc st) = qs_history st"
  "qs_events (sampling_hook w acc st) = qs_events st"
  by (simp_all add: sampling_hook_def)

lemma task_state [simp]:
  "qs_history (run_tasks ops st) = qs_history st" "qs_events (run_tasks ops st) = qs_events st"
  "qs_history (drain_tasks w st) = qs_history st" "qs_events (drain_tasks w st) = qs_events st"
  by (simp_all add: run_tasks_def drain_tasks_def case_prod_unfold Let_def split: option.split)

lemma parent_messages_state [simp]:
  "qs_history (snd (parent_messages w st)) = qs_history st"
  "qs_events (snd (parent_messages w st)) = qs_events st"
  by (simp_all add: parent_messages_def case_prod_unfold Let_def split: option.split)

section \<open>Bounded queries\<close>

lemma after_stream_turn:
  "after_stream w budget turn acc rd st = (Some turn', st') \<Longrightarrow>
     tn_index turn' = tn_index turn \<and> tn_reactive_retries turn' = tn_reactive_retries turn"
  by (auto simp: after_stream_def Let_def split: if_splits prod.splits stop_answer.splits)

lemma iterate_turn:
  "iterate w budget turn r st = (Some turn', st') \<Longrightarrow>
     tn_index turn' = tn_index turn \<and> tn_reactive_retries turn' = tn_reactive_retries turn
     \<or> turn' = rewind turn \<and> tn_reactive_retries turn < MAX_REACTIVE_RETRIES"
  by (auto simp: iterate_def Let_def dest: after_stream_turn
      split: prod.splits option.splits stream_ending.splits if_splits)

definition iterations_left :: "nat \<Rightarrow> turn_state \<Rightarrow> nat" where
  "iterations_left max_turns t =
     (max_turns - tn_index t) + (MAX_REACTIVE_RETRIES - tn_reactive_retries t)"

lemma run_loop_ends:
  "0 < max_turns \<Longrightarrow> iterations_left max_turns turn \<le> length rs \<Longrightarrow>
     fst (run_loop w max_turns budget rs turn st)"
proof (induction rs arbitrary: turn st)
  case (Cons r rs)
  show ?case
  proof (cases "max_turns < tn_index turn + 1")
    case False
    obtain t st' where it: "iterate w budget (turn\<lparr>tn_index := tn_index turn + 1\<rparr>) r st = (t, st')" by force
    show ?thesis
    proof (cases t)
      case (Some turn')
      have "iterations_left max_turns turn' < iterations_left max_turns turn"
        using iterate_turn [OF it [unfolded Some]] False by (auto simp: iterations_left_def rewind_def)
      then have "fst (run_loop w max_turns budget rs turn' st')" using Cons by simp
      with it Some False show ?thesis by simp
    qed (use it False in simp)
  qed (use Cons.prems(1) in simp)
qed (simp add: iterations_left_def)

lemma run_query_ends:
  "0 < max_turns \<Longrightarrow> max_turns + MAX_REACTIVE_RETRIES \<le> length rs \<Longrightarrow>
     fst (run_query w prompt max_turns budget rs st)"
  by (auto simp: run_query_def Let_def iterations_left_def new_turn_def split: prod.splits
      intro!: run_loop_ends)

section \<open>The history along a query\<close>

lemma consume_history:
  "consume cs acc st = (err, acc', st') \<Longrightarrow>
     h_messages (qs_history st') = h_messages (qs_history st)
     \<and> set (qs_events st) \<subseteq> set (qs_events st')"
  by (induction cs acc st rule: consume.induct)
     (auto simp: emit_def update_token_count_def split: if_splits)

fun chunk_calls :: "llm_chunk list \<Rightarrow> string list" where
  "chunk_calls [] = []"
| "chunk_calls (Tool_Use_Chunk i n d # cs) = i # chunk_calls cs"
| "chunk_calls (_ # cs) = chunk_calls cs"

lemma consume_calls:
  "consume cs acc st = (None, acc', st') \<Longrightarrow> map tu_id (sa_calls acc') = map tu_id (sa_calls acc) @ chunk_calls cs"
  by (induction cs acc st rule: consume.induct) auto

text \<open>A round that was not cancelled answers exactly the calls of its response.\<close>

definition answered :: "response \<Rightarrow> bool" where
  "answered r \<longleftrightarrow> rd_cancelled (rp_round r)
     \<or> set (map rb_tool_use_id (rd_results (rp_round r))) = set (chunk_calls (rp_chunks r))"

definition compacted :: "query_state \<Rightarrow> bool" where
  "compacted st \<longleftrightarrow> (\<exists>a b. Compaction_Event a b \<in> set (qs_events st))"

lemma announce_history [simp]:
  "qs_history (append_and_announce f st) = f (qs_history st)"
  "set (qs_events st) \<subseteq> set (qs_events (append_and_announce f st))"
  by (auto simp: append_and_announce_def announce_append_def emit_def)

lemma prepare_settled:
  assumes "settled (h_messages (qs_history st))" "\<not> compacted (prepare_turn w st)"
  shows "settled (h_messages (qs_history (prepare_turn w st)))"
proof -
  let ?li = "len_input_of (q_compact w)"
  let ?h1 = "snd (snip_read_only_results ?li (q_keep w) (qs_history st))"
  have h1: "settled (h_messages ?h1)"
    using assms(1) snip_pass [of "qs_history st" ?li "q_keep w"] by (simp add: settled_def)
  then have h2: "settled (h_messages (snd (remove_read_only_pairs ?li (q_keep w) ?h1)))"
    using micro_pass [of ?h1 ?li "q_keep w"] by (simp add: settled_def)
  show ?thesis
    using assms(2) h1 h2
    by (auto simp: prepare_turn_def prepare_history_def compacted_def emit_def Let_def
        split: if_splits prod.splits option.splits)
qed

lemma cancel_settled:
  assumes "settled (h_messages (qs_history st)) \<or> (\<exists>ms bs. h_messages (qs_history st) = ms @ [Assistant_Message bs] \<and> settled ms)"
  shows "settled (h_messages (qs_history (cancel_query w st)))"
  using assms
proof
  assume "settled (h_messages (qs_history st))"
  then show ?thesis
    using settled_pending [of "h_messages (qs_history st)"] by (simp add: cancel_query_def emit_def)
next
  assume "\<exists>ms bs. h_messages (qs_history st) = ms @ [Assistant_Message bs] \<and> settled ms"
  then obtain ms bs where st: "h_messages (qs_history st) = ms @ [Assistant_Message bs]" "settled ms" by blast
  show ?thesis
  proof (cases "use_ids bs = []")
    case False
    then have eq: "h_messages (qs_history (cancel_query w st)) =
        ms @ [Assistant_Message bs, User_Message (map User_Result (map interrupted (use_ids bs)))]"
      using st by (simp add: cancel_query_def emit_def append_tool_results_def push_message_def Let_def)
    have "map rb_tool_use_id (map interrupted (use_ids bs)) = use_ids bs"
      by (simp add: interrupted_def comp_def)
    then show ?thesis
      unfolding eq by (intro settled_round [OF st(2)]) (simp only: result_ids_results)
  qed (use st settled_assistant in \<open>simp add: cancel_query_def emit_def\<close>)
qed

lemma record_starts_messages [simp]:
  "h_messages (qs_history (record_starts starts st)) = h_messages (qs_history st)"
proof -
  have "h_messages (fold (\<lambda>(i, k). record_tool_kind i k) starts h) = h_messages h" for h
    by (induction starts arbitrary: h) (auto simp: record_tool_kind_def)
  then show ?thesis by (simp add: record_starts_def)
qed

lemma after_stream_settled:
  assumes "settled (h_messages (qs_history st))" "after_stream w budget turn acc rd st = (t, st')"
    and "rd_cancelled rd \<or> set (map rb_tool_use_id (rd_results rd)) = set (map tu_id (sa_calls acc))"
  shows "settled (h_messages (qs_history st'))"
proof -
  let ?li = "len_input_of (q_compact w)"
  let ?calls = "map (\<lambda>c. (tu_id c, tu_name c, tu_input c)) (sa_calls acc)"
  let ?st = "assistant_turn w acc (sampling_hook w acc st)"
  obtain bs where bs: "use_ids bs = map tu_id (sa_calls acc)"
    "h_messages (qs_history ?st) = h_messages (qs_history st) @ [Assistant_Message bs]
     \<or> sa_calls acc = [] \<and> qs_history ?st = qs_history st"
    using append_assistant_plain [of ?calls ?li "concat (sa_text_parts acc)" "sa_thoughts acc" "qs_history st"]
    by (auto simp: assistant_turn_def comp_def)
  show ?thesis
  proof (cases "sa_calls acc = []")
    case True
    then have "settled (h_messages (qs_history ?st))" using bs assms(1) settled_assistant by auto
    with True assms(2) show ?thesis
      by (auto simp: after_stream_def handle_stop_def emit_def pop_settled Let_def
          split: if_splits option.splits)
  next
    case False
    then have st: "h_messages (qs_history ?st) = h_messages (qs_history st) @ [Assistant_Message bs]"
      using bs by blast
    show ?thesis
    proof (cases "rd_cancelled rd")
      case True
      with False st assms(1,2) show ?thesis
        by (auto simp: after_stream_def Let_def intro!: cancel_settled)
    next
      case not_cancelled: False
      then have "rd_results rd \<noteq> []" using assms(3) False by auto
      then have "h_messages (qs_history (tool_turn w rd (run_tasks (rd_tasks rd) (record_starts (rd_starts rd) ?st)))) =
          h_messages (qs_history st) @ [Assistant_Message bs, User_Message (map User_Result (rd_results rd))]"
        by (simp add: tool_turn_def append_tool_results_def push_message_def st)
      with False not_cancelled assms bs(1) show ?thesis
        by (auto simp: after_stream_def Let_def intro!: settled_round)
    qed
  qed
qed

text \<open>Events are only ever added.\<close>

abbreviation events_of :: "query_state \<Rightarrow> query_event set" where "events_of st \<equiv> set (qs_events st)"

lemma emit_events [simp]: "events_of (emit evs st) = events_of st \<union> set evs"
  by (simp add: emit_def)

lemma prepare_events: "events_of st \<subseteq> events_of (prepare_turn w st)"
  by (auto simp: prepare_turn_def Let_def split: prod.splits option.splits)

lemma cancel_events: "events_of st \<subseteq> events_of (cancel_query w st)"
  by (auto simp: cancel_query_def Let_def)

lemma after_stream_events: "after_stream w budget turn acc rd st = (t, st') \<Longrightarrow> events_of st \<subseteq> events_of st'"
proof -
  have turn: "events_of st \<subseteq> events_of (assistant_turn w acc (sampling_hook w acc st))"
    and tools: "events_of s \<subseteq> events_of (tool_turn w rd s)"
    and starts: "events_of (record_starts (rd_starts rd) s) = events_of s" for s
    using announce_history(2) [of "sampling_hook w acc st"] announce_history(2) [of "drain_tasks w s"]
    by (simp_all add: assistant_turn_def tool_turn_def announce_history record_starts_def)
  have stop: "events_of (snd (handle_stop w a b c s)) = events_of s" for a b c s
    by (auto simp: handle_stop_def Let_def split: option.splits)
  assume "after_stream w budget turn acc rd st = (t, st')"
  then show ?thesis
    using turn tools [of "run_tasks (rd_tasks rd) (record_starts (rd_starts rd) (assistant_turn w acc (sampling_hook w acc st)))"]
      cancel_events [of "run_tasks (rd_tasks rd) (record_starts (rd_starts rd) (assistant_turn w acc (sampling_hook w acc st)))" w]
      stop [of "sa_stop_reason acc" "tn_max_tokens_retries turn" budget "assistant_turn w acc (sampling_hook w acc st)"]
    by (cases "handle_stop w (sa_stop_reason acc) (tn_max_tokens_retries turn) budget (assistant_turn w acc (sampling_hook w acc st))")
       (auto simp: after_stream_def starts Let_def split: if_splits stop_answer.splits)
qed

lemma iterate_later:
  assumes "iterate w budget turn r st = (t, st')"
    and "consume (rp_chunks r) new_accumulator (prepare_turn w st) = (err, acc, st1)"
  shows "events_of st1 \<subseteq> events_of st'"
  using assms cancel_events [of st1 w]
  by (auto simp: iterate_def fail_query_def reactive_compact_def Let_def dest: after_stream_events
      split: option.splits stream_ending.splits if_splits prod.splits)

lemma iterate_settled:
  assumes "settled (h_messages (qs_history st))" "answered r"
    and it: "iterate w budget turn r st = (t, st')" and "\<not> compacted st'"
  shows "settled (h_messages (qs_history st'))"
proof -
  obtain err acc st1 where c: "consume (rp_chunks r) new_accumulator (prepare_turn w st) = (err, acc, st1)"
    by (metis prod_cases3)
  then have ev: "events_of (prepare_turn w st) \<subseteq> events_of st1"
    and msgs: "h_messages (qs_history st1) = h_messages (qs_history (prepare_turn w st))"
    using consume_history by blast+
  have "events_of st1 \<subseteq> events_of st'" using iterate_later [OF it c] .
  then have "\<not> compacted (prepare_turn w st)" using assms(4) ev by (auto simp: compacted_def)
  then have st1: "settled (h_messages (qs_history st1))"
    using prepare_settled [OF assms(1)] msgs by simp
  have calls: "err = None \<Longrightarrow> map tu_id (sa_calls acc) = chunk_calls (rp_chunks r)"
    using consume_calls [of "rp_chunks r" new_accumulator "prepare_turn w st" acc st1] c
    by (simp add: new_accumulator_def)
  have react: "compacted (reactive_compact w s)" for s
    by (auto simp: reactive_compact_def compacted_def Let_def)
  show ?thesis
  proof (cases err)
    case (Some e)
    then show ?thesis using it c st1 by (cases e) (auto simp: iterate_def fail_query_def emit_def)
  next
    case None
    show ?thesis
    proof (cases "rp_ending r")
      case Stream_Ended
      then have "after_stream w budget turn acc (rp_round r) st1 = (t, st')"
        using it c None by (simp add: iterate_def)
      moreover have "rd_cancelled (rp_round r)
          \<or> set (map rb_tool_use_id (rd_results (rp_round r))) = set (map tu_id (sa_calls acc))"
        unfolding calls [OF None] using assms(2) by (simp only: answered_def)
      ultimately show ?thesis by (rule after_stream_settled [OF st1])
    next
      case (Media_Size e)
      obtain n h where "strip_media (len_input_of (q_compact w)) (qs_history st1) = (n, h)" by force
      moreover from this have "settled (h_messages h)"
        using st1 strip_pass [of "qs_history st1" "len_input_of (q_compact w)"] by (auto simp: settled_def)
      ultimately show ?thesis
        using it c None Media_Size st1 react assms(4)
        by (auto simp: iterate_def fail_query_def emit_def Let_def split: if_splits)
    qed (use it c None st1 react assms(4) cancel_settled in
        \<open>auto simp: iterate_def fail_query_def emit_def split: if_splits\<close>)
  qed
qed

lemma iterate_events: "iterate w budget turn r st = (t, st') \<Longrightarrow> events_of st \<subseteq> events_of st'"
proof -
  assume it: "iterate w budget turn r st = (t, st')"
  obtain err acc st1 where c: "consume (rp_chunks r) new_accumulator (prepare_turn w st) = (err, acc, st1)"
    by (metis prod_cases3)
  then have "events_of st \<subseteq> events_of st1" using consume_history prepare_events by blast
  moreover have "events_of st1 \<subseteq> events_of st'" using iterate_later [OF it c] .
  ultimately show ?thesis by blast
qed

lemma run_loop_events: "events_of st \<subseteq> events_of (snd (run_loop w mt budget rs turn st))"
proof (induction rs arbitrary: turn st)
  case (Cons r rs)
  obtain t st' where it: "iterate w budget (turn\<lparr>tn_index := tn_index turn + 1\<rparr>) r st = (t, st')" by force
  with iterate_events [OF it] Cons.IH [of st'] show ?case by (cases t) auto
qed simp

lemma run_loop_settled:
  assumes "settled (h_messages (qs_history st))" "\<forall>r \<in> set rs. answered r"
    and "\<not> compacted (snd (run_loop w mt budget rs turn st))"
  shows "settled (h_messages (qs_history (snd (run_loop w mt budget rs turn st))))"
  using assms
proof (induction rs arbitrary: turn st)
  case (Cons r rs)
  show ?case
  proof (cases "0 < mt \<and> mt < tn_index turn + 1")
    case False
    obtain t st' where it: "iterate w budget (turn\<lparr>tn_index := tn_index turn + 1\<rparr>) r st = (t, st')" by force
    show ?thesis
    proof (cases t)
      case None
      then show ?thesis using Cons.prems it False iterate_settled [OF Cons.prems(1) _ it] by auto
    next
      case (Some turn')
      then have eq: "run_loop w mt budget (r # rs) turn st = run_loop w mt budget rs turn' st'"
        using it False by auto
      then have "\<not> compacted (snd (run_loop w mt budget rs turn' st'))" using Cons.prems(3) by simp
      moreover from this have "\<not> compacted st'"
        using run_loop_events [of st' w mt budget rs turn'] by (auto simp: compacted_def)
      then have "settled (h_messages (qs_history st'))"
        using iterate_settled [OF Cons.prems(1) _ it] Cons.prems(2) by simp
      ultimately show ?thesis using Cons.IH [of st' turn'] Cons.prems(2) eq by simp
    qed
  qed (use Cons.prems in simp)
qed simp

lemma parent_messages_fst [simp]:
  "fst (parent_messages w (st\<lparr>qs_reminders := x\<rparr>)) = fst (parent_messages w st)"
  "fst (parent_messages w (st\<lparr>qs_input_tokens := i, qs_output_tokens := j\<rparr>)) = fst (parent_messages w st)"
  by (simp_all add: parent_messages_def case_prod_unfold Let_def split: option.split)

lemma setup_history:
  "setup_turn w prompt st = (r, st') \<Longrightarrow> qs_history st' = qs_history st \<and> qs_events st' = qs_events st"
proof -
  assume su: "setup_turn w prompt st = (r, st')"
  obtain ms st1 where m: "parent_messages w (st\<lparr>qs_reminders := []\<rparr>) = (ms, st1)" by (rule prod.exhaust)
  then have "qs_history st1 = qs_history st" "qs_events st1 = qs_events st"
    using parent_messages_state [of w "st\<lparr>qs_reminders := []\<rparr>"] by simp_all
  with su m show ?thesis
    by (auto simp: setup_turn_def submit_hook_def fire_query_hook_def Let_def
        split: if_splits option.splits prod.splits)
qed

text \<open>What \<open>setup_turn\<close> hands to the history: the drained reminders, whatever the hook does.\<close>

definition due_reminders :: "query_world \<Rightarrow> query_state \<Rightarrow> string list" where
  "due_reminders w st = qs_reminders st @ fst (parent_messages w st)"

lemma due_tokens [simp]:
  "due_reminders w (st\<lparr>qs_input_tokens := i, qs_output_tokens := j\<rparr>) = due_reminders w st"
  by (simp add: due_reminders_def)

lemma due_hooks [simp]: "due_reminders (w\<lparr>q_hooks := reg\<rparr>) st = due_reminders w st"
  by (simp add: due_reminders_def parent_messages_def case_prod_unfold Let_def split: option.split)

lemma setup_parts:
  obtains ms st1 where "parent_messages w (st\<lparr>qs_reminders := []\<rparr>) = (ms, st1)"
    "due_reminders w st = qs_reminders st @ ms"
proof -
  obtain ms st1 where m: "parent_messages w (st\<lparr>qs_reminders := []\<rparr>) = (ms, st1)" by (rule prod.exhaust)
  have "fst (parent_messages w st) = ms" using m parent_messages_fst(1) by (metis fst_conv)
  with m that show thesis by (simp add: due_reminders_def)
qed

lemma setup_reminders: "fst (snd (fst (setup_turn w prompt st))) = due_reminders w st"
proof -
  obtain ms st1 where m: "parent_messages w (st\<lparr>qs_reminders := []\<rparr>) = (ms, st1)"
    "due_reminders w st = qs_reminders st @ ms" by (rule setup_parts)
  then show ?thesis by (simp add: setup_turn_def Let_def split: prod.split option.split)
qed

lemma submit_hook_fst: "fst (submit_hook w s st) = fst (submit_hook w s st')"
  unfolding submit_hook_def fire_query_hook_def Let_def by (simp split: option.split prod.split)

lemma setup_blocked:
  "snd (snd (fst (setup_turn w prompt st))) =
     fst (fst (submit_hook w
       (if due_reminders w st \<noteq> [] then format_reminders (q_wrap w) (due_reminders w st) @ extract_text prompt
        else extract_text prompt) st))"
proof -
  let ?s = "if due_reminders w st \<noteq> [] then format_reminders (q_wrap w) (due_reminders w st) @ extract_text prompt
    else extract_text prompt"
  obtain ms st1 where m: "parent_messages w (st\<lparr>qs_reminders := []\<rparr>) = (ms, st1)"
    "due_reminders w st = qs_reminders st @ ms" by (rule setup_parts)
  obtain blocked ctx st2 where h: "submit_hook w ?s st1 = ((blocked, ctx), st2)" by (metis surj_pair)
  then have "fst (fst (submit_hook w ?s st)) = blocked" using submit_hook_fst [of w ?s st st1] by simp
  moreover have "snd (snd (fst (setup_turn w prompt st))) = blocked"
    by (simp only: setup_turn_def Let_def m(1) prod.case h [unfolded m(2)]) (simp split: option.split)
  ultimately show ?thesis by simp
qed

lemma setup_tokens:
  "snd (snd (fst (setup_turn w prompt (st\<lparr>qs_input_tokens := i, qs_output_tokens := j\<rparr>)))) =
     snd (snd (fst (setup_turn w prompt st)))"
  unfolding setup_blocked due_tokens by (metis submit_hook_fst)

lemma run_query_start:
  assumes "\<not> snd (snd (fst (setup_turn w prompt st)))"
  shows "qs_history (snd (run_query w prompt mt budget [] st)) =
    append_user (len_input_of (q_compact w)) (to_text_content (q_wrap w) (due_reminders w st) prompt)
      (qs_history st)"
proof -
  obtain q st1 where q: "setup_turn w prompt (st\<lparr>qs_input_tokens := 0, qs_output_tokens := 0\<rparr>) = (q, st1)"
    by (rule prod.exhaust)
  moreover obtain s rem blocked where "q = (s, rem, blocked)" by (metis prod_cases3)
  ultimately have su: "setup_turn w prompt
      (st\<lparr>qs_input_tokens := 0, qs_output_tokens := 0\<rparr>) = ((s, rem, blocked), st1)" by simp
  then have "qs_history st1 = qs_history st" "\<not> blocked" "rem = due_reminders w st"
    using setup_history [OF su] setup_tokens [where w = w and prompt = prompt and st = st and i = 0 and j = 0] assms
      setup_reminders [of w prompt "st\<lparr>qs_input_tokens := 0, qs_output_tokens := 0\<rparr>"] by auto
  with su show ?thesis by (simp add: run_query_def)
qed

end
