(* ===== verification/Query_Properties.thy ===== *)
theory Query_Properties
  imports Query_Loop
begin

text \<open>
  The properties of the query loop (\<open>orchestrator/loop/\<close>) and their witnesses: that it ends, what it
  keeps of the conversation, and two places where it drops what a hook or a finished tool said.
\<close>

section \<open>A concrete query for the witnesses\<close>

definition sample_query_world :: "hook_registry option \<Rightarrow> query_world" where
  "sample_query_world reg =
     \<lparr>q_compact = \<lparr>cd_stream = None, cd_prompts = None, cd_show_input = (\<lambda>_. ''{}''),
                   cd_show_content = (\<lambda>_. ''[]'')\<rparr>,
      q_keep = 5, q_threshold = 160000, q_hooks = reg,
      q_ambient = \<lparr>amb_session_id = ''s'', amb_cwd = ''/w'', amb_agent_depth = 0, amb_mode = Default,
                   amb_timestamp = 0\<rparr>,
      q_wrap = None, q_queue_reminders = True, q_agent_id = None\<rparr>"

definition sample_query_state :: query_state where
  "sample_query_state =
     \<lparr>qs_history = new_history (\<lambda>_. 0) None, qs_stop = Stop_End_Turn, qs_input_tokens = 0,
      qs_output_tokens = 0, qs_reminders = [], qs_tasks = None, qs_events = []\<rparr>"

definition sample_round :: "bool \<Rightarrow> result_block list \<Rightarrow> tool_round" where
  "sample_round c rs = \<lparr>rd_starts = [], rd_results = rs, rd_tasks = [], rd_cancelled = c\<rparr>"

definition sample_response :: "llm_chunk list \<Rightarrow> response" where
  "sample_response cs = \<lparr>rp_chunks = cs, rp_ending = Stream_Ended, rp_round = sample_round False []\<rparr>"

section \<open>The properties\<close>

text \<open>
  C23: A query with a turn limit ends: after at most \<open>max_turns\<close> model turns and the two reactive
  retries, whatever the provider streams, the tools answer and the hooks do.
\<close>

theorem query_ends:
  assumes "0 < max_turns" "max_turns + MAX_REACTIVE_RETRIES \<le> length rs"
  shows "fst (run_query w prompt max_turns budget rs st)"
  using assms by (rule run_query_ends)

theorem query_ends_witness:
  "fst (run_query (sample_query_world None) [Some ''q''] 1 None
     (replicate 3 (sample_response [Tool_Use_Chunk ''a'' ''Read'' []])) sample_query_state)"
  using query_ends [of 1 "replicate 3 (sample_response [Tool_Use_Chunk ''a'' ''Read'' []])"
      "sample_query_world None" "[Some ''q'']" None sample_query_state]
  by (simp add: MAX_REACTIVE_RETRIES_def)



text \<open>
  The submit hook cannot change what the model is sent: although the event declares that it
  accepts a rewritten prompt, two worlds that differ only in their hooks, neither of which blocks,
  append the same user message - the original blocks with the drained reminders.
\<close>

lemma prompt_rewrite_lost:
  assumes "\<not> snd (snd (fst (setup_turn w prompt st)))"
    and "\<not> snd (snd (fst (setup_turn (w\<lparr>q_hooks := reg\<rparr>) prompt st)))"
  shows "qs_history (snd (run_query (w\<lparr>q_hooks := reg\<rparr>) prompt mt budget [] st)) =
      qs_history (snd (run_query w prompt mt budget [] st))
    \<and> accepts_input_mutation (EVENT_SPECS USER_PROMPT_SUBMIT)"
proof -
  have start: "qs_history (snd (run_query v prompt mt budget [] st)) =
      append_user (len_input_of (q_compact w)) (to_text_content (q_wrap w) (due_reminders w st) prompt)
        (qs_history st)"
    if "v = w \<or> v = w\<lparr>q_hooks := reg\<rparr>" for v
    using that run_query_start [of v prompt st mt budget] assms by auto
  show ?thesis using start [of w] start [of "w\<lparr>q_hooks := reg\<rparr>"] by simp
qed

definition redact :: hook_handler where
  "redact ctx = (ctx\<lparr>hc_user_text := Some ''[redacted]''\<rparr>, Returned)"

text \<open>A hook that replaces the whole prompt: the loop gets its text, the history the secret.\<close>

lemma prompt_rewrite_lost_witness:
  "fst (fst (setup_turn (sample_query_world (Some (\<lambda>_. [redact]))) [Some ''secret''] sample_query_state))
      = ''[redacted]''
   \<and> h_messages (qs_history (snd (run_query (sample_query_world (Some (\<lambda>_. [redact]))) [Some ''secret''] 0 None []
       sample_query_state))) = [User_Message [User_Text ''secret'']]"
proof -
  have w: "sample_query_world (Some r) = (sample_query_world None)\<lparr>q_hooks := Some r\<rparr>" for r
    by (simp add: sample_query_world_def)
  have plain: "fst (setup_turn (sample_query_world None) [Some ''secret''] sample_query_state) = (''secret'', [], False)"
    by (simp add: setup_turn_def parent_messages_def submit_hook_def fire_query_hook_def query_ctx_def sample_query_world_def sample_query_state_def
        new_hook_ctx_def extract_text_def visible_texts_def Let_def)
  have hooked: "fst (setup_turn (sample_query_world (Some (\<lambda>_. [redact]))) [Some ''secret''] sample_query_state) =
      (''[redacted]'', [], False)"
    by (simp add: setup_turn_def parent_messages_def submit_hook_def fire_query_hook_def query_ctx_def sample_query_world_def sample_query_state_def
        new_hook_ctx_def fire_def redact_def extract_text_def visible_texts_def Let_def)
  have "h_messages (qs_history (snd (run_query (sample_query_world None) [Some ''secret''] 0 None []
       sample_query_state))) = [User_Message [User_Text ''secret'']]"
    using run_query_start [of "sample_query_world None" "[Some ''secret'']" sample_query_state 0 None] plain
    by (simp add: sample_query_state_def sample_query_world_def new_history_def append_user_def push_message_def
        due_reminders_def parent_messages_def to_text_content_def visible_texts_def)
  moreover have "qs_history (snd (run_query (sample_query_world (Some (\<lambda>_. [redact]))) [Some ''secret''] 0 None []
       sample_query_state)) = qs_history (snd (run_query (sample_query_world None) [Some ''secret''] 0 None []
       sample_query_state))"
    using prompt_rewrite_lost [of "sample_query_world None" "[Some ''secret'']" sample_query_state
        "Some (\<lambda>_. [redact])" 0 None] plain hooked
    by (simp add: w)
  ultimately show ?thesis using hooked by simp
qed

text \<open>
  A cancellation discards the results of tools that finished: the answer to every call of the
  interrupted round is the error "Interrupted by user", whatever results the round had collected.
\<close>

lemma cancel_discards_results:
  assumes "settled (h_messages (qs_history st))" "sa_calls acc \<noteq> []" "rd_cancelled rd"
    and "after_stream w budget turn acc rd st = (t, st')"
  shows "t = None \<and> (\<exists>bs. h_messages (qs_history st') = h_messages (qs_history st)
      @ [Assistant_Message bs, User_Message (map User_Result (map (interrupted \<circ> tu_id) (sa_calls acc)))])"
proof -
  let ?calls = "map (\<lambda>c. (tu_id c, tu_name c, tu_input c)) (sa_calls acc)"
  obtain bs where bs: "use_ids bs = map tu_id (sa_calls acc)"
    "h_messages (qs_history (assistant_turn w acc (sampling_hook w acc st))) = h_messages (qs_history st) @ [Assistant_Message bs]"
    using append_assistant_plain [of ?calls "len_input_of (q_compact w)" "concat (sa_text_parts acc)"
        "sa_thoughts acc" "qs_history st"] assms(2)
    by (auto simp: assistant_turn_def comp_def)
  have after: "t = None" "st' = cancel_query w (run_tasks (rd_tasks rd) (record_starts (rd_starts rd) (assistant_turn w acc (sampling_hook w acc st))))"
    using assms(2-4) by (simp_all add: after_stream_def Let_def)
  have "h_messages (qs_history st') = h_messages (qs_history st)
      @ [Assistant_Message bs, User_Message (map User_Result (map interrupted (map tu_id (sa_calls acc))))]"
    using bs assms(2)
    by (simp add: after cancel_query_def emit_def append_tool_results_def push_message_def Let_def)
  with after(1) show ?thesis by (auto simp: comp_def)
qed

lemma cancel_discards_results_witness:
  "h_messages (qs_history (snd (after_stream (sample_query_world None) None new_turn
      (new_accumulator\<lparr>sa_calls := [\<lparr>tu_id = ''a'', tu_name = ''FileWrite'', tu_input = []\<rparr>]\<rparr>)
      (sample_round True [\<lparr>rb_tool_use_id = ''a'', rb_content = Content_Text ''written'', rb_is_error = False\<rparr>])
      sample_query_state))) ! 1 = User_Message [User_Result (interrupted ''a'')]"
proof -
  let ?acc = "new_accumulator\<lparr>sa_calls := [\<lparr>tu_id = ''a'', tu_name = ''FileWrite'', tu_input = []\<rparr>]\<rparr>"
  let ?rd = "sample_round True [\<lparr>rb_tool_use_id = ''a'', rb_content = Content_Text ''written'', rb_is_error = False\<rparr>]"
  obtain t st' where run: "after_stream (sample_query_world None) None new_turn ?acc ?rd sample_query_state = (t, st')"
    by force
  have "settled (h_messages (qs_history sample_query_state))" "h_messages (qs_history sample_query_state) = []"
    by (simp_all add: sample_query_state_def new_history_def settled_def)
  then show ?thesis
    using cancel_discards_results [OF _ _ _ run] run by (auto simp: sample_round_def)
qed

text \<open>
  C26: What happened in the background reaches the model. The notices of the tasks that finished by a
  turn boundary are among the reminders of the next prompt, and unless a hook blocks that prompt the
  user message it appends begins with all its reminders, in order.
\<close>

theorem notices_reach_prompt:
  assumes "qs_tasks st = Some r" "q_queue_reminders w"
    and "\<not> snd (snd (fst (setup_turn w prompt (drain_tasks w st))))"
    and "i \<in> set (pending_for (q_agent_id w) r)" "get_task i r = Some t"
  shows "let due = due_reminders w (drain_tasks w st)
    in format_task_notification t \<in> set due
       \<and> (\<exists>blocks. h_messages (qs_history (snd (run_query w prompt mt budget [] (drain_tasks w st)))) =
            h_messages (qs_history st) @ [User_Message (User_Text (format_reminders (q_wrap w) due) # blocks)])"
proof -
  let ?due = "due_reminders w (drain_tasks w st)"
  have "set (notices (pending_for (q_agent_id w) r) r) \<subseteq> set (qs_reminders (drain_tasks w st))"
    using assms(1,2) notice_box.grab_gives [of "q_agent_id w" r]
    by (auto simp: drain_tasks_def drain_task_notifications_def notices_def case_prod_unfold Let_def)
  moreover have "format_task_notification t \<in> set (notices (pending_for (q_agent_id w) r) r)"
    using assms(4,5) by (force simp: notices_def)
  ultimately have due: "format_task_notification t \<in> set ?due" by (auto simp: due_reminders_def)
  then have "?due \<noteq> []" by auto
  then have "to_text_content (q_wrap w) ?due prompt = format_reminders (q_wrap w) ?due # visible_texts prompt"
    by (simp add: to_text_content_def)
  then have "h_messages (qs_history (snd (run_query w prompt mt budget [] (drain_tasks w st)))) =
      h_messages (qs_history st)
      @ [User_Message (User_Text (format_reminders (q_wrap w) ?due) # map User_Text (visible_texts prompt))]"
    using run_query_start [OF assms(3), of mt budget] by (simp add: append_user_def push_message_def)
  with due show ?thesis by (auto simp: Let_def)
qed

definition sample_finished :: task_registry where
  "sample_finished = wait_and_notify 1 ''b'' (Some 0) (register_task 0
     \<lparr>bt_id = ''b'', bt_status = Task_Running, bt_description = ''d'', bt_tool_use_id = None, bt_owner = None,
      bt_start = 0, bt_end = None, bt_output_file = ''f'', bt_notified = False,
      bt_body = Shell \<lparr>pb_command = ''c'', pb_exit_code = None, pb_process = True\<rparr>\<rparr> new_registry)"

theorem notices_reach_prompt_witness:
  "\<exists>t. format_task_notification t \<in> set (due_reminders (sample_query_world None)
     (drain_tasks (sample_query_world None) (sample_query_state\<lparr>qs_tasks := Some sample_finished\<rparr>)))
   \<and> bt_status t = Task_Completed"
proof -
  let ?w = "sample_query_world None"
  let ?st = "sample_query_state\<lparr>qs_tasks := Some sample_finished\<rparr>"
  have "\<exists>t. get_task ''b'' sample_finished = Some t \<and> bt_status t = Task_Completed"
    by (simp add: sample_finished_def coroutines announce_get register_task_def)
       (simp add: closed_task_def)
  then obtain t where t: "get_task ''b'' sample_finished = Some t" "bt_status t = Task_Completed" by blast
  have "tk_queue sample_finished = [(''b'', None)]"
    by (simp add: sample_finished_def coroutines announce_queue register_task_def)
       (simp add: closed_task_def new_registry_def)
  then have "''b'' \<in> set (pending_for (q_agent_id ?w) sample_finished)"
    by (simp add: pending_for_def sample_query_world_def)
  moreover have "\<not> snd (snd (fst (setup_turn ?w [Some ''q''] (drain_tasks ?w ?st))))"
    unfolding setup_blocked by (simp add: submit_hook_def fire_query_hook_def sample_query_world_def)
  ultimately show ?thesis
    using notices_reach_prompt [of ?st sample_finished ?w "[Some ''q'']" "''b''" t] t
    by (auto simp: Let_def sample_query_world_def)
qed

end
