(* ===== verification/Task_Properties.thy ===== *)
theory Task_Properties
  imports Task_Session
begin

text \<open>
  The properties of the background tasks and their witnesses: what is announced, in which order and
  how often, and where a notice, a line or a stop gets lost.
\<close>

section \<open>Concrete tasks for the witnesses\<close>

definition sample_shell :: "string \<Rightarrow> string option \<Rightarrow> bg_task" where
  "sample_shell i owner =
     \<lparr>bt_id = i, bt_status = Task_Running, bt_description = ''d'', bt_tool_use_id = None, bt_owner = owner,
      bt_start = 0, bt_end = None, bt_output_file = ''f'', bt_notified = False,
      bt_body = Shell \<lparr>pb_command = ''c'', pb_exit_code = None, pb_process = True\<rparr>\<rparr>"

definition sample_monitor :: bg_task where
  "sample_monitor = (sample_shell ''m'' None)
     \<lparr>bt_body := Monitor \<lparr>pb_command = ''c'', pb_exit_code = None, pb_process = True, mb_lines = [], mb_cap = 50\<rparr>\<rparr>"

definition sample_agent_request :: agent_request where
  "sample_agent_request =
     \<lparr>ar_description = ''d'', ar_prompt = ''p'', ar_type = ''t'', ar_model = None, ar_name = Some ''n''\<rparr>"

definition sample_sender :: send_world where
  "sample_sender = \<lparr>sw_tasks = True, sw_spawn = True, sw_agent_id = None, sw_deliver = None\<rparr>"

lemmas task_evaluation = sample_shell_def sample_monitor_def sample_agent_request_def new_registry_def
  register_task_def put_task_def get_task_def unused_def monitor_of_def agent_of_def
  spawn_background_agent_def register_name_def new_agent_task_def

lemma fresh_runs_ok: "fresh_run ops new_registry \<Longrightarrow> registry_ok (bg_run ops new_registry)"
  using run_keeps(1) [of new_registry ops] by simp

section \<open>The properties\<close>

lemma pending_queue: "only_agent a r \<Longrightarrow> pending_for a r = map fst (tk_queue r)"
  by (auto simp: pending_for_def only_agent_def intro!: arg_cong [of _ _ "map fst"] filter_True)

lemma pending_exact:
  assumes ok: "registry_ok r" and only: "only_agent a r"
  shows "set (pending_for a r) = {i. \<exists>t. get_task i r = Some t \<and> is_terminal (bt_status t)}"
proof (intro set_eqI iffI)
  fix i assume "i \<in> set (pending_for a r)"
  then obtain b where b: "(i, b) \<in> set (tk_queue r)" by (auto simp: pending_queue [OF only])
  then obtain t where t: "get_task i r = Some t" using only by (auto simp: only_agent_def)
  have "bt_notified t" using registry_okD(4) [OF ok b t] by simp
  then show "i \<in> {i. \<exists>t. get_task i r = Some t \<and> is_terminal (bt_status t)}"
    using t registry_okD(3) [OF ok t] by (simp add: task_fits_def)
next
  fix i assume "i \<in> {i. \<exists>t. get_task i r = Some t \<and> is_terminal (bt_status t)}"
  then obtain t where t: "get_task i r = Some t" "is_terminal (bt_status t)" by blast
  then have "bt_notified t" using registry_okD(3) [OF ok t(1)] by (simp add: task_fits_def)
  then show "i \<in> set (pending_for a r)" using only t(1) by (simp add: pending_queue [OF only] only_agent_def)
qed

text \<open>
  C24: In a session where one agent owns all the background tasks, whatever the tools and the
  background coroutines did, the waiting notices are exactly the finished tasks still registered,
  each once; the next turn reports every one of them, with its state, and forgets it.
\<close>

theorem finished_tasks_announced:
  assumes "fresh_run ops new_registry"
    and "\<forall>op \<in> set ops. agents_of op \<subseteq> {a} \<and> (\<forall>c q. op \<noteq> Op_Child_End c q)"
  shows "let r = bg_run ops new_registry; ids = pending_for a r;
           (reminders, r') = drain_task_notifications a True r
    in distinct ids
       \<and> set ids = {i. \<exists>t. get_task i r = Some t \<and> is_terminal (bt_status t)}
       \<and> prefix (map (\<lambda>i. format_task_notification (the (get_task i r))) ids) reminders
       \<and> pending_for a r' = [] \<and> (\<forall>i \<in> set ids. get_task i r' = None)"
proof -
  let ?r = "bg_run ops new_registry"
  have ok: "registry_ok ?r" and only: "only_agent a ?r"
    using run_keeps [of new_registry ops] assms by simp_all
  have d: "distinct (pending_for a ?r)"
    using registry_okD(2) [OF ok] by (simp add: pending_queue [OF only])
  note set = pending_exact [OF ok only]
  have live: "\<exists>t. get_task i ?r = Some t \<and> is_terminal (bt_status t)" if "i \<in> set (pending_for a ?r)" for i
    using that unfolding set by blast
  obtain rem r' where turn: "drain_task_notifications a True ?r = (rem, r')" by force
  have notice: "notices is ?r = map (\<lambda>i. format_task_notification (the (get_task i ?r))) is"
    if "set is \<subseteq> set (pending_for a ?r)" for "is"
    using that by (induction "is") (auto simp: notices_def dest!: live)
  have same: "notices is (snd (drain_notifications a ?r)) = notices is ?r" for "is"
    by (simp add: notices_def)
  have "prefix (notices (pending_for a ?r) ?r) rem"
    using turn notice_box.grab_gives [of a ?r] same
    by (auto simp: drain_task_notifications_def case_prod_unfold Let_def)
  moreover have "pending_for a r' = []"
    using turn turn_queue [of a True ?r] by (auto simp: pending_for_def filter_empty_conv)
  moreover have "get_task i r' = None" if "i \<in> set (pending_for a ?r)" for i
    using live [OF that] turn turn_get [OF registry_okD(1) [OF ok], of i a True] registry_okD(3) [OF ok]
    by (auto simp: evictable_def task_fits_def)
  ultimately show ?thesis using d set turn notice [OF order_refl] by (simp add: Let_def)
qed

theorem finished_tasks_announced_witness:
  "set (pending_for None (bg_run [Op_Register 0 (sample_shell ''b'' None), Op_Wait 1 ''b'' (Some 0)]
     new_registry)) = {''b''}"
proof -
  let ?ops = "[Op_Register 0 (sample_shell ''b'' None), Op_Wait 1 ''b'' (Some 0)]"
  have "fresh_run ?ops new_registry" by (simp add: task_evaluation)
  moreover have "\<forall>op \<in> set ?ops. agents_of op \<subseteq> {None} \<and> (\<forall>c q. op \<noteq> Op_Child_End c q)"
    by (simp add: sample_shell_def)
  ultimately have "set (pending_for None (bg_run ?ops new_registry)) =
       {i. \<exists>t. get_task i (bg_run ?ops new_registry) = Some t \<and> is_terminal (bt_status t)}"
    using finished_tasks_announced [of ?ops None] by (simp add: Let_def case_prod_unfold)
  moreover have "get_task i (bg_run ?ops new_registry) =
      (if i = ''b'' then Some ((closed_task 1 Task_Completed (Some 0) None None (sample_shell ''b'' None))
         \<lparr>bt_notified := True\<rparr>) else None)" for i
    by (simp add: bg_run_def coroutines announce_get register_task_def)
       (simp add: new_registry_def get_task_def sample_shell_def closed_task_def)
  ultimately show ?thesis by (simp add: closed_task_def)
qed

text \<open>
  Notifications and messages are delivered in order and never twice: along any sequence of
  sends and drains, what an agent has received and what still waits for it is exactly what was
  accepted for it, in that order, whatever the other agents drain.
\<close>

lemma mail_in_order:
  "received a (fst (run_mail enqueue_notification drain_notifications ops r))
     @ pending_for a (snd (run_mail enqueue_notification drain_notifications ops r)) =
   pending_for a r @ accepted notice_owner enqueue_notification drain_notifications a ops r
   \<and> received i (fst (run_mail post_message fetch_messages mops r))
     @ inbox i (snd (run_mail post_message fetch_messages mops r)) =
   inbox i r @ accepted addressee post_message fetch_messages i mops r"
  using notice_box.conservation agent_box.conservation by blast

text \<open>
  A turn of one agent destroys the notices of all the others: it evicts their finished tasks
  while these still wait in the queue, so when their own agent drains them there is nothing left to
  report.
\<close>

lemma other_agents_notices_lost:
  assumes "fresh_run ops new_registry" "a \<noteq> b"
  shows "let r = bg_run ops new_registry; r1 = snd (drain_task_notifications a True r)
    in pending_for b r1 = pending_for b r \<and> notices (pending_for b r1) r1 = []
       \<and> (\<forall>c. b = Some c \<longrightarrow> fst (drain_orphan_notifications c True r1) = [])"
proof -
  let ?r = "bg_run ops new_registry"
  let ?r1 = "snd (drain_task_notifications a True ?r)"
  have ok: "registry_ok ?r" using fresh_runs_ok [OF assms(1)] .
  have pending: "pending_for b ?r1 = pending_for b ?r"
    using assms(2) by (auto simp: pending_for_def turn_queue case_prod_unfold
        intro!: arg_cong [of _ _ "map fst"] filter_cong)
  have "get_task i ?r1 = None" if "i \<in> set (pending_for b ?r)" for i
  proof (cases "get_task i ?r")
    case (Some t)
    then have "evictable t"
      using that ok by (fastforce simp: pending_for_def registry_ok_def task_fits_def evictable_def)
    with Some show ?thesis by (simp add: turn_get [OF registry_okD(1) [OF ok]])
  qed (simp add: turn_get [OF registry_okD(1) [OF ok]])
  then have gone: "notices (pending_for b ?r1) ?r1 = []"
    by (simp add: notices_def pending)
  have "fst (drain_orphan_notifications c True ?r1) = notices (pending_for (Some c) ?r1) ?r1" for c
    using notice_box.grab_gives [of "Some c" ?r1]
    by (simp add: drain_orphan_notifications_def case_prod_unfold Let_def notices_def)
  with pending gone show ?thesis by (auto simp: Let_def)
qed

lemma other_agents_notices_lost_witness:
  "let ops = [Op_Register 0 (sample_shell ''b'' (Some ''x'')), Op_Wait 1 ''b'' (Some 0)];
       r = bg_run ops new_registry; r1 = snd (drain_task_notifications None True r)
   in pending_for (Some ''x'') r = [''b''] \<and> fst (drain_orphan_notifications ''x'' True r1) = []"
proof -
  let ?ops = "[Op_Register 0 (sample_shell ''b'' (Some ''x'')), Op_Wait 1 ''b'' (Some 0)]"
  have "fresh_run ?ops new_registry" by (simp add: task_evaluation)
  then have "fst (drain_orphan_notifications ''x'' True (snd (drain_task_notifications None True (bg_run ?ops new_registry)))) = []"
    using other_agents_notices_lost [of ?ops None "Some ''x''"] by (simp add: Let_def)
  moreover have "tk_queue (bg_run ?ops new_registry) = [(''b'', Some ''x'')]"
    by (simp add: bg_run_def coroutines announce_queue register_task_def)
       (simp add: new_registry_def sample_shell_def closed_task_def)
  ultimately show ?thesis by (simp add: Let_def pending_for_def)
qed

text \<open>
  The last lines of a monitor are lost: the updates a turn reports are those of the monitors
  that still run. A finished one is evicted before the buffers are drained, with whatever its final
  read had put there.
\<close>

lemma final_lines_lost:
  assumes "fresh_run ops new_registry"
  shows "let r = bg_run ops new_registry
    in fst (drain_task_notifications a True r) = notices (pending_for a r) r
       @ concat (map (\<lambda>(i, t). if is_terminal (bt_status t) then []
           else case drains_monitor a t of Some ls \<Rightarrow> [format_monitor_notification i ls] | None \<Rightarrow> []) (tk_tasks r))
     \<and> (\<forall>i t. get_task i r = Some t \<and> is_terminal (bt_status t) \<longrightarrow>
          get_task i (snd (drain_task_notifications a True r)) = None)"
proof -
  let ?r = "bg_run ops new_registry"
  have ok: "registry_ok ?r" using fresh_runs_ok [OF assms] .
  have fits: "task_fits i t" if "(i, t) \<in> set (tk_tasks ?r)" for i t
    using registry_okD(3) [OF ok, of i t] registry_okD(1) [OF ok] that by (simp add: get_task_def)
  have upd: "map (\<lambda>(i, ls). format_monitor_notification i ls) (fst (drain_monitor_lines a (snd (evict_terminal r)))) =
      concat (map (\<lambda>(i, t). if is_terminal (bt_status t) then []
           else case drains_monitor a t of Some ls \<Rightarrow> [format_monitor_notification i ls] | None \<Rightarrow> []) (tk_tasks r))"
    if "\<And>i t. (i, t) \<in> set (tk_tasks r) \<Longrightarrow> task_fits i t" for r
  proof -
    have "map (\<lambda>(i, ls). format_monitor_notification i ls)
        (concat (map (\<lambda>(i, t). case drains_monitor a t of Some ls \<Rightarrow> [(bt_id t, ls)] | None \<Rightarrow> [])
          (filter (\<lambda>(i, t). \<not> evictable t) xs))) =
      concat (map (\<lambda>(i, t). if is_terminal (bt_status t) then []
           else case drains_monitor a t of Some ls \<Rightarrow> [format_monitor_notification i ls] | None \<Rightarrow> []) xs)"
      if "\<And>i t. (i, t) \<in> set xs \<Longrightarrow> task_fits i t" for xs
      using that
    proof (induction xs)
      case (Cons x xs)
      obtain i t where x: "x = (i, t)" by force
      then have "evictable t \<longleftrightarrow> is_terminal (bt_status t)" "bt_id t = i"
        using Cons.prems [of i t] by (auto simp: evictable_def task_fits_def)
      with Cons x show ?case by (auto split: option.split)
    qed simp
    from this [OF that] show ?thesis by (simp add: drain_monitor_lines_def evict_terminal_def Let_def)
  qed
  have "notices ids (snd (drain_notifications a ?r)) = notices ids ?r" for ids
    by (simp add: notices_def)
  then have "fst (drain_task_notifications a True ?r) = notices (pending_for a ?r) ?r
      @ map (\<lambda>(i, ls). format_monitor_notification i ls)
          (fst (drain_monitor_lines a (snd (evict_terminal (snd (drain_notifications a ?r))))))"
    using notice_box.grab_gives [of a ?r]
    by (simp add: drain_task_notifications_def case_prod_unfold Let_def)
  moreover note upd [of "snd (drain_notifications a ?r)"] fits
  moreover have "get_task i (snd (drain_task_notifications a True ?r)) = None"
    if "get_task i ?r = Some t" "is_terminal (bt_status t)" for i t
    using that registry_okD(3) [OF ok that(1)]
    by (simp add: turn_get [OF registry_okD(1) [OF ok]] evictable_def task_fits_def)
  ultimately show ?thesis by (auto simp: Let_def)
qed

lemma final_lines_lost_witness:
  "let r = bg_run [Op_Register 0 sample_monitor, Op_Monitor_Exit 1 ''m'' (Some 0),
                   Op_Monitor_Read ''m'' [''last words'']] new_registry
   in map_option (\<lambda>t. map_option mb_lines (monitor_of t)) (get_task ''m'' r) = Some (Some [''last words''])
      \<and> fst (drain_task_notifications None True r) = notices [''m''] r"
proof -
  let ?ops = "[Op_Register 0 sample_monitor, Op_Monitor_Exit 1 ''m'' (Some 0), Op_Monitor_Read ''m'' [''last words'']]"
  have fresh: "fresh_run ?ops new_registry" by (simp add: task_evaluation)
  have run: "\<exists>t. bg_run ?ops new_registry = \<lparr>tk_tasks = [(''m'', t)], tk_queue = [(''m'', None)],
      tk_todos = Map.empty, tk_names = Map.empty\<rparr> \<and> is_terminal (bt_status t)
      \<and> map_option mb_lines (monitor_of t) = Some [''last words'']"
    by (simp add: bg_run_def monitor_exit_def monitor_read_def enqueue_notification_def update_task_status_def
        modify_task_def task_evaluation closed_task_def with_lines_def buffer_line_def)
  then obtain t where t: "bg_run ?ops new_registry = \<lparr>tk_tasks = [(''m'', t)], tk_queue = [(''m'', None)],
      tk_todos = Map.empty, tk_names = Map.empty\<rparr>" "is_terminal (bt_status t)"
      "map_option mb_lines (monitor_of t) = Some [''last words'']" by blast
  from final_lines_lost [OF fresh, of None]
  have "fst (drain_task_notifications None True (bg_run ?ops new_registry)) =
      notices [''m''] (bg_run ?ops new_registry)"
    using t(2) by (simp add: Let_def t(1) pending_for_def)
  with t show ?thesis by (simp add: Let_def get_task_def)
qed

text \<open>
  A background command that was stopped is reported as failed: the coroutine that waits for its
  process overwrites the status, whatever exit code the kill left, before the next turn. A monitor that
  was stopped stays stopped. Either way there is one notice.
\<close>

lemma stopped_command_reported_failed:
  assumes "get_task i r = Some t" "bt_status t = Task_Running" "bt_body t = Shell b" "\<not> bt_notified t"
    and "rc \<noteq> Some 0"
  shows "let r2 = wait_and_notify now2 i rc (snd (task_stop now i r))
    in map_option bt_status (get_task i r2) = Some Task_Failed
       \<and> tk_queue r2 = tk_queue r @ [(i, bt_owner t)]
       \<and> notices [i] r2 = [format_task_notification (the (get_task i r2))]
       \<and> monitor_exit now2 i rc (snd (task_stop now i r)) = snd (task_stop now i r)"
proof -
  have stop: "snd (task_stop now i r) = announce i (closed_task now Task_Killed None None None) r"
    using assms(1,2) by (simp add: task_stop_def announce_def update_task_status_def)
  have "(case rc of Some c \<Rightarrow> c | None \<Rightarrow> - 1) \<noteq> 0" using assms(5) by (auto split: option.split)
  then show ?thesis
    using assms(1,4)
    by (simp add: Let_def stop coroutines announce_get announce_queue notices_def monitor_exit_def)
       (simp add: closed_task_def)
qed

lemma stopped_command_reported_failed_witness:
  "let r2 = wait_and_notify 2 ''b'' (Some (- 9)) (snd (task_stop 1 ''b'' (register_task 0 (sample_shell ''b'' None) new_registry)))
   in map_option bt_status (get_task ''b'' r2) = Some Task_Failed"
  using stopped_command_reported_failed [of "''b''" "register_task 0 (sample_shell ''b'' None) new_registry"
      "sample_shell ''b'' None" "\<lparr>pb_command = ''c'', pb_exit_code = None, pb_process = True\<rparr>" "Some (- 9)" 2 1]
  by (simp add: task_evaluation Let_def)

text \<open>
  A background agent cannot be stopped: the stop answers that it succeeded but reaches nothing -
  the task has no cancel event - and when the agent's run returns, the task is completed with its
  reply, although its notice may have said that it was stopped.
\<close>

lemma agent_survives_stop:
  assumes "unused i r" "spawn_background_agent now i path owner q r = (Inr i, r1)"
  shows "fst (task_stop now1 i r1) =
      Inr (Nothing_Stopped, ''Successfully stopped task: '' @ i @ '' ('' @ ar_description q @ '')'')
    \<and> (let r2 = run_agent_background now2 i (Agent_Returned parts ms) (snd (task_stop now1 i r1))
       in map_option bt_status (get_task i r2) = Some Task_Completed)"
proof -
  have t: "get_task i r1 = Some ((new_agent_task i path owner q)\<lparr>bt_start := now\<rparr>)"
    using assms(2)
    by (auto simp: spawn_background_agent_def register_task_def register_name_def new_agent_task_def
        split: option.splits if_splits)
  then have stop: "snd (task_stop now1 i r1) = announce i (closed_task now1 Task_Killed None None None) r1"
    by (simp add: task_stop_def announce_def update_task_status_def new_agent_task_def)
  have "\<exists>t'. get_task i (snd (task_stop now1 i r1)) = Some t'"
    using t by (simp add: stop announce_get)
  then have "map_option bt_status (get_task i (run_agent_background now2 i (Agent_Returned parts ms)
      (snd (task_stop now1 i r1)))) = Some Task_Completed"
    by (auto simp: coroutines announce_get with_transcript_def closed_task_def)
  moreover have "fst (task_stop now1 i r1) =
      Inr (Nothing_Stopped, ''Successfully stopped task: '' @ i @ '' ('' @ ar_description q @ '')'')"
    using t by (simp add: task_stop_def stop_effect_of_def new_agent_task_def)
  ultimately show ?thesis by (simp add: Let_def)
qed

lemma agent_survives_stop_witness:
  "fst (task_stop 1 ''a'' (snd (spawn_background_agent 0 ''a'' ''f'' None sample_agent_request new_registry))) =
     Inr (Nothing_Stopped, ''Successfully stopped task: a (d)'')"
  using agent_survives_stop [of "''a''" new_registry 0 "''f''" None sample_agent_request _ 1]
  by (simp add: task_evaluation)

text \<open>
  A stopped agent can be resumed only until the next turn: once any orchestrator has drained its
  notices the finished agent is evicted with its transcript, and a message to its name or id is
  refused and launches nothing.
\<close>

lemma no_resume_after_turn:
  assumes "fresh_run ops new_registry" "resolve_agent to (bg_run ops new_registry) = Some i"
    and "get_task i (bg_run ops new_registry) = Some t" "is_terminal (bt_status t)"
    and "to = i \<or> get_task to (bg_run ops new_registry) = None"
    and "sw_tasks w" "to \<noteq> ''*''" "\<not> prefix session_prefix to"
  shows "let r1 = snd (drain_task_notifications a can_queue (bg_run ops new_registry))
    in send_message w now new_id path to m r1 =
         ((False, ''Agent '' @ single_quoted to @ '' not found.  No agent with that name or task ID exists.''), None, r1)"
proof -
  let ?r = "bg_run ops new_registry"
  let ?r1 = "snd (drain_task_notifications a can_queue ?r)"
  have ok: "registry_ok ?r" using fresh_runs_ok [OF assms(1)] .
  have ev: "evictable t" using registry_okD(3) [OF ok assms(3)] assms(4) by (simp add: evictable_def task_fits_def)
  then have gone: "get_task i ?r1 = None" "get_task to ?r1 = None"
    using assms(3,5) by (auto simp: turn_get [OF registry_okD(1) [OF ok]] split: option.split)
  have names: "tk_names ?r1 to = (case tk_names ?r to of
      Some j \<Rightarrow> if j \<in> set (fst (evict_terminal ?r)) then None else Some j | None \<Rightarrow> None)"
    by (simp add: turn_parts drain_monitor_lines_def evict_terminal_def drain_notifications_def Let_def
        split: option.split)
  have "i \<in> set (fst (evict_terminal ?r))"
    using ev assms(3) map_of_SomeD [of "tk_tasks ?r" i t]
    by (force simp: evict_terminal_def get_task_def Let_def)
  then have "resolve_name to ?r1 = None"
    using assms(2,5) names by (auto simp: resolve_agent_def resolve_name_def split: option.splits)
  then show ?thesis
    using gone assms(6-8) by (simp add: send_message_def resolve_agent_def Let_def)
qed

lemma no_resume_after_turn_witness:
  "let r1 = snd (drain_task_notifications None True (bg_run
       [Op_Spawn 0 ''a'' ''f'' None sample_agent_request, Op_Agent_End 1 ''a'' (Agent_Returned [''ok''] [])] new_registry))
   in fst (send_message sample_sender 2 ''a2'' ''f2'' ''n'' ''go on'' r1) =
        (False, ''Agent '' @ single_quoted ''n'' @ '' not found.  No agent with that name or task ID exists.'')"
proof -
  let ?ops = "[Op_Spawn 0 ''a'' ''f'' None sample_agent_request, Op_Agent_End 1 ''a'' (Agent_Returned [''ok''] [])]"
  have fresh: "fresh_run ?ops new_registry" by (simp add: task_evaluation)
  have run: "\<exists>t. get_task ''a'' (bg_run ?ops new_registry) = Some t \<and> is_terminal (bt_status t)"
    "get_task ''n'' (bg_run ?ops new_registry) = None" "resolve_agent ''n'' (bg_run ?ops new_registry) = Some ''a''"
    by (simp_all add: bg_run_def coroutines announce_get resolve_agent_def resolve_name_def announce_def
        enqueue_notification_def task_evaluation closed_task_def with_transcript_def modify_task_def)
  then obtain t where "get_task ''a'' (bg_run ?ops new_registry) = Some t" "is_terminal (bt_status t)" by blast
  from no_resume_after_turn [OF fresh run(3) this, of sample_sender] run(2) show ?thesis
    by (simp add: Let_def sample_sender_def session_prefix_def)
qed

text \<open>
  A monitor's buffer holds the most recent lines, in order, at most its cap: feeding lines into it
  is appending them and keeping the last ones.
\<close>

lemma monitor_buffer:
  assumes "length buf \<le> cap" "0 < cap"
  shows "fold (buffer_line cap) lines buf = drop (length buf + length lines - cap) (buf @ lines)"
  using assms(1)
proof (induction lines arbitrary: buf)
  case (Cons l ls)
  have line: "buffer_line cap l buf = drop (length buf + 1 - cap) (buf @ [l])"
    using Cons.prems assms(2) by (cases buf) (auto simp: buffer_line_def)
  have "fold (buffer_line cap) ls (buffer_line cap l buf) =
      drop (length (buffer_line cap l buf) + length ls - cap) (buffer_line cap l buf @ ls)"
    using Cons.IH [OF buffer_line_cap [OF Cons.prems]] .
  also have "\<dots> = drop (length buf + length (l # ls) - cap) (buf @ l # ls)"
    using Cons.prems assms(2) by (cases "length buf = cap") (simp_all add: line)
  finally show ?case by simp
qed simp

lemma monitor_buffer_witness:
  "fold (buffer_line 2) [''x'', ''y'', ''z''] [''w''] = [''y'', ''z'']"
  using monitor_buffer [of "[''w'']" 2 "[''x'', ''y'', ''z'']"] by simp

end
