(* ===== verification/Subagents.thy ===== *)
theory Subagents
  imports Query_Loop Tasks
begin

text \<open>
  \<open>orchestrator/orchestrator.py\<close> and \<open>orchestrator/agents.py\<close>: what a session's orchestrator keeps
  beside its history, and how it runs a child for the agent tool - the child's session id, depth and
  mode, the permission callback it gets, and the events around its query.
\<close>

section \<open>The orchestrator\<close>

record orchestrator_config =
  oc_model :: string
  oc_temperature :: "rat option"
  oc_streaming_tools :: bool
  oc_language :: "string option"

record config_patch =
  pt_model :: "string option"
  pt_temperature :: "rat option"
  pt_streaming_tools :: "bool option"
  pt_language :: "string option"

definition merge_config_patch :: "orchestrator_config \<Rightarrow> config_patch \<Rightarrow> orchestrator_config" where
  "merge_config_patch c p =
     \<lparr>oc_model = (case pt_model p of Some m \<Rightarrow> m | None \<Rightarrow> oc_model c),
      oc_temperature = or_keep (pt_temperature p) (oc_temperature c),
      oc_streaming_tools = (case pt_streaming_tools p of Some b \<Rightarrow> b | None \<Rightarrow> oc_streaming_tools c),
      oc_language = or_keep (pt_language p) (oc_language c)\<rparr>"

record orchestrator =
  or_session_id :: string
  or_depth :: nat
  or_cwd :: string
  or_agent_id :: "string option"
  or_closed :: bool
  or_config :: orchestrator_config
  or_mode :: permission_mode
  or_query :: query_state

text \<open>
  \<open>StandardOrchestrator.__init__\<close>: the mode is \<open>default\<close> and the history the given one. The pending
  reminders belong to the session's closures and start where the caller says.
\<close>

definition new_orchestrator ::
    "(dict \<Rightarrow> nat) \<Rightarrow> string \<Rightarrow> message list option \<Rightarrow> orchestrator_config \<Rightarrow> nat \<Rightarrow> string \<Rightarrow> string option
       \<Rightarrow> orchestrator" where
  "new_orchestrator len_input session_id initial config depth cwd agent_id =
     \<lparr>or_session_id = session_id, or_depth = depth, or_cwd = cwd, or_agent_id = agent_id,
      or_closed = False, or_config = config, or_mode = Default,
      or_query = \<lparr>qs_history = new_history len_input initial, qs_stop = Stop_End_Turn, qs_input_tokens = 0,
        qs_output_tokens = 0, qs_reminders = [], qs_tasks = None, qs_events = []\<rparr>\<rparr>"

definition close_orchestrator :: "orchestrator \<Rightarrow> orchestrator" where
  "close_orchestrator o1 = o1\<lparr>or_closed := True\<rparr>"

text \<open>\<open>set_mode\<close> takes a mode's name and raises for an unknown one.\<close>

fun mode_name :: "permission_mode \<Rightarrow> string" where
  "mode_name Default = ''default''"
| "mode_name Plan = ''plan''"
| "mode_name Bypass = ''bypass''"
| "mode_name Accept_Edits = ''accept_edits''"
| "mode_name Auto = ''auto''"
| "mode_name Dont_Ask = ''dont_ask''"

definition VALID_PERMISSION_MODES :: "permission_mode list" where
  "VALID_PERMISSION_MODES = [Default, Plan, Bypass, Accept_Edits, Auto, Dont_Ask]"

definition set_mode :: "string \<Rightarrow> orchestrator \<Rightarrow> orchestrator result" where
  "set_mode m o1 =
     (case filter (\<lambda>x. mode_name x = m) VALID_PERMISSION_MODES of
        [] \<Rightarrow> Inl ''ValueError'' | x # _ \<Rightarrow> Inr (o1\<lparr>or_mode := x\<rparr>))"

definition set_plan_mode :: "bool \<Rightarrow> orchestrator \<Rightarrow> orchestrator" where
  "set_plan_mode on o1 = o1\<lparr>or_mode := (if on then Plan else Default)\<rparr>"

definition set_config :: "config_patch \<Rightarrow> orchestrator \<Rightarrow> orchestrator" where
  "set_config p o1 = o1\<lparr>or_config := merge_config_patch (or_config o1) p\<rparr>"

definition append_user_context :: "(dict \<Rightarrow> nat) \<Rightarrow> string \<Rightarrow> orchestrator \<Rightarrow> orchestrator" where
  "append_user_context len_input s o1 =
     o1\<lparr>or_query := (or_query o1)\<lparr>qs_history := append_user len_input [s] (qs_history (or_query o1))\<rparr>\<rparr>"

definition COMPACTION_FRACTION :: rat where "COMPACTION_FRACTION = 4 / 5"
definition DEFAULT_CONTEXT_WINDOW :: nat where "DEFAULT_CONTEXT_WINDOW = 200000"

definition compaction_threshold :: int where
  "compaction_threshold = \<lfloor>of_nat DEFAULT_CONTEXT_WINDOW * COMPACTION_FRACTION\<rfloor>"

text \<open>A tool call as this orchestrator's executor makes it, with a permission callback.\<close>

definition executor_world ::
    "'c tool_world \<Rightarrow> orchestrator \<Rightarrow> (perm_request \<Rightarrow> perm_response result) \<Rightarrow> 'c tool_world" where
  "executor_world w o1 cb =
     w\<lparr>w_session_id := or_session_id o1, w_agent_depth := or_depth o1, w_cwd := or_cwd o1,
       w_on_permission := cb\<rparr>"

definition run_tool_call ::
    "'c tool_world \<Rightarrow> orchestrator \<Rightarrow> (perm_request \<Rightarrow> perm_response result) \<Rightarrow> tool_use \<Rightarrow> tool \<Rightarrow> 'c
       \<Rightarrow> 'c exec_state \<Rightarrow> 'c run" where
  "run_tool_call w o1 cb tc t tctx st = run_in_mode (executor_world w o1 cb) (or_mode o1) tc t tctx st"

section \<open>Children\<close>

definition SUBAGENT_DEFAULT_MAX_TURNS :: nat where "SUBAGENT_DEFAULT_MAX_TURNS = 200"

definition auto_allow :: "perm_request \<Rightarrow> perm_response result" where
  "auto_allow rq = Inr \<lparr>pr_decision = Answer_Allow_Once, pr_updated_input = None\<rparr>"

definition child_callback ::
    "(perm_request \<Rightarrow> perm_response result) option \<Rightarrow> perm_request \<Rightarrow> perm_response result" where
  "child_callback on_permission = (case on_permission of Some f \<Rightarrow> f | None \<Rightarrow> auto_allow)"

definition child_session_id :: "string \<Rightarrow> string \<Rightarrow> string" where
  "child_session_id parent_id i = parent_id @ ''/agent-'' @ i"

definition spawn_child ::
    "(dict \<Rightarrow> nat) \<Rightarrow> orchestrator \<Rightarrow> string \<Rightarrow> message list option \<Rightarrow> orchestrator" where
  "spawn_child len_input parent i initial =
     new_orchestrator len_input (child_session_id (or_session_id parent) i) initial (or_config parent)
       (or_depth parent + 1) (or_cwd parent) (Some i)"

datatype agent_event =
  Sub_Agent_Start string string string string
| Child_Event query_event
| Sub_Agent_End string stop_reason "message list option"

text \<open>
  The closure \<open>spawn_subagent\<close>: the child's query over its provider's responses between the two
  brackets, and, once the child has ended, its notices for the parent. \<open>False\<close> says that the child
  still waits for its provider.
\<close>

definition spawn_subagent ::
    "query_world \<Rightarrow> orchestrator \<Rightarrow> string \<Rightarrow> string \<Rightarrow> message list option \<Rightarrow> response list \<Rightarrow> bool
       \<Rightarrow> task_registry \<Rightarrow> bool \<times> agent_event list \<times> string list \<times> task_registry" where
  "spawn_subagent w parent prompt i initial rs can_queue reg =
     (let child = spawn_child (len_input_of (q_compact w)) parent i initial;
          (done, st) = run_query w [Some prompt] SUBAGENT_DEFAULT_MAX_TURNS None rs (or_query child);
          events = Sub_Agent_Start i (take 80 prompt) ''general-purpose'' [] # map Child_Event (qs_events st);
          ms = h_messages (qs_history st)
      in if \<not> done then (False, events, [], reg)
         else (let (reminders, reg') = drain_orphan_notifications i can_queue reg
               in (True, events @ [Sub_Agent_End i (qs_stop st) (if ms = [] then None else Some ms)],
                   reminders, reg')))"

section \<open>Calls a child makes\<close>

lemma tool_permission_Default [simp]: "tool_permission_mode Default = Default"
  by (simp add: tool_permission_mode_def)

lemma executor_fields [simp]:
  "w_authz (executor_world w o1 cb) = w_authz w" "w_hooks (executor_world w o1 cb) = w_hooks w"
  "w_validate (executor_world w o1 cb) = w_validate w" "w_on_permission (executor_world w o1 cb) = cb"
  by (simp_all add: executor_world_def)

lemma child_mode [simp]: "or_mode (spawn_child li p i ms) = Default"
  by (simp add: spawn_child_def new_orchestrator_def)

end
