(* ===== verification/Subagent_Properties.thy ===== *)
theory Subagent_Properties
  imports Subagents Pipeline_Properties Query_Properties
begin

text \<open>
  The properties of child agents and their witnesses: a child's run ends between its brackets, and what
  a parent's permission mode and client mean for the calls of a child.
\<close>

section \<open>Concrete agents for the witnesses\<close>

definition sample_config :: orchestrator_config where
  "sample_config = \<lparr>oc_model = ''m'', oc_temperature = None, oc_streaming_tools = False, oc_language = None\<rparr>"

definition sample_parent :: "permission_mode \<Rightarrow> orchestrator" where
  "sample_parent m = (new_orchestrator (\<lambda>_. 0) ''s'' None sample_config 0 ''/w'' None)\<lparr>or_mode := m\<rparr>"

definition sample_editor :: tool where
  "sample_editor = base_tool ''T'' Edit"

lemma sample_editor_asks:
  assumes "ctx_mode ctx = Default" "\<not> should_avoid_prompts ctx"
  shows "fst (authorize sample_env sample_editor [] ctx (sample_state [])) =
     Permission_Ask ''T (no tool-specific risk rule defined)''
       (Reason_Default_Risk Low ''no tool-specific risk rule defined'' ''T'') (ask_buttons False)"
proof (rule authorize_Inr)
  have grant: "no_grant sample_env sample_editor [] ctx (sample_state [])"
    by (simp add: no_grant_def sample_defs cache_check_def cache_look_def)
  have mode: "\<not> mode_overrides sample_editor ctx" using assms(1) by (simp add: mode_overrides_def)
  have ans: "answers sample_editor [] ctx (\<lambda>_. False)
     \<lparr>sg_risk = Low, sg_decision = Ask, sg_reason = ''no tool-specific risk rule defined''\<rparr> False"
    unfolding sample_editor_def by (rule sample_answers)
  show "fst (authorize_impl sample_env sample_editor [] ctx (sample_state [])) = Inr
     (Permission_Ask ''T (no tool-specific risk rule defined)''
       (Reason_Default_Risk Low ''no tool-specific risk rule defined'' ''T'') (ask_buttons False))"
    by (simp add: authorize_impl_effective [OF grant mode ans] apply_outcome_def handle_ask_def
        effective_rule_def first_hit_def build_ask_def build_ask_message_def default_reason_def
        truthy_def Let_def)
       (simp add: assms sample_editor_def base_tool_def SHELL_TOOL_NAMES_def)
qed

section \<open>The properties\<close>

text \<open>
  A child agent's run ends: after at most 202 responses of its provider the parent gets the child's
  events between one start and one end bracket of its id, and the child's waiting notices.
\<close>

lemma child_run_ends:
  assumes "SUBAGENT_DEFAULT_MAX_TURNS + MAX_REACTIVE_RETRIES \<le> length rs"
  shows "\<exists>evs stop ms rem reg'. spawn_subagent w parent prompt i initial rs can_queue reg =
     (True, Sub_Agent_Start i (take 80 prompt) ''general-purpose'' [] # map Child_Event evs @ [Sub_Agent_End i stop ms],
      rem, reg')
     \<and> pending_for (Some i) reg' = []"
proof -
  let ?q = "or_query (spawn_child (len_input_of (q_compact w)) parent i initial)"
  obtain b st where run: "run_query w [Some prompt] SUBAGENT_DEFAULT_MAX_TURNS None rs ?q = (b, st)"
    by (rule prod.exhaust)
  have fin: b
    using run_query_ends [of SUBAGENT_DEFAULT_MAX_TURNS rs w "[Some prompt]" None ?q] assms run
    by (simp add: SUBAGENT_DEFAULT_MAX_TURNS_def)
  obtain rem reg' where d: "drain_orphan_notifications i can_queue reg = (rem, reg')"
    by (rule prod.exhaust)
  have "reg' = snd (drain_notifications (Some i) reg)"
    using d by (auto simp: drain_orphan_notifications_def case_prod_unfold Let_def)
  then have "pending_for (Some i) reg' = []" by (simp add: notice_box.content_grab)
  with run fin d show ?thesis by (auto simp: spawn_subagent_def Let_def)
qed

lemma child_run_ends_witness:
  "fst (spawn_subagent (sample_query_world None) (sample_parent Default) ''p'' ''a'' None
     (replicate 202 (sample_response [])) True new_registry)"
  using child_run_ends [of "replicate 202 (sample_response [])" "sample_query_world None" "sample_parent Default"
      "''p''" "''a''" None True new_registry]
  by (auto simp: SUBAGENT_DEFAULT_MAX_TURNS_def MAX_REACTIVE_RETRIES_def)

text \<open>
  C25: A child asks nobody. Whatever client the parent has - here one that rejects everything - a call
  the authorizer asks about runs when a child makes it, exactly as the model sent it; the parent's own
  call of the same tool is put to the client and does not run.
\<close>

theorem child_asks_nobody:
  assumes "xs_authorizer st = Some a" "w_validate w t (tu_input tc) tctx = None" "w_hooks w = None"
    and "t_user_facing_name t (tu_input tc) = Inr title"
    and "or_mode p = Default" "\<And>rq. cb rq = Inr \<lparr>pr_decision = Answer_Reject, pr_updated_input = None\<rparr>"
    and "child = spawn_child li p i ms"
    and "fst (authorize (w_authz w) t (tu_input tc) (build_authorize_context (executor_world w p cb) Default) a)
      = Permission_Ask msg rsn btns"
    and "fst (authorize (w_authz w) t (tu_input tc)
        (build_authorize_context (executor_world w child (child_callback None)) Default) a)
      = Permission_Ask msg' rsn' btns'"
  shows "xs_calls (snd (snd (run_tool_call w p cb tc t tctx st))) = xs_calls st
    \<and> xs_calls (snd (snd (run_tool_call w child (child_callback None) tc t tctx st))) =
        xs_calls st @ [(tu_id tc, t_name t, tu_input tc)]"
proof
  let ?ctx = "build_authorize_context (executor_world w p cb) Default"
  obtain a1 where a1: "authorize (w_authz w) t (tu_input tc) ?ctx a = (Permission_Ask msg rsn btns, a1)"
    using assms(8) by (cases "authorize (w_authz w) t (tu_input tc) ?ctx a") simp
  then show "xs_calls (snd (snd (run_tool_call w p cb tc t tctx st))) = xs_calls st"
    using assms(1-6)
    by (simp add: run_tool_call_def run_in_mode_def run_one_def run_authorize_def ask_user_def)
  show "xs_calls (snd (snd (run_tool_call w child (child_callback None) tc t tctx st))) =
        xs_calls st @ [(tu_id tc, t_name t, tu_input tc)]"
    unfolding run_tool_call_def run_in_mode_def assms(7) child_mode tool_permission_Default Let_def
    by (rule run_one_asked [of st a _ t tc tctx _ msg' rsn' btns' title])
       (use assms in \<open>simp_all add: child_callback_def auto_allow_def\<close>)
qed

definition rejects :: "perm_request \<Rightarrow> perm_response result" where
  "rejects rq = Inr \<lparr>pr_decision = Answer_Reject, pr_updated_input = None\<rparr>"

definition sample_child :: "permission_mode \<Rightarrow> orchestrator" where
  "sample_child m = spawn_child (\<lambda>_. 0) (sample_parent m) ''a'' None"

lemma sample_agents [simp]:
  "ctx_mode (build_authorize_context w m) = m"
  "\<not> should_avoid_prompts (build_authorize_context (executor_world (sample_tool_world c r) o1 cb) m)"
  "or_mode (sample_parent m) = m" "or_session_id (sample_parent m) = ''s''"
  "t_name sample_editor = ''T''" "t_kind sample_editor = Edit" "t_user_facing_name sample_editor inp = Inr ''T''"
  by (simp_all add: build_authorize_context_def executor_world_def sample_tool_world_def
      session_should_avoid_prompts_def sample_parent_def new_orchestrator_def sample_editor_def base_tool_def)

theorem child_asks_nobody_witness:
  "xs_calls (snd (snd (run_tool_call (sample_tool_world (\<lambda>_. []) (\<lambda>_. Inr None)) (sample_child Default)
     (child_callback None) sample_use sample_editor () (sample_exec (Some (sample_state [])))))) = [(''u'', ''T'', [])]"
  using child_asks_nobody [of "sample_exec (Some (sample_state []))" "sample_state []"
      "sample_tool_world (\<lambda>_. []) (\<lambda>_. Inr None)" sample_editor sample_use "()" "''T''" "sample_parent Default"
      rejects "sample_child Default" "\<lambda>_. 0" "''a''" None]
    sample_editor_asks
  by (simp add: rejects_def sample_child_def)

text \<open>
  Plan mode does not reach a child. The parent's own mutating call is denied, since plan mode forbids
  side effects; the same call made by a child it spawns runs, as the child starts in default mode and
  what the authorizer then asks is allowed by no one but the child itself.
\<close>

lemma plan_mode_not_inherited:
  assumes "xs_authorizer st = Some a" "w_validate w t (tu_input tc) tctx = None" "w_hooks w = None"
    and "t_user_facing_name t (tu_input tc) = Inr title"
    and "or_mode p = Plan" "is_mutating (t_kind t)"
    and "no_grant (w_authz w) t (tu_input tc) (build_authorize_context (executor_world w p cb) Plan) a"
    and "\<not> fst (is_plan_file_write (w_authz w) t (tu_input tc)
        (build_authorize_context (executor_world w p cb) Plan) (slugs a))"
    and "child = spawn_child li p i ms"
    and "fst (authorize (w_authz w) t (tu_input tc)
        (build_authorize_context (executor_world w child (child_callback None)) Default) a)
      = Permission_Ask msg rsn btns"
  shows "xs_calls (snd (snd (run_tool_call w p cb tc t tctx st))) = xs_calls st
    \<and> xs_calls (snd (snd (run_tool_call w child (child_callback None) tc t tctx st))) =
        xs_calls st @ [(tu_id tc, t_name t, tu_input tc)]"
proof
  let ?ctx = "build_authorize_context (executor_world w p cb) Plan"
  have "fst (authorize (w_authz w) t (tu_input tc) ?ctx a) =
      Permission_Deny ''plan mode forbids side effects'' (Reason_Mode Plan)"
    using assms(6-8) by (subst authorize_plan) simp_all
  then obtain a1 where "authorize (w_authz w) t (tu_input tc) ?ctx a =
      (Permission_Deny ''plan mode forbids side effects'' (Reason_Mode Plan), a1)"
    by (cases "authorize (w_authz w) t (tu_input tc) ?ctx a") simp
  then show "xs_calls (snd (snd (run_tool_call w p cb tc t tctx st))) = xs_calls st"
    using assms(1,2,5)
    by (simp add: run_tool_call_def run_in_mode_def run_one_def run_authorize_def tool_permission_mode_def)
  show "xs_calls (snd (snd (run_tool_call w child (child_callback None) tc t tctx st))) =
        xs_calls st @ [(tu_id tc, t_name t, tu_input tc)]"
    unfolding run_tool_call_def run_in_mode_def assms(9) child_mode tool_permission_Default Let_def
    by (rule run_one_asked [of st a _ t tc tctx _ msg rsn btns title])
       (use assms in \<open>simp_all add: child_callback_def auto_allow_def\<close>)
qed

lemma plan_mode_not_inherited_witness:
  "xs_calls (snd (snd (run_tool_call (sample_tool_world (\<lambda>_. []) (\<lambda>_. Inr None)) (sample_child Plan)
     (child_callback None) sample_use sample_editor () (sample_exec (Some (sample_state [])))))) = [(''u'', ''T'', [])]"
proof -
  let ?w = "sample_tool_world (\<lambda>_. []) (\<lambda>_. Inr None)"
  have "no_grant sample_env sample_editor [] (build_authorize_context (executor_world ?w (sample_parent Plan) rejects) Plan) (sample_state [])"
    by (simp add: no_grant_def sample_defs cache_check_def cache_look_def)
  moreover have "\<not> fst (is_plan_file_write sample_env sample_editor []
      (build_authorize_context (executor_world ?w (sample_parent Plan) rejects) Plan) (slugs (sample_state [])))"
    by (simp add: is_plan_file_write_def)
  ultimately show ?thesis
    using plan_mode_not_inherited [of "sample_exec (Some (sample_state []))" "sample_state []" ?w sample_editor
        sample_use "()" "''T''" "sample_parent Plan" rejects "sample_child Plan" "\<lambda>_. 0" "''a''" None]
      sample_editor_asks
    by (simp add: sample_child_def is_mutating_def)
qed

end
