(* ===== verification/Files.thy ===== *)
theory Files
  imports Plans Grants
begin

text \<open>
  What the file tools use of Python's standard library: \<open>pathlib\<close> paths, text files (UTF-8 with
  universal newlines) over a file system with directories and symbolic links, \<open>str.count\<close>,
  \<open>str.replace\<close>, \<open>str.splitlines\<close>, slices, and \<open>int\<close> of a string.
\<close>

section \<open>Paths\<close>

text \<open>
  A \<open>PurePosixPath\<close>: its root (the number of leading slashes it keeps) and its parts. Empty and \<open>.\<close>
  components disappear when a path is parsed; \<open>..\<close> stays.
\<close>

record path =
  p_root :: nat
  p_parts :: "string list"

definition path_of :: "string \<Rightarrow> path" where
  "path_of s = \<lparr>p_root = initial_slashes s,
                p_parts = filter (\<lambda>c. c \<noteq> [] \<and> c \<noteq> ''.'') (split_on (CHR ''/'') s)\<rparr>"

definition path_str :: "path \<Rightarrow> string" where
  "path_str p = (if p_root p = 0 \<and> p_parts p = [] then ''.''
                 else replicate (p_root p) (CHR ''/'') @ join ''/'' (p_parts p))"

definition is_absolute :: "path \<Rightarrow> bool" where
  "is_absolute p \<longleftrightarrow> p_root p \<noteq> 0"

text \<open>\<open>base / p\<close>: an absolute path replaces the base.\<close>

definition path_div :: "path \<Rightarrow> path \<Rightarrow> path" where
  "path_div base p = (if is_absolute p then p
                      else \<lparr>p_root = p_root base, p_parts = p_parts base @ p_parts p\<rparr>)"

definition path_parent :: "path \<Rightarrow> path" where
  "path_parent p = p\<lparr>p_parts := butlast (p_parts p)\<rparr>"

definition path_name :: "path \<Rightarrow> string" where
  "path_name p = (if p_parts p = [] then [] else last (p_parts p))"

text \<open>\<open>suffix\<close>: from the last dot of the name on, unless that dot begins or ends the name.\<close>

definition path_suffix :: "path \<Rightarrow> string" where
  "path_suffix p =
     (let name = path_name p; ext = rev (takeWhile (\<lambda>c. c \<noteq> CHR ''.'') (rev name))
      in if CHR ''.'' \<in> set name \<and> ext \<noteq> [] \<and> length ext + 1 < length name
         then CHR ''.'' # ext else [])"

definition relative_to_ok :: "path \<Rightarrow> path \<Rightarrow> bool" where
  "relative_to_ok p base \<longleftrightarrow> p_root p = p_root base \<and> prefix (p_parts base) (p_parts p)"

section \<open>Files\<close>

text \<open>
  A file whose bytes are the UTF-8 encoding of a text is given by that text, any other by its bytes
  and by what decoding with \<open>errors="replace"\<close> makes of them.
\<close>

datatype file_content = Utf8 string | Not_Utf8 string string

datatype fnode = Regular (node_content: file_content) (node_mtime: int) | Directory

text \<open>
  \<open>fs_real\<close> is \<open>Path.resolve\<close> of an absolute path: it follows the symbolic links and the \<open>..\<close> there are
  and keeps missing tails. Nodes are found under real paths. \<open>fs_denied\<close> is the error the system
  raises on opening a real path to read (\<open>False\<close>) or on creating or opening it to write (\<open>True\<close>).
  Symbolic-link loops and writes that fail after the file was opened are not modelled.
\<close>

record file_system =
  fs_real :: "path \<Rightarrow> path"
  fs_node :: "path \<Rightarrow> fnode option"
  fs_denied :: "bool \<Rightarrow> path \<Rightarrow> exn option"
  fs_now :: int

definition path_exists :: "file_system \<Rightarrow> path \<Rightarrow> bool" where
  "path_exists fs p \<longleftrightarrow> fs_node fs (fs_real fs p) \<noteq> None"

definition is_file :: "file_system \<Rightarrow> path \<Rightarrow> bool" where
  "is_file fs p \<longleftrightarrow> (\<exists>c m. fs_node fs (fs_real fs p) = Some (Regular c m))"

lemma is_file_code [code]:
  "is_file fs p = (case fs_node fs (fs_real fs p) of Some (Regular _ _) \<Rightarrow> True | _ \<Rightarrow> False)"
  by (auto simp: is_file_def split: option.splits fnode.splits)

definition open_read :: "file_system \<Rightarrow> path \<Rightarrow> file_content result" where
  "open_read fs p =
     (case fs_node fs (fs_real fs p) of
        None \<Rightarrow> Inl ''FileNotFoundError''
      | Some Directory \<Rightarrow> Inl ''IsADirectoryError''
      | Some (Regular c _) \<Rightarrow>
          (case fs_denied fs False (fs_real fs p) of Some e \<Rightarrow> Inl e | None \<Rightarrow> Inr c))"

definition stat_mtime :: "file_system \<Rightarrow> path \<Rightarrow> int result" where
  "stat_mtime fs p =
     (case fs_node fs (fs_real fs p) of
        None \<Rightarrow> Inl ''FileNotFoundError'' | Some Directory \<Rightarrow> Inr 0 | Some (Regular _ m) \<Rightarrow> Inr m)"

text \<open>Reading in text mode turns every CR LF and every lone CR into LF.\<close>

fun universal_newlines :: "string \<Rightarrow> string" where
  "universal_newlines [] = []"
| "universal_newlines [c] = (if c = CHR 0x0D then [CHR 0x0A] else [c])"
| "universal_newlines (c # d # s) =
     (if c = CHR 0x0D \<and> d = CHR 0x0A then CHR 0x0A # universal_newlines s
      else if c = CHR 0x0D then CHR 0x0A # universal_newlines (d # s)
      else c # universal_newlines (d # s))"

definition decode_strict :: "file_content \<Rightarrow> string result" where
  "decode_strict c = (case c of Utf8 s \<Rightarrow> Inr (universal_newlines s)
                      | Not_Utf8 _ _ \<Rightarrow> Inl ''UnicodeDecodeError'')"

definition decode_replace :: "file_content \<Rightarrow> string" where
  "decode_replace c = (case c of Utf8 s \<Rightarrow> universal_newlines s | Not_Utf8 _ s \<Rightarrow> universal_newlines s)"

definition content_bytes :: "file_content \<Rightarrow> string" where
  "content_bytes c = (case c of Utf8 s \<Rightarrow> utf8 s | Not_Utf8 bs _ \<Rightarrow> bs)"

definition read_text :: "file_system \<Rightarrow> path \<Rightarrow> string result" where
  "read_text fs p = bindR (open_read fs p) decode_strict"

definition read_text_replace :: "file_system \<Rightarrow> path \<Rightarrow> string result" where
  "read_text_replace fs p = mapR decode_replace (open_read fs p)"

definition read_bytes :: "file_system \<Rightarrow> path \<Rightarrow> string result" where
  "read_bytes fs p = mapR content_bytes (open_read fs p)"

text \<open>\<open>write_text\<close> opens the file, which truncates it, and writes; the newlines stay as they are.\<close>

definition write_text :: "file_system \<Rightarrow> path \<Rightarrow> string \<Rightarrow> unit result \<times> file_system" where
  "write_text fs p s =
     (let rp = fs_real fs p in
      case fs_node fs rp of
        Some Directory \<Rightarrow> (Inl ''IsADirectoryError'', fs)
      | node \<Rightarrow>
          (if fs_node fs (path_parent rp) \<noteq> Some Directory then (Inl ''FileNotFoundError'', fs)
           else case fs_denied fs True rp of
             Some e \<Rightarrow> (Inl e, fs)
           | None \<Rightarrow> (Inr (), fs\<lparr>fs_node := (fs_node fs)(rp \<mapsto> Regular (Utf8 s) (fs_now fs))\<rparr>)))"

text \<open>
  \<open>mkdir(parents=True, exist_ok=True)\<close> on a real path, its parts given in reverse. The ancestors
  created before an error stay.
\<close>

fun make_dirs :: "nat \<Rightarrow> string list \<Rightarrow> file_system \<Rightarrow> unit result \<times> file_system" where
  "make_dirs r [] fs =
     (case fs_node fs \<lparr>p_root = r, p_parts = []\<rparr> of
        Some Directory \<Rightarrow> (Inr (), fs) | _ \<Rightarrow> (Inl ''FileNotFoundError'', fs))"
| "make_dirs r (x # xs) fs =
     (let here = \<lparr>p_root = r, p_parts = rev (x # xs)\<rparr>; up = \<lparr>p_root = r, p_parts = rev xs\<rparr> in
      case fs_node fs here of
        Some Directory \<Rightarrow> (Inr (), fs)
      | Some (Regular _ _) \<Rightarrow> (Inl ''FileExistsError'', fs)
      | None \<Rightarrow>
          (case fs_node fs up of
             Some (Regular _ _) \<Rightarrow> (Inl ''NotADirectoryError'', fs)
           | _ \<Rightarrow>
               (let (res, fs') = make_dirs r xs fs in
                case res of
                  Inl e \<Rightarrow> (Inl e, fs')
                | Inr _ \<Rightarrow>
                    (case fs_denied fs' True here of
                       Some e \<Rightarrow> (Inl e, fs')
                     | None \<Rightarrow> (Inr (), fs'\<lparr>fs_node := (fs_node fs')(here \<mapsto> Directory)\<rparr>)))))"

definition mkdir :: "file_system \<Rightarrow> path \<Rightarrow> unit result \<times> file_system" where
  "mkdir fs p = (let rp = fs_real fs p in make_dirs (p_root rp) (rev (p_parts rp)) fs)"

section \<open>Occurrences and replacement\<close>

fun contains :: "string \<Rightarrow> string \<Rightarrow> bool" where
  "contains old [] = (old = [])"
| "contains old (c # cs) = (prefix old (c # cs) \<or> contains old cs)"

text \<open>\<open>s.split(old)\<close> for a non-empty separator, at most \<open>k\<close> times from the left.\<close>

function split_str :: "string \<Rightarrow> nat \<Rightarrow> string \<Rightarrow> string list" where
  "split_str old k s =
     (if k = 0 \<or> s = [] \<or> old = [] then [s]
      else if prefix old s then [] # split_str old (k - 1) (drop (length old) s)
      else (case split_str old k (tl s) of [] \<Rightarrow> [[hd s]] | p # ps \<Rightarrow> (hd s # p) # ps))"
  by pat_completeness auto
termination
  by (relation "measure (\<lambda>(old, k, s). length s)") auto

declare split_str.simps [simp del]

text \<open>\<open>s.count(old)\<close>: the occurrences from the left that do not overlap.\<close>

definition py_count :: "string \<Rightarrow> string \<Rightarrow> nat" where
  "py_count old s = (if old = [] then length s + 1 else length (split_str old (length s) s) - 1)"

text \<open>\<open>s.replace(old, new, k)\<close>; the empty string occurs before every character and at the end.\<close>

fun weave :: "string \<Rightarrow> nat \<Rightarrow> string \<Rightarrow> string" where
  "weave new 0 s = s"
| "weave new (Suc k) [] = new"
| "weave new (Suc k) (c # cs) = new @ c # weave new k cs"

function replace_from :: "string \<Rightarrow> string \<Rightarrow> nat \<Rightarrow> string \<Rightarrow> string" where
  "replace_from old new k s =
     (if k = 0 \<or> s = [] \<or> old = [] then s
      else if prefix old s then new @ replace_from old new (k - 1) (drop (length old) s)
      else hd s # replace_from old new k (tl s))"
  by pat_completeness auto
termination
  by (relation "measure (\<lambda>(old, new, k, s). length s)") auto

declare replace_from.simps [simp del]

definition replace_n :: "string \<Rightarrow> string \<Rightarrow> nat \<Rightarrow> string \<Rightarrow> string" where
  "replace_n old new k s = (if old = [] then weave new k s else replace_from old new k s)"

definition replace_every :: "string \<Rightarrow> string \<Rightarrow> string \<Rightarrow> string" where
  "replace_every old new s = replace_n old new (length s + 1) s"

section \<open>Lines and slices\<close>

definition line_break :: "char \<Rightarrow> bool" where
  "line_break c \<longleftrightarrow> (of_char c :: nat) \<in> {10, 11, 12, 13, 28, 29, 30, 133}"

text \<open>\<open>s.splitlines(keepends=True)\<close>; CR LF ends one line.\<close>

fun splitlines :: "string \<Rightarrow> string list" where
  "splitlines [] = []"
| "splitlines (c # cs) =
     (if line_break c \<and> \<not> (c = CHR 0x0D \<and> prefix [CHR 0x0A] cs) then [c] # splitlines cs
      else (case splitlines cs of [] \<Rightarrow> [[c]] | l # ls \<Rightarrow> (c # l) # ls))"

text \<open>\<open>xs[a:b]\<close>: a negative bound counts from the end, and both are clipped.\<close>

definition clip_index :: "nat \<Rightarrow> int \<Rightarrow> nat" where
  "clip_index n i = (if i < 0 then nat (i + int n) else min n (nat i))"

definition py_slice :: "'a list \<Rightarrow> int \<Rightarrow> int \<Rightarrow> 'a list" where
  "py_slice xs a b =
     (let i = clip_index (length xs) a; j = clip_index (length xs) b in take (j - i) (drop i xs))"

section \<open>int of a string\<close>

text \<open>Digits, with single underscores between them.\<close>

fun int_digits :: "bool \<Rightarrow> nat \<Rightarrow> string \<Rightarrow> nat option" where
  "int_digits after acc [] = (if after then Some acc else None)"
| "int_digits after acc (c # cs) =
     (let n = (of_char c :: nat) in
      if 48 \<le> n \<and> n \<le> 57 then int_digits True (10 * acc + (n - 48)) cs
      else if c = CHR ''_'' \<and> after then int_digits False acc cs
      else None)"

definition py_int :: "string \<Rightarrow> int option" where
  "py_int s =
     (case strip s of
        [] \<Rightarrow> None
      | c # cs \<Rightarrow>
          if c = CHR ''-'' then map_option (\<lambda>n. - int n) (int_digits False 0 cs)
          else if c = CHR ''+'' then map_option int (int_digits False 0 cs)
          else map_option int (int_digits False 0 (c # cs)))"

section \<open>Facts\<close>

lemma split_str_not_Nil [simp]: "split_str old k s \<noteq> []"
  by (subst split_str.simps) (simp split: list.splits)

lemma join_Cons: "ps \<noteq> [] \<Longrightarrow> join sep (p # ps) = p @ sep @ join sep ps"
  by (cases ps) auto

lemma join_Cons_hd: "join sep ((c # p) # ps) = c # join sep (p # ps)"
  by (cases ps) auto

text \<open>Replacing is splitting at the occurrences and joining with the new text.\<close>

lemma replace_from_join: "replace_from old new k s = join new (split_str old k s)"
proof (induction old k s rule: split_str.induct)
  case (1 old k s)
  show ?case
  proof (cases "k = 0 \<or> s = [] \<or> old = []")
    case True
    then show ?thesis by (subst split_str.simps, subst replace_from.simps) simp
  next
    case stop: False
    show ?thesis
    proof (cases "prefix old s")
      case True
      then show ?thesis
        using stop 1(1) by (subst split_str.simps, subst replace_from.simps) (simp add: join_Cons)
    next
      case False
      then show ?thesis
        using stop 1(2) by (subst split_str.simps, subst replace_from.simps)
          (auto simp: join_Cons_hd split: list.splits)
    qed
  qed
qed

lemma replace_from_same: "replace_from old old k s = s"
proof (induction old k s rule: split_str.induct)
  case (1 old k s)
  show ?case
  proof (cases "k = 0 \<or> s = [] \<or> old = []")
    case False
    then show ?thesis
      using 1 by (subst replace_from.simps) (auto simp: prefix_def)
  qed (subst replace_from.simps, simp)
qed

lemma join_split_str: "join old (split_str old k s) = s"
  using replace_from_same by (simp add: replace_from_join)

lemma prefix_contains: "prefix old s \<Longrightarrow> contains old s"
  by (cases s) auto

lemma split_str_absent:
  "old \<noteq> [] \<Longrightarrow> \<not> contains old s \<Longrightarrow> split_str old k s = [s]"
proof (induction s)
  case Nil
  then show ?case by (subst split_str.simps) simp
next
  case (Cons c s)
  then show ?case by (subst split_str.simps) (auto simp: prefix_contains)
qed

text \<open>A text that contains \<open>old\<close> is split at its leftmost occurrence.\<close>

lemma not_contains_shorter: "length t < length old \<Longrightarrow> \<not> contains old t"
  by (induction t) (auto dest: prefix_length_le)

lemma split_str_present:
  assumes "old \<noteq> []" "contains old s"
  shows "\<exists>pre post. s = pre @ old @ post \<and> \<not> contains old (butlast (pre @ old))
    \<and> (\<forall>k. k \<noteq> 0 \<longrightarrow> split_str old k s = pre # split_str old (k - 1) post)"
  using assms(2)
proof (induction s)
  case Nil
  then show ?case using assms(1) by simp
next
  case (Cons c s)
  show ?case
  proof (cases "prefix old (c # s)")
    case True
    then have "c # s = [] @ old @ drop (length old) (c # s)"
      by (auto simp: prefix_def)
    moreover have "\<not> contains old (butlast ([] @ old))"
      using assms(1) by (simp add: not_contains_shorter)
    moreover have "split_str old k (c # s) = [] # split_str old (k - 1) (drop (length old) (c # s))"
      if "k \<noteq> 0" for k
      using True assms that by (subst split_str.simps) simp
    ultimately show ?thesis by blast
  next
    case False
    then obtain pre post where ih: "s = pre @ old @ post" "\<not> contains old (butlast (pre @ old))"
        "\<forall>k. k \<noteq> 0 \<longrightarrow> split_str old k s = pre # split_str old (k - 1) post"
      using Cons by auto
    have "\<not> prefix old (c # butlast (pre @ old))"
    proof
      assume "prefix old (c # butlast (pre @ old))"
      then have "prefix old (butlast (c # pre @ old))" using assms(1) by simp
      then have "prefix old (c # pre @ old)" by (metis prefixeq_butlast prefix_order.trans)
      then have "prefix old (c # s)" using ih(1) by (metis append_Cons append.assoc prefix_prefix)
      with False show False by simp
    qed
    with ih(2) have "\<not> contains old (butlast ((c # pre) @ old))" using assms(1) by simp
    moreover have "split_str old k (c # s) = (c # pre) # split_str old (k - 1) post" if "k \<noteq> 0" for k
      using False assms ih(3) that by (subst split_str.simps) simp
    ultimately show ?thesis using ih(1) by (metis append_Cons)
  qed
qed

text \<open>A text with a single occurrence from the left is rewritten exactly there.\<close>

lemma split_str_0 [simp]: "split_str old 0 s = [s]"
  by (subst split_str.simps) simp

lemma py_count_one:
  assumes "old \<noteq> []" "contains old s" "py_count old s \<le> 1"
  shows "\<exists>pre post. s = pre @ old @ post \<and> \<not> contains old (butlast (pre @ old))
    \<and> \<not> contains old post \<and> (\<forall>new. replace_n old new 1 s = pre @ new @ post)"
proof -
  obtain pre post where s: "s = pre @ old @ post" "\<not> contains old (butlast (pre @ old))"
      and split: "\<And>k. k \<noteq> 0 \<Longrightarrow> split_str old k s = pre # split_str old (k - 1) post"
    using split_str_present [OF assms(1,2)] by blast
  have "\<not> contains old post"
  proof
    assume c: "contains old post"
    obtain k where k: "length s = Suc (Suc k)"
      using assms(1) c s(1) by (cases old; cases post) auto
    obtain pre' post' where "split_str old (Suc k) post = pre' # split_str old k post'"
      using split_str_present [OF assms(1) c] by force
    then have "2 < length (split_str old (length s) s)"
      using split [of "length s"] k by (cases "split_str old k post'") auto
    with assms(1,3) show False by (simp add: py_count_def)
  qed
  moreover have "replace_n old new 1 s = pre @ new @ post" for new
    using assms(1) split [of 1] by (simp add: replace_n_def replace_from_join)
  ultimately show ?thesis using s by blast
qed

text \<open>Replacing every occurrence leaves none in the pieces between.\<close>

lemma split_str_all:
  assumes "old \<noteq> []" "length s < k"
  shows "\<forall>piece \<in> set (split_str old k s). \<not> contains old piece"
  using assms(2)
proof (induction "length s" arbitrary: s k rule: less_induct)
  case less
  show ?case
  proof (cases "contains old s")
    case False
    then show ?thesis using assms(1) by (simp add: split_str_absent)
  next
    case True
    obtain pre post where s: "s = pre @ old @ post" "\<not> contains old (butlast (pre @ old))"
        and split: "split_str old k s = pre # split_str old (k - 1) post"
      using split_str_present [OF assms(1) True] less.prems by auto
    have shorter: "length post < length s" using s(1) assms(1) by simp
    have "\<not> contains old pre"
    proof
      assume "contains old pre"
      then obtain a b where "pre = a @ old @ b"
        using split_str_present [OF assms(1)] by blast
      then have "contains old (a @ old @ b @ butlast old)"
        by (induction a arbitrary: pre) (auto simp: prefix_contains)
      with s(2) \<open>pre = a @ old @ b\<close> assms(1) show False by (simp add: butlast_append)
    qed
    then show ?thesis
      using split less.hyps [OF shorter, of "k - 1"] less.prems shorter by auto
  qed
qed

lemma concat_splitlines: "concat (splitlines s) = s"
  by (induction s) (auto split: list.splits)

lemma universal_newlines_no_CR: "CHR 0x0D \<notin> set (universal_newlines s)"
  by (induction s rule: universal_newlines.induct) auto

lemma universal_newlines_id: "CHR 0x0D \<notin> set s \<Longrightarrow> universal_newlines s = s"
  by (induction s rule: universal_newlines.induct) auto

end
