(* ===== verification/File_Tools.thy ===== *)
theory File_Tools
  imports Files Pipeline
begin

text \<open>
  The file tools: the cache of what the model has read (\<open>tools/file_state.py\<close>) and the tools
  \<open>FileRead\<close>, \<open>FileEdit\<close>, \<open>FileWrite\<close> (\<open>tools/builtin/file_read.py\<close>, \<open>file_edit.py\<close>, \<open>file_write.py\<close>).
  A tool call maps the file system and the cache to its result frame or the exception it raises, and
  to their new values. SHA-256, PyMuPDF and \<open>str\<close> of a JSON value that is no string are parameters.
\<close>

section \<open>The file-state cache\<close>

record file_state =
  fst_path :: path
  fst_mtime_ns :: int
  fst_sha256_hex :: string

type_synonym file_cache = "path \<rightharpoonup> file_state"

definition hash_text :: "(string \<Rightarrow> string) \<Rightarrow> string \<Rightarrow> string" where
  "hash_text sha s = sha (utf8 s)"

definition cache_record ::
    "(string \<Rightarrow> string) \<Rightarrow> file_system \<Rightarrow> path \<Rightarrow> string \<Rightarrow> file_cache \<Rightarrow> file_state result \<times> file_cache" where
  "cache_record sha fs p content c =
     (let rp = fs_real fs p in
      case stat_mtime fs p of
        Inl e \<Rightarrow> (Inl e, c)
      | Inr m \<Rightarrow>
          (let st = \<lparr>fst_path = rp, fst_mtime_ns = m, fst_sha256_hex = hash_text sha content\<rparr>
           in (Inr st, c(rp \<mapsto> st))))"

definition cache_verify :: "file_system \<Rightarrow> path \<Rightarrow> file_cache \<Rightarrow> file_state option" where
  "cache_verify fs p c = c (fs_real fs p)"

definition cache_invalidate :: "file_system \<Rightarrow> path \<Rightarrow> file_cache \<Rightarrow> file_cache" where
  "cache_invalidate fs p c = c(fs_real fs p := None)"

definition file_cache_clear :: "file_cache \<Rightarrow> file_cache" where
  "file_cache_clear c = Map.empty"

section \<open>Results\<close>

datatype display =
  Diff_Display string "string option" string
| File_Display string string bool

record call_result =
  cr_data :: dict
  cr_blocks :: "content_block list"
  cr_display :: display

record file_world =
  fw_fs :: file_system
  fw_cache :: file_cache

type_synonym file_call = "call_result result \<times> file_world"

text \<open>The guard both writing tools share: a recorded hash that is not that of the current text.\<close>

definition changed_since_read :: "(string \<Rightarrow> string) \<Rightarrow> file_world \<Rightarrow> path \<Rightarrow> string \<Rightarrow> bool" where
  "changed_since_read sha w p current =
     (case cache_verify (fw_fs w) p (fw_cache w) of
        None \<Rightarrow> False
      | Some st \<Rightarrow> fst_sha256_hex st \<noteq> hash_text sha current)"

definition str_arg :: "dict \<Rightarrow> string \<Rightarrow> string result" where
  "str_arg inp k =
     (case map_of inp k of
        None \<Rightarrow> Inl ''KeyError'' | Some (JStr s) \<Rightarrow> Inr s | Some _ \<Rightarrow> Inl ''TypeError'')"

text \<open>The path every tool works on, from its input and the context's directory.\<close>

definition call_path :: "path \<Rightarrow> dict \<Rightarrow> path result" where
  "call_path cwd inp = mapR (\<lambda>s. path_div cwd (path_of s)) (str_arg inp ''path'')"

section \<open>FileEdit\<close>

definition edit_validate :: "dict \<Rightarrow> exn option" where
  "edit_validate inp =
     (case map_of inp ''path'' of
        Some (JStr p) \<Rightarrow>
          if p = [] then Some ''path must be a non-empty string''
          else (case map_of inp ''old_string'' of
                  Some (JStr old) \<Rightarrow>
                    (case map_of inp ''new_string'' of
                       Some (JStr new) \<Rightarrow>
                         if old = new then Some ''old_string and new_string are identical'' else None
                     | _ \<Rightarrow> Some ''new_string must be a string'')
                | _ \<Rightarrow> Some ''old_string must be a string'')
      | _ \<Rightarrow> Some ''path must be a non-empty string'')"

definition edit_error :: "path \<Rightarrow> string \<Rightarrow> call_result" where
  "edit_error p err =
     \<lparr>cr_data = [(''path'', JStr (path_str p)), (''error'', JStr err)],
      cr_blocks = [Text_Block err],
      cr_display = Diff_Display (path_str p) None err\<rparr>"

definition edited_text :: "string \<Rightarrow> string \<Rightarrow> bool \<Rightarrow> string \<Rightarrow> string" where
  "edited_text old new every current =
     (if every then replace_every old new current else replace_n old new 1 current)"

definition stale_edit_message :: "path \<Rightarrow> string" where
  "stale_edit_message p =
     ''file '' @ path_str p @ '' changed on disk since last read '' @ [CHR 0x97] @ '' re-read before editing''"

definition ambiguous_message :: string where
  "ambiguous_message =
     ''old_string appears multiple times; pass replace_all=true or narrow the match''"

text \<open>The call on a resolved path with its strings at hand, then the call on an input.\<close>

definition edit_file ::
    "(string \<Rightarrow> string) \<Rightarrow> path \<Rightarrow> string \<Rightarrow> string \<Rightarrow> bool \<Rightarrow> file_world \<Rightarrow> file_call" where
  "edit_file sha p old new every w =
     (let fs = fw_fs w in
      if \<not> path_exists fs p then (Inr (edit_error p (''file not found: '' @ path_str p)), w)
      else case read_text fs p of
        Inl e \<Rightarrow> (Inl e, w)
      | Inr current \<Rightarrow>
          if changed_since_read sha w p current then (Inr (edit_error p (stale_edit_message p)), w)
          else if \<not> contains old current then (Inr (edit_error p ''old_string not found in file''), w)
          else if \<not> every \<and> 1 < py_count old current then (Inr (edit_error p ambiguous_message), w)
          else
            (let updated = edited_text old new every current;
                 (res, fs') = write_text fs p updated
             in case res of
                  Inl e \<Rightarrow> (Inl e, w\<lparr>fw_fs := fs'\<rparr>)
                | Inr _ \<Rightarrow>
                    (Inr \<lparr>cr_data = [(''path'', JStr (path_str p)), (''replaced'', JBool True)],
                          cr_blocks = [Text_Block (''edited '' @ path_str p)],
                          cr_display = Diff_Display (path_str p) (Some current) updated\<rparr>,
                     w\<lparr>fw_fs := fs', fw_cache := cache_invalidate fs' p (fw_cache w)\<rparr>)))"

definition bool_arg :: "dict \<Rightarrow> string \<Rightarrow> bool" where
  "bool_arg inp k = (case map_of inp k of None \<Rightarrow> False | Some j \<Rightarrow> json_truthy j)"

definition edit_call :: "(string \<Rightarrow> string) \<Rightarrow> path \<Rightarrow> dict \<Rightarrow> file_world \<Rightarrow> file_call" where
  "edit_call sha cwd inp w =
     (case bindR (call_path cwd inp) (\<lambda>p. bindR (str_arg inp ''old_string'') (\<lambda>old.
             mapR (\<lambda>new. (p, old, new)) (str_arg inp ''new_string''))) of
        Inl e \<Rightarrow> (Inl e, w)
      | Inr (p, old, new) \<Rightarrow> edit_file sha p old new (bool_arg inp ''replace_all'') w)"

section \<open>FileWrite\<close>

definition write_validate :: "dict \<Rightarrow> exn option" where
  "write_validate inp =
     (case map_of inp ''path'' of
        Some (JStr p) \<Rightarrow>
          if p = [] then Some ''path must be a non-empty string''
          else (case map_of inp ''content'' of
                  Some (JStr _) \<Rightarrow> None | _ \<Rightarrow> Some ''content must be a string'')
      | _ \<Rightarrow> Some ''path must be a non-empty string'')"

definition stale_write_message :: "path \<Rightarrow> string" where
  "stale_write_message p =
     ''file '' @ path_str p @ '' changed on disk since last read '' @ [CHR 0x97] @ '' re-read before overwriting''"

text \<open>From the directory on: create the parents, write, forget the cache entry, report.\<close>

definition put_file :: "path \<Rightarrow> string \<Rightarrow> string option \<Rightarrow> file_world \<Rightarrow> file_call" where
  "put_file p content existing w =
     (let (made, fs1) = mkdir (fw_fs w) (path_parent p) in
      case made of
        Inl e \<Rightarrow> (Inl e, w\<lparr>fw_fs := fs1\<rparr>)
      | Inr _ \<Rightarrow>
          (let (res, fs2) = write_text fs1 p content;
               action = (if existing = None then ''wrote'' else ''overwrote'')
           in case res of
                Inl e \<Rightarrow> (Inl e, w\<lparr>fw_fs := fs2\<rparr>)
              | Inr _ \<Rightarrow>
                  (Inr \<lparr>cr_data = [(''path'', JStr (path_str p)), (''action'', JStr action)],
                        cr_blocks = [Text_Block (action @ '' '' @ path_str p)],
                        cr_display = Diff_Display (path_str p) existing content\<rparr>,
                   w\<lparr>fw_fs := fs2, fw_cache := cache_invalidate fs2 p (fw_cache w)\<rparr>)))"

definition write_file :: "(string \<Rightarrow> string) \<Rightarrow> path \<Rightarrow> string \<Rightarrow> file_world \<Rightarrow> file_call" where
  "write_file sha p content w =
     (if \<not> path_exists (fw_fs w) p then put_file p content None w
      else case read_text (fw_fs w) p of
        Inl e \<Rightarrow> (Inl e, w)
      | Inr existing \<Rightarrow>
          if changed_since_read sha w p existing then
            (Inr \<lparr>cr_data = [(''path'', JStr (path_str p)), (''error'', JStr (stale_write_message p))],
                  cr_blocks = [Text_Block (stale_write_message p)],
                  cr_display = Diff_Display (path_str p) (Some existing) (stale_write_message p)\<rparr>, w)
          else put_file p content (Some existing) w)"

definition write_call :: "(string \<Rightarrow> string) \<Rightarrow> path \<Rightarrow> dict \<Rightarrow> file_world \<Rightarrow> file_call" where
  "write_call sha cwd inp w =
     (case bindR (call_path cwd inp) (\<lambda>p. mapR (Pair p) (str_arg inp ''content'')) of
        Inl e \<Rightarrow> (Inl e, w)
      | Inr (p, content) \<Rightarrow> write_file sha p content w)"

section \<open>Risk of a write\<close>

text \<open>
  \<open>Path(s).resolve()\<close> starts at the directory of the process, \<open>pcwd\<close>; the context's directory is a
  string of its own. \<open>str_json\<close> is \<open>str\<close> of a JSON value that is no string.
\<close>

definition path_text :: "(json \<Rightarrow> string) \<Rightarrow> dict \<Rightarrow> string" where
  "path_text str_json inp =
     (case map_of inp ''path'' of None \<Rightarrow> [] | Some (JStr s) \<Rightarrow> s | Some j \<Rightarrow> str_json j)"

definition resolve_here :: "file_system \<Rightarrow> path \<Rightarrow> string \<Rightarrow> path" where
  "resolve_here fs pcwd s = fs_real fs (path_div pcwd (path_of s))"

definition inside :: "file_system \<Rightarrow> path \<Rightarrow> string \<Rightarrow> string \<Rightarrow> bool" where
  "inside fs pcwd cwd s \<longleftrightarrow> s \<noteq> [] \<and> relative_to_ok (resolve_here fs pcwd s) (resolve_here fs pcwd cwd)"

definition edit_default_risk ::
    "(json \<Rightarrow> string) \<Rightarrow> file_system \<Rightarrow> path \<Rightarrow> dict \<Rightarrow> authorize_context \<Rightarrow> suggestion result" where
  "edit_default_risk str_json fs pcwd inp ctx = Inr
     (if inside fs pcwd (ctx_cwd ctx) (path_text str_json inp)
      then \<lparr>sg_risk = Low, sg_decision = Allow, sg_reason = ''edit within cwd''\<rparr>
      else \<lparr>sg_risk = High, sg_decision = Ask, sg_reason = ''editing path outside cwd''\<rparr>)"

definition write_default_risk ::
    "(json \<Rightarrow> string) \<Rightarrow> file_system \<Rightarrow> path \<Rightarrow> dict \<Rightarrow> authorize_context \<Rightarrow> suggestion result" where
  "write_default_risk str_json fs pcwd inp ctx = Inr
     (let s = path_text str_json inp in
      if \<not> inside fs pcwd (ctx_cwd ctx) s
      then \<lparr>sg_risk = High, sg_decision = Ask, sg_reason = ''write outside cwd''\<rparr>
      else if path_exists fs (resolve_here fs pcwd s)
      then \<lparr>sg_risk = Medium, sg_decision = Ask, sg_reason = ''overwriting existing file''\<rparr>
      else \<lparr>sg_risk = Low, sg_decision = Allow, sg_reason = ''creating new file in cwd''\<rparr>)"

definition read_default_risk :: "dict \<Rightarrow> authorize_context \<Rightarrow> suggestion result" where
  "read_default_risk inp ctx = Inr
     \<lparr>sg_risk = Low, sg_decision = Allow, sg_reason = ''file read within cwd is low-risk''\<rparr>"

definition file_matcher :: "(json \<Rightarrow> string) \<Rightarrow> dict \<Rightarrow> (string \<Rightarrow> bool result) result" where
  "file_matcher str_json inp = Inr (\<lambda>pattern. Inr (fnmatch (path_text str_json inp) pattern))"

definition write_is_destructive ::
    "(json \<Rightarrow> string) \<Rightarrow> file_system \<Rightarrow> path \<Rightarrow> dict \<Rightarrow> bool result" where
  "write_is_destructive str_json fs pcwd inp = Inr
     (let s = path_text str_json inp in
      s \<noteq> [] \<and> path_exists fs (path_div pcwd (path_of s)))"

definition edit_tool :: "(json \<Rightarrow> string) \<Rightarrow> file_system \<Rightarrow> path \<Rightarrow> tool" where
  "edit_tool str_json fs pcwd =
     (base_tool ''FileEdit'' Edit)
       \<lparr>t_default_risk := edit_default_risk str_json fs pcwd, t_matcher := file_matcher str_json\<rparr>"

definition write_tool :: "(json \<Rightarrow> string) \<Rightarrow> file_system \<Rightarrow> path \<Rightarrow> tool" where
  "write_tool str_json fs pcwd =
     (base_tool ''FileWrite'' Edit)
       \<lparr>t_default_risk := write_default_risk str_json fs pcwd, t_matcher := file_matcher str_json,
        t_is_destructive := write_is_destructive str_json fs pcwd\<rparr>"

definition read_tool :: "(json \<Rightarrow> string) \<Rightarrow> tool" where
  "read_tool str_json =
     (base_tool ''FileRead'' Read)
       \<lparr>t_default_risk := read_default_risk, t_matcher := file_matcher str_json\<rparr>"

section \<open>FileRead\<close>

definition MAX_LINES_DEFAULT :: int where "MAX_LINES_DEFAULT = 2000"
definition MAX_CHARS :: nat where "MAX_CHARS = 2000000"
definition PDF_MAX_PAGES :: nat where "PDF_MAX_PAGES = 20"
definition PDF_AUTO_LIMIT :: int where "PDF_AUTO_LIMIT = 10"
definition IMAGE_MAX_BYTES :: nat where "IMAGE_MAX_BYTES = 20 * 1024 * 1024"

definition IMAGE_MIME :: "(string \<times> string) list" where
  "IMAGE_MIME = [(''.png'', ''image/png''), (''.jpg'', ''image/jpeg''), (''.jpeg'', ''image/jpeg''),
                 (''.webp'', ''image/webp''), (''.gif'', ''image/gif'')]"

definition read_error :: "string \<Rightarrow> path \<Rightarrow> call_result" where
  "read_error msg p =
     (let err = msg @ '': '' @ path_str p in
      \<lparr>cr_data = [(''path'', JStr (path_str p)), (''error'', JStr err)],
       cr_blocks = [Text_Block err], cr_display = File_Display (path_str p) err False\<rparr>)"

text \<open>\<open>int(x or d)\<close> of an input field.\<close>

definition int_of_json :: "json \<Rightarrow> int result" where
  "int_of_json j =
     (case j of
        JInt i \<Rightarrow> Inr i
      | JBool b \<Rightarrow> Inr (if b then 1 else 0)
      | JFloat f \<Rightarrow> Inr (if f < 0 then - \<lfloor>- f\<rfloor> else \<lfloor>f\<rfloor>)
      | JStr s \<Rightarrow> (case py_int s of Some i \<Rightarrow> Inr i | None \<Rightarrow> Inl ''ValueError'')
      | _ \<Rightarrow> Inl ''TypeError'')"

definition int_or :: "dict \<Rightarrow> string \<Rightarrow> int \<Rightarrow> int result" where
  "int_or inp k d =
     (case map_of inp k of
        None \<Rightarrow> Inr d | Some j \<Rightarrow> if json_truthy j then int_of_json j else Inr d)"

subsection \<open>Text files\<close>

text \<open>The lines \<open>start\<close> to \<open>end_line\<close> of a text, and whether something was left out.\<close>

definition window_end :: "string \<Rightarrow> int \<Rightarrow> int \<Rightarrow> int" where
  "window_end txt start n = min (int (length (splitlines txt))) (start - 1 + n)"

definition window_text :: "string \<Rightarrow> int \<Rightarrow> int \<Rightarrow> string" where
  "window_text txt start n = concat (py_slice (splitlines txt) (start - 1) (window_end txt start n))"

definition text_result :: "path \<Rightarrow> string \<Rightarrow> int \<Rightarrow> int \<Rightarrow> call_result" where
  "text_result p txt start n =
     (let total = int (length (splitlines txt));
          end_line = window_end txt start n;
          full = window_text txt start n;
          truncated = (end_line < total \<or> MAX_CHARS < length full);
          sliced = take MAX_CHARS full;
          header = ''// '' @ path_str p @ '' (lines '' @ show_int start @ [CHR 0x9A] @ show_int end_line
                     @ '' of '' @ show_int total @ '')'' @ [CHR 0x0A]
      in \<lparr>cr_data = [(''path'', JStr (path_str p)), (''content'', JStr sliced),
                     (''start_line'', JInt start), (''end_line'', JInt end_line),
                     (''total_lines'', JInt total), (''truncated'', JBool truncated)],
          cr_blocks = [Text_Block (header @ sliced)],
          cr_display = File_Display (path_str p) sliced truncated\<rparr>)"

definition read_text_file :: "(string \<Rightarrow> string) \<Rightarrow> path \<Rightarrow> dict \<Rightarrow> file_world \<Rightarrow> file_call" where
  "read_text_file sha p inp w =
     (case bindR (int_or inp ''start_line'' 1) (\<lambda>s. mapR (Pair (max 1 s))
             (int_or inp ''limit'' MAX_LINES_DEFAULT)) of
        Inl e \<Rightarrow> (Inl e, w)
      | Inr (start, n) \<Rightarrow>
          (case read_text_replace (fw_fs w) p of
             Inl e \<Rightarrow> (Inr (read_error (''read failed: '' @ e) p), w)
           | Inr txt \<Rightarrow>
               (let (st, c) = cache_record sha (fw_fs w) p txt (fw_cache w) in
                case st of
                  Inl e \<Rightarrow> (Inl e, w)
                | Inr _ \<Rightarrow> (Inr (text_result p txt start n), w\<lparr>fw_cache := c\<rparr>))))"

subsection \<open>Images\<close>

definition b64_char :: "nat \<Rightarrow> char" where
  "b64_char n = (if n < 26 then char_of (65 + n) else if n < 52 then char_of (71 + n)
                 else if n < 62 then digit (n - 52) else if n = 62 then CHR ''+'' else CHR ''/'')"

fun b64encode :: "string \<Rightarrow> string" where
  "b64encode (a # b # c # s) =
     (let n = (of_char a * 256 + of_char b) * 256 + of_char c in
      [b64_char (n div 262144), b64_char (n div 4096 mod 64), b64_char (n div 64 mod 64),
       b64_char (n mod 64)] @ b64encode s)"
| "b64encode [a, b] =
     (let n = of_char a * 256 + of_char b in
      [b64_char (n div 1024), b64_char (n div 16 mod 64), b64_char (n mod 16 * 4), CHR ''='']) "
| "b64encode [a] =
     (let n = of_char a in [b64_char (n div 4), b64_char (n mod 4 * 16), CHR ''='', CHR ''=''])"
| "b64encode [] = []"

text \<open>A non-negative number with \<open>k\<close> decimals, rounded half to even as Python formats a float.\<close>

definition round_half_even :: "rat \<Rightarrow> int" where
  "round_half_even x =
     (let f = \<lfloor>x\<rfloor>; r = x - of_int f in
      if r < 1 / 2 then f else if 1 / 2 < r then f + 1 else if even f then f else f + 1)"

definition show_fixed0 :: "rat \<Rightarrow> string" where
  "show_fixed0 x = show_int (round_half_even x)"

definition show_fixed1 :: "rat \<Rightarrow> string" where
  "show_fixed1 x =
     (let n = round_half_even (10 * x) in show_int (n div 10) @ ''.'' @ show_int (n mod 10))"

definition read_image :: "path \<Rightarrow> file_system \<Rightarrow> call_result" where
  "read_image p fs =
     (case read_bytes fs p of
        Inl e \<Rightarrow> read_error (''read failed: '' @ e) p
      | Inr raw \<Rightarrow>
          if IMAGE_MAX_BYTES < length raw then
            read_error (''image too large: '' @ show_fixed1 (of_nat (length raw) / (1024 * 1024))
              @ '' MB (limit '' @ show_nat (IMAGE_MAX_BYTES div (1024 * 1024)) @ '' MB)'') p
          else
            (let mime = (case map_of IMAGE_MIME (lower (path_suffix p)) of
                           Some m \<Rightarrow> m | None \<Rightarrow> ''image/png'');
                 summary = ''[image: '' @ path_name p @ '', ''
                             @ show_fixed0 (of_nat (length raw) / 1024) @ '' KB]''
             in \<lparr>cr_data = [(''path'', JStr (path_str p)), (''type'', JStr ''image''),
                            (''size_bytes'', JInt (int (length raw)))],
                 cr_blocks = [Image_Block mime (b64encode raw)],
                 cr_display = File_Display (path_str p) summary False\<rparr>))"

subsection \<open>Page ranges\<close>

definition page_range :: "string \<Rightarrow> nat \<Rightarrow> int \<Rightarrow> int list result" where
  "page_range part dash n_pages =
     (case (py_int (take dash part), py_int (drop (dash + 1) part)) of
        (Some lo, Some hi) \<Rightarrow>
          if lo < 1 \<or> hi < 1 then Inl (''page numbers must be >= 1, got: '' @ py_repr part)
          else if hi < lo then Inl (''invalid range (start > end): '' @ py_repr part)
          else Inr (map (\<lambda>i. i - 1) (filter (\<lambda>i. 1 \<le> i \<and> i \<le> n_pages) [lo .. hi]))
      | _ \<Rightarrow> Inl (''invalid page range: '' @ py_repr part))"

definition page_number :: "string \<Rightarrow> int \<Rightarrow> int list result" where
  "page_number part n_pages =
     (case py_int part of
        None \<Rightarrow> Inl (''invalid page number: '' @ py_repr part)
      | Some p \<Rightarrow>
          if p < 1 then Inl (''page numbers must be >= 1, got: '' @ show_int p)
          else Inr (if 1 \<le> p \<and> p \<le> n_pages then [p - 1] else []))"

text \<open>One part of the list; \<open>part.find("-", 1)\<close> looks for a dash after the first character.\<close>

definition page_part :: "string \<Rightarrow> int \<Rightarrow> int list result" where
  "page_part raw n_pages =
     (let part = strip raw in
      if part = [] then Inr []
      else let dash = 1 + length (takeWhile (\<lambda>c. c \<noteq> CHR ''-'') (drop 1 part)) in
        if dash < length part then page_range part dash n_pages else page_number part n_pages)"

fun page_parts :: "string list \<Rightarrow> int \<Rightarrow> int list result" where
  "page_parts [] n_pages = Inr []"
| "page_parts (p # ps) n_pages =
     bindR (page_part p n_pages) (\<lambda>is. mapR (\<lambda>js. is @ js) (page_parts ps n_pages))"

definition parse_pages :: "string option \<Rightarrow> int \<Rightarrow> int list result" where
  "parse_pages spec n_pages =
     (case spec of
        None \<Rightarrow>
          if PDF_AUTO_LIMIT < n_pages then
            Inl (''PDF has '' @ show_int n_pages @ '' pages (>'' @ show_int PDF_AUTO_LIMIT
              @ '').  Specify a page range with the \"pages\" parameter (e.g. \"1-5\").  Max ''
              @ show_nat PDF_MAX_PAGES @ '' pages per request.'')
          else Inr [0 .. n_pages - 1]
      | Some s \<Rightarrow>
          bindR (page_parts (split_on (CHR '','') s) n_pages) (\<lambda>found.
            if found = [] then
              Inl (''no valid pages in range '' @ py_repr s @ '' (document has '' @ show_int n_pages @ '' pages)'')
            else let pages = sort (remdups found) in
              if PDF_MAX_PAGES < length pages then
                Inl (''requested '' @ show_nat (length pages) @ '' pages, max ''
                  @ show_nat PDF_MAX_PAGES @ '' per request'')
              else Inr pages))"

definition show_range :: "int \<Rightarrow> int \<Rightarrow> string" where
  "show_range a b = (if a = b then show_int a else show_int a @ ''-'' @ show_int b)"

text \<open>The loop over the remaining pages with the open range \<open>start\<close> to \<open>prev\<close>.\<close>

fun page_ranges :: "int \<Rightarrow> int \<Rightarrow> int list \<Rightarrow> string list" where
  "page_ranges start prev [] = [show_range start prev]"
| "page_ranges start prev (p # ps) =
     (if p = prev + 1 then page_ranges start p ps
      else show_range start prev # page_ranges p p ps)"

definition format_page_list :: "int list \<Rightarrow> string" where
  "format_page_list is =
     (case map (\<lambda>i. i + 1) is of [] \<Rightarrow> [] | p # ps \<Rightarrow> join '', '' (page_ranges p p ps))"

subsection \<open>PDF documents and dispatch\<close>

text \<open>
  PyMuPDF: \<open>None\<close> when it is not installed; opening a path fails or gives the document as the PNG
  bytes of its pages.
\<close>

type_synonym pdf_lib = "(string \<Rightarrow> string list result) option"

definition read_pdf :: "pdf_lib \<Rightarrow> path \<Rightarrow> string option result \<Rightarrow> call_result result" where
  "read_pdf lib p spec =
     (case lib of
        None \<Rightarrow> Inr (read_error (''PDF reading requires the '' @ [CHR 0x27] @ ''pymupdf'' @ [CHR 0x27]
                  @ '' package.  Install with: pip install pymupdf'') p)
      | Some open_pdf \<Rightarrow>
          (case open_pdf (path_str p) of
             Inl e \<Rightarrow> Inr (read_error (''failed to open PDF: '' @ e) p)
           | Inr doc \<Rightarrow>
               if doc = [] then Inr (read_error ''PDF has no pages'' p)
               else mapR (\<lambda>pages_spec.
                 (case parse_pages pages_spec (int (length doc)) of
                    Inl e \<Rightarrow> read_error e p
                  | Inr pages \<Rightarrow>
                      (let title = ''PDF: '' @ path_name p @ '' '' @ [CHR 0x97] @ '' '' @ show_nat (length doc)
                                     @ '' page(s), showing page(s) '' @ format_page_list pages;
                           summary = ''[PDF: '' @ path_name p @ '', '' @ show_nat (length doc)
                                     @ '' page(s), rendered '' @ show_nat (length pages) @ '' page(s)]''
                       in \<lparr>cr_data = [(''path'', JStr (path_str p)), (''type'', JStr ''pdf''),
                                      (''total_pages'', JInt (int (length doc))),
                                      (''rendered_pages'', JArr (map (\<lambda>i. JInt (i + 1)) pages))],
                           cr_blocks = Text_Block title
                             # map (\<lambda>i. Image_Block ''image/png'' (b64encode (doc ! nat i))) pages,
                           cr_display = File_Display (path_str p) summary False\<rparr>))) spec))"

text \<open>\<open>pages\<close> that is no string is split all the same, which raises.\<close>

definition pages_arg :: "dict \<Rightarrow> string option result" where
  "pages_arg inp =
     (case map_of inp ''pages'' of
        None \<Rightarrow> Inr None | Some JNull \<Rightarrow> Inr None | Some (JStr s) \<Rightarrow> Inr (Some s)
      | Some _ \<Rightarrow> Inl ''AttributeError'')"

definition read_call ::
    "(string \<Rightarrow> string) \<Rightarrow> pdf_lib \<Rightarrow> path \<Rightarrow> dict \<Rightarrow> file_world \<Rightarrow> file_call" where
  "read_call sha lib cwd inp w =
     (case call_path cwd inp of
        Inl e \<Rightarrow> (Inl e, w)
      | Inr p \<Rightarrow>
          (let fs = fw_fs w; ext = lower (path_suffix p) in
           if \<not> path_exists fs p then (Inr (read_error ''file not found'' p), w)
           else if \<not> is_file fs p then (Inr (read_error ''not a regular file'' p), w)
           else if ext \<in> fst ` set IMAGE_MIME then (Inr (read_image p fs), w)
           else if ext = ''.pdf'' then (read_pdf lib p (pages_arg inp), w)
           else read_text_file sha p inp w))"

definition read_validate :: "dict \<Rightarrow> exn option" where
  "read_validate inp =
     (case map_of inp ''path'' of
        Some (JStr p) \<Rightarrow> if p = [] then Some ''path must be a non-empty string'' else None
      | _ \<Rightarrow> Some ''path must be a non-empty string'')"

end
