(* ===== verification/File_Properties.thy ===== *)
theory File_Properties
  imports File_Tools Authz_Properties
begin

text \<open>Properties of the file tools, alone and behind the authorizer.\<close>

section \<open>Writing\<close>

text \<open>An all-or-nothing write: the file system is as before, or one regular file is replaced.\<close>

lemma write_text_cases:
  assumes "write_text fs p s = (res, fs')"
  obtains e where "res = Inl e" "fs' = fs"
  | "res = Inr ()" "fs' = fs\<lparr>fs_node := (fs_node fs)(fs_real fs p \<mapsto> Regular (Utf8 s) (fs_now fs))\<rparr>"
  using assms by (auto simp: write_text_def Let_def split: option.splits fnode.splits if_splits)

lemma write_text_real: "write_text fs p s = (res, fs') \<Longrightarrow> fs_real fs' = fs_real fs"
  by (erule write_text_cases) auto

lemma make_dirs_real: "fs_real (snd (make_dirs r xs fs)) = fs_real fs"
  by (induction r xs fs rule: make_dirs.induct)
    (auto simp: Let_def split: option.splits fnode.splits sum.splits prod.splits)

lemma make_dirs_existing:
  "fs_node fs \<lparr>p_root = r, p_parts = rev xs\<rparr> = Some Directory \<Longrightarrow> make_dirs r xs fs = (Inr (), fs)"
  by (cases xs) auto

lemma mkdir_existing:
  assumes "fs_node fs (fs_real fs p) = Some Directory"
  shows "mkdir fs p = (Inr (), fs)"
proof (cases "fs_real fs p")
  case (fields r ps)
  with assms show ?thesis
    using make_dirs_existing [of fs r "rev ps"] by (simp add: mkdir_def Let_def)
qed

lemma read_text_exists: "read_text fs p = Inr s \<Longrightarrow> path_exists fs p"
  by (auto simp: read_text_def open_read_def path_exists_def bindR_eq_Inr split: option.splits)

lemma read_text_no_CR:
  assumes "read_text fs p = Inr s"
  shows "CHR 0x0D \<notin> set s"
proof -
  obtain c where "decode_strict c = Inr s"
    using assms by (auto simp: read_text_def bindR_eq_Inr)
  then show ?thesis by (cases c) (auto simp: decode_strict_def universal_newlines_no_CR)
qed

text \<open>What \<open>edit_file\<close> does when it changes anything at all.\<close>

lemma edit_file_changes:
  assumes "edit_file sha p old new every w = (res, w')" "w' \<noteq> w"
  obtains current where "read_text (fw_fs w) p = Inr current" "\<not> changed_since_read sha w p current"
    "contains old current" "every \<or> py_count old current \<le> 1"
    "fw_fs w' = (fw_fs w)\<lparr>fs_node := (fs_node (fw_fs w))(fs_real (fw_fs w) p \<mapsto>
        Regular (Utf8 (edited_text old new every current)) (fs_now (fw_fs w)))\<rparr>"
    "fw_cache w' = (fw_cache w)(fs_real (fw_fs w) p := None)"
    "res = Inr \<lparr>cr_data = [(''path'', JStr (path_str p)), (''replaced'', JBool True)],
               cr_blocks = [Text_Block (''edited '' @ path_str p)],
               cr_display = Diff_Display (path_str p) (Some current) (edited_text old new every current)\<rparr>"
proof (cases "read_text (fw_fs w) p")
  case (Inl e)
  with assms show ?thesis by (simp add: edit_file_def Let_def split: if_splits)
next
  case (Inr current)
  note ex = read_text_exists [OF Inr]
  let ?go = "\<not> changed_since_read sha w p current \<and> contains old current
    \<and> (every \<or> py_count old current \<le> 1)"
  obtain r fs' where wt: "write_text (fw_fs w) p (edited_text old new every current) = (r, fs')" by force
  have go: ?go
    using assms ex Inr by (simp add: edit_file_def Let_def not_less split: if_splits)
  have eq: "edit_file sha p old new every w =
     (case r of Inl e \<Rightarrow> (Inl e, w\<lparr>fw_fs := fs'\<rparr>)
      | Inr _ \<Rightarrow> (Inr \<lparr>cr_data = [(''path'', JStr (path_str p)), (''replaced'', JBool True)],
               cr_blocks = [Text_Block (''edited '' @ path_str p)],
               cr_display = Diff_Display (path_str p) (Some current) (edited_text old new every current)\<rparr>,
           w\<lparr>fw_fs := fs', fw_cache := cache_invalidate fs' p (fw_cache w)\<rparr>))"
    using go ex Inr wt by (simp add: edit_file_def Let_def) auto
  from wt show ?thesis
  proof (cases rule: write_text_cases)
    case (1 e)
    with assms eq show ?thesis by simp
  next
    case 2
    then show ?thesis
      using assms eq go Inr by (intro that [of current]) (auto simp: cache_invalidate_def)
  qed
qed

lemma weave_set: "set (weave new k s) \<subseteq> set new \<union> set s"
  by (induction new k s rule: weave.induct) auto

lemma set_join: "set (join sep ps) \<subseteq> set sep \<union> (\<Union>p \<in> set ps. set p)"
  by (induction sep ps rule: join.induct) auto

lemma join_pieces_set: "p \<in> set ps \<Longrightarrow> set p \<subseteq> set (join sep ps)"
  by (induction sep ps rule: join.induct) auto

lemma replace_n_set: "set (replace_n old new k s) \<subseteq> set new \<union> set s"
proof -
  have "set q \<subseteq> set s" if "q \<in> set (split_str old k s)" for q
    using join_pieces_set [OF that, of old] by (simp add: join_split_str)
  then have "set (join new (split_str old k s)) \<subseteq> set new \<union> set s"
    using set_join [of new "split_str old k s"] by fastforce
  then show ?thesis
    using weave_set [of new k s] by (simp add: replace_n_def replace_from_join)
qed

text \<open>
  A small world: no symbolic links, the directory \<open>/w\<close> with one file. The hash is the identity.
\<close>

definition sample_path :: path where
  "sample_path = \<lparr>p_root = 1, p_parts = [''w'', ''a'']\<rparr>"

definition sample_fs :: "string \<Rightarrow> file_system" where
  "sample_fs txt =
     \<lparr>fs_real = (\<lambda>p. p),
      fs_node = (\<lambda>p. if p = \<lparr>p_root = 1, p_parts = []\<rparr> then Some Directory
                    else if p = \<lparr>p_root = 1, p_parts = [''w'']\<rparr> then Some Directory
                    else if p = sample_path then Some (Regular (Utf8 txt) 1) else None),
      fs_denied = (\<lambda>_ _. None), fs_now = 2\<rparr>"

definition sample_files :: "string \<Rightarrow> file_world" where
  "sample_files txt = \<lparr>fw_fs = sample_fs txt, fw_cache = Map.empty\<rparr>"

lemma sample_fs_simps [simp]:
  "fs_real (sample_fs t) = (\<lambda>p. p)"
  "fs_node (sample_fs t) sample_path = Some (Regular (Utf8 t) 1)"
  "fs_node (sample_fs t) (path_parent sample_path) = Some Directory"
  "fs_denied (sample_fs t) b p = None"
  "fs_now (sample_fs t) = 2"
  by (simp_all add: sample_fs_def sample_path_def path_parent_def)

lemma sample_files_simps [simp]:
  "fw_fs (sample_files t) = sample_fs t"
  "fw_cache (sample_files t) = Map.empty"
  by (simp_all add: sample_files_def)

lemma sample_read [simp]: "read_text (sample_fs t) sample_path = Inr (universal_newlines t)"
  by (simp add: read_text_def open_read_def decode_strict_def)

lemma sample_write_text [simp]:
  "write_text (sample_fs t) sample_path s =
     (Inr (), (sample_fs t)\<lparr>fs_node := (fs_node (sample_fs t))(sample_path \<mapsto> Regular (Utf8 s) 2)\<rparr>)"
  by (simp add: write_text_def)

lemma sample_exists [simp]: "path_exists (sample_fs t) sample_path"
  by (simp add: path_exists_def)

lemma sample_unread [simp]: "\<not> changed_since_read sha (sample_files t) p s"
  by (simp add: changed_since_read_def cache_verify_def)

text \<open>On the sample file an edit goes through whenever its text allows it.\<close>

lemma sample_edit:
  assumes "contains old (universal_newlines t)" "py_count old (universal_newlines t) \<le> 1"
  shows "fs_node (fw_fs (snd (edit_file sha sample_path old new False (sample_files t)))) sample_path =
        Some (Regular (Utf8 (replace_n old new 1 (universal_newlines t))) 2)"
  using assms by (simp add: edit_file_def edited_text_def Let_def)

section \<open>The properties\<close>

text \<open>
  C30: An edit is exact. If \<open>FileEdit\<close> changes anything, it rewrites the one file its path leads to and
  forgets the file's cache entry; the new text is the old one with the only occurrence from the left
  of \<open>old_string\<close> replaced, or, under \<open>replace_all\<close>, with every occurrence replaced and all text
  between them kept.
\<close>

theorem edit_exact:
  assumes "old \<noteq> []" "edit_file sha p old new every w = (res, w')" "w' \<noteq> w"
  shows "\<exists>current updated.
      read_text (fw_fs w) p = Inr current
    \<and> fs_node (fw_fs w') = (fs_node (fw_fs w))(fs_real (fw_fs w) p \<mapsto>
        Regular (Utf8 updated) (fs_now (fw_fs w)))
    \<and> fw_cache w' = (fw_cache w)(fs_real (fw_fs w) p := None)
    \<and> (if every
       then \<exists>pieces. current = join old pieces \<and> updated = join new pieces \<and> 2 \<le> length pieces
              \<and> (\<forall>piece \<in> set pieces. \<not> contains old piece)
       else \<exists>pre post. current = pre @ old @ post \<and> updated = pre @ new @ post
              \<and> \<not> contains old (butlast (pre @ old)) \<and> \<not> contains old post)"
  using assms(2,3)
proof (cases rule: edit_file_changes)
  case (1 current)
  let ?pieces = "split_str old (length current + 1) current"
  obtain pre post where "?pieces = pre # split_str old (length current) post"
    using split_str_present [OF assms(1) 1(3)] by force
  then have "2 \<le> length ?pieces"
    using split_str_not_Nil [of old "length current" post]
    by (cases "split_str old (length current) post") auto
  moreover have "edited_text old new True current = join new ?pieces"
    using assms(1) by (simp add: edited_text_def replace_every_def replace_n_def replace_from_join)
  moreover have "\<forall>piece \<in> set ?pieces. \<not> contains old piece"
    by (rule split_str_all [OF assms(1)]) simp
  ultimately have all: "every \<Longrightarrow> \<exists>pieces. current = join old pieces
      \<and> edited_text old new every current = join new pieces \<and> 2 \<le> length pieces
      \<and> (\<forall>piece \<in> set pieces. \<not> contains old piece)"
    by (intro exI [of _ ?pieces]) (simp add: join_split_str)
  have "\<not> every \<Longrightarrow> \<exists>pre post. current = pre @ old @ post
      \<and> edited_text old new every current = pre @ new @ post
      \<and> \<not> contains old (butlast (pre @ old)) \<and> \<not> contains old post"
    using py_count_one [OF assms(1) 1(3)] 1(4) by (auto simp: edited_text_def)
  with all 1 show ?thesis
    by (intro exI [of _ current] exI [of _ "edited_text old new every current"]) simp
qed

theorem edit_exact_witness:
  "\<exists>pre post. ''abc'' = pre @ ''b'' @ post \<and> ''axyc'' = pre @ ''xy'' @ post"
proof -
  have run: "contains ''b'' (universal_newlines ''abc'')" "py_count ''b'' (universal_newlines ''abc'') \<le> 1"
      "replace_n ''b'' ''xy'' 1 (universal_newlines ''abc'') = ''axyc''" "universal_newlines ''abc'' = ''abc''"
    by code_simp+
  obtain res w' where e: "edit_file (\<lambda>s. s) sample_path ''b'' ''xy'' False (sample_files ''abc'') = (res, w')"
      and n: "fs_node (fw_fs w') sample_path = Some (Regular (Utf8 ''axyc'') 2)"
    using sample_edit [OF run(1,2)] run(3) by (metis prod.collapse)
  then have "w' \<noteq> sample_files ''abc''" by auto
  from edit_exact [OF _ e this] n run(4) show ?thesis
    by (auto simp del: append_Cons) metis
qed

text \<open>
  C31: A file changed since it was read is neither edited nor overwritten. After \<open>FileRead\<close> returned a
  text file, if the file now reads as a text of another hash, \<open>FileEdit\<close> and \<open>FileWrite\<close> refuse and
  leave file system and cache as they are.
\<close>

theorem stale_file_kept:
  assumes "read_text_file sha p inp w = (Inr r, w1)" "read_text_replace (fw_fs w) p = Inr seen"
    and "fs_real fs = fs_real (fw_fs w)" "read_text fs p = Inr current"
    and "hash_text sha current \<noteq> hash_text sha seen"
  shows "edit_file sha p old new every (w1\<lparr>fw_fs := fs\<rparr>) =
      (Inr (edit_error p (stale_edit_message p)), w1\<lparr>fw_fs := fs\<rparr>)
    \<and> (\<exists>r2. write_file sha p content (w1\<lparr>fw_fs := fs\<rparr>) = (Inr r2, w1\<lparr>fw_fs := fs\<rparr>)
         \<and> cr_blocks r2 = [Text_Block (stale_write_message p)])"
proof -
  have "\<exists>st. fw_cache w1 (fs_real (fw_fs w) p) = Some st \<and> fst_sha256_hex st = hash_text sha seen"
    using assms(1,2) by (auto simp: read_text_file_def cache_record_def Let_def split: sum.splits)
  then have "changed_since_read sha (w1\<lparr>fw_fs := fs\<rparr>) p current"
    using assms(3,5) by (auto simp: changed_since_read_def cache_verify_def)
  then show ?thesis
    using assms(4) read_text_exists [OF assms(4)] by (simp add: edit_file_def write_file_def Let_def)
qed

lemma sample_read_text_file:
  "\<exists>r w1. read_text_file sha sample_path [] (sample_files t) = (Inr r, w1)"
  by (simp add: read_text_file_def int_or_def read_text_replace_def open_read_def cache_record_def
      stat_mtime_def Let_def)

theorem stale_file_kept_witness:
  "\<exists>w1. edit_file (\<lambda>s. s) sample_path ''b'' ''c'' False (w1\<lparr>fw_fs := sample_fs ''bb''\<rparr>) =
     (Inr (edit_error sample_path (stale_edit_message sample_path)), w1\<lparr>fw_fs := sample_fs ''bb''\<rparr>)"
proof -
  obtain r w1 where r: "read_text_file (\<lambda>s. s) sample_path [] (sample_files ''ab'') = (Inr r, w1)"
    using sample_read_text_file by blast
  have seen: "read_text_replace (fw_fs (sample_files ''ab'')) sample_path = Inr ''ab''"
    by (simp add: read_text_replace_def open_read_def decode_replace_def)
  have hash: "hash_text (\<lambda>s. s) ''bb'' \<noteq> hash_text (\<lambda>s. s) ''ab''"
    by code_simp
  have "fs_real (sample_fs ''bb'') = fs_real (fw_fs (sample_files ''ab''))"
    by auto
  from stale_file_kept [OF r seen this _ hash] show ?thesis
    by (intro exI [of _ w1]) simp
qed

text \<open>
  Writing forgets the record, so the guard covers one write only. After a write went through,
  whatever another program puts into the file is overwritten by the next \<open>FileWrite\<close> without a new
  read; only the display of the result shows the lost text.
\<close>

lemma second_write_unguarded:
  assumes "write_file sha p first w = (Inr r1, w1)" "w1 \<noteq> w"
    and "fs_real fs = fs_real (fw_fs w)" "read_text fs p = Inr theirs"
    and "fs_node fs (fs_real fs (path_parent p)) = Some Directory"
    and "fs_node fs (path_parent (fs_real fs p)) = Some Directory" "fs_denied fs True (fs_real fs p) = None"
  shows "\<exists>r2 w2. write_file sha p second (w1\<lparr>fw_fs := fs\<rparr>) = (Inr r2, w2)
    \<and> cr_display r2 = Diff_Display (path_str p) (Some theirs) second
    \<and> fs_node (fw_fs w2) (fs_real fs p) = Some (Regular (Utf8 second) (fs_now fs))"
proof -
  have put: "fw_cache w' (fs_real (fw_fs w) p) = None" if "put_file p first ex w = (Inr r1, w')" for ex w'
  proof -
    obtain made fs1 where m: "mkdir (fw_fs w) (path_parent p) = (made, fs1)" by force
    have "fs_real fs1 = fs_real (fw_fs w)"
      using m make_dirs_real by (metis mkdir_def snd_conv)
    then show ?thesis
      using that m write_text_real
      by (auto simp: put_file_def Let_def cache_invalidate_def split: sum.splits prod.splits)
  qed
  have "fw_cache w1 (fs_real (fw_fs w) p) = None"
    using assms(1,2) put by (auto simp: write_file_def Let_def split: if_splits sum.splits)
  then have fresh: "\<not> changed_since_read sha (w1\<lparr>fw_fs := fs\<rparr>) p theirs"
    using assms(3) by (simp add: changed_since_read_def cache_verify_def)
  have "mkdir fs (path_parent p) = (Inr (), fs)"
    using assms(5) by (rule mkdir_existing)
  moreover have "fs_node fs (fs_real fs p) \<noteq> Some Directory"
    using assms(4) by (auto simp: read_text_def open_read_def bindR_eq_Inr split: option.splits)
  ultimately show ?thesis
    using assms(4,6,7) fresh read_text_exists [OF assms(4)]
    by (simp add: write_file_def put_file_def write_text_def Let_def split: option.splits fnode.splits)
qed

lemma second_write_unguarded_witness:
  "\<exists>r2 w1. cr_display r2 = Diff_Display (path_str sample_path) (Some ''theirs'') ''mine''
    \<and> fst (write_file (\<lambda>s. s) sample_path ''mine'' (w1\<lparr>fw_fs := sample_fs ''theirs''\<rparr>)) = Inr r2"
proof -
  have "mkdir (sample_fs ''a'') (path_parent sample_path) = (Inr (), sample_fs ''a'')"
    by (rule mkdir_existing) simp
  then obtain r1 w1 where w: "write_file (\<lambda>s. s) sample_path ''b'' (sample_files ''a'') = (Inr r1, w1)"
      "fs_node (fw_fs w1) sample_path = Some (Regular (Utf8 ''b'') 2)"
    by (auto simp: write_file_def put_file_def)
  then have "w1 \<noteq> sample_files ''a''" by auto
  from second_write_unguarded [OF w(1) this, of "sample_fs ''theirs''" "''theirs''" "''mine''"]
  obtain r2 w2 where "write_file (\<lambda>s. s) sample_path ''mine'' (w1\<lparr>fw_fs := sample_fs ''theirs''\<rparr>) = (Inr r2, w2)"
      "cr_display r2 = Diff_Display (path_str sample_path) (Some ''theirs'') ''mine''"
    by auto
  then show ?thesis by (metis fst_conv)
qed

text \<open>
  An edit rewrites every line end. Files are read with universal newlines and written back as
  they are: after an edit whose new text has no carriage return the file has none, wherever it had
  them before.
\<close>

lemma edit_drops_carriage_returns:
  assumes "edit_file sha p old new every w = (res, w')" "w' \<noteq> w" "CHR 0x0D \<notin> set new"
  shows "\<exists>s m. fs_node (fw_fs w') (fs_real (fw_fs w) p) = Some (Regular (Utf8 s) m) \<and> CHR 0x0D \<notin> set s"
  using assms(1,2)
proof (cases rule: edit_file_changes)
  case (1 current)
  have "CHR 0x0D \<notin> set (edited_text old new every current)"
    using read_text_no_CR [OF 1(1)] assms(3) replace_n_set [of old new _ current]
    by (auto simp: edited_text_def replace_every_def)
  with 1 show ?thesis by simp
qed

lemma edit_drops_carriage_returns_witness:
  "\<exists>w'. snd (edit_file (\<lambda>s. s) sample_path ''b'' ''x'' False
         (sample_files [CHR ''a'', CHR 0x0D, CHR 0x0A, CHR ''b''])) = w'
     \<and> fs_node (fw_fs w') sample_path = Some (Regular (Utf8 [CHR ''a'', CHR 0x0A, CHR ''x'']) 2)
     \<and> (\<exists>s m. fs_node (fw_fs w') sample_path = Some (Regular (Utf8 s) m) \<and> CHR 0x0D \<notin> set s)"
proof -
  let ?t = "[CHR ''a'', CHR 0x0D, CHR 0x0A, CHR ''b'']"
  have run: "contains ''b'' (universal_newlines ?t)" "py_count ''b'' (universal_newlines ?t) \<le> 1"
      "replace_n ''b'' ''x'' 1 (universal_newlines ?t) = [CHR ''a'', CHR 0x0A, CHR ''x'']"
    by code_simp+
  obtain res w' where e: "edit_file (\<lambda>s. s) sample_path ''b'' ''x'' False (sample_files ?t) = (res, w')"
      and n: "fs_node (fw_fs w') sample_path = Some (Regular (Utf8 [CHR ''a'', CHR 0x0A, CHR ''x'']) 2)"
    using sample_edit [OF run(1,2)] run(3) by (metis prod.collapse)
  then have "w' \<noteq> sample_files ?t" by auto
  from edit_drops_carriage_returns [OF e this] e n show ?thesis by simp
qed

section \<open>Reading in windows\<close>

lemma clip_index_nat [simp]: "clip_index n (int i) = min n i"
  by (simp add: clip_index_def)

lemma window_text_take:
  "window_text txt (1 + int k) (int n) = concat (take n (drop k (splitlines txt)))"
proof -
  have "window_end txt (1 + int k) (int n) = int (min (length (splitlines txt)) (k + n))"
    by (simp add: window_end_def)
  then show ?thesis
    by (simp add: window_text_def py_slice_def min_def del: of_nat_add)
qed

text \<open>
  Reading a text file window by window loses nothing: the contents that \<open>FileRead\<close> returns for
  consecutive windows of \<open>n\<close> lines, in order, are the text of the file, as long as no window reaches
  the cap on characters; and the last window is the first that is not marked as truncated.
\<close>

lemma windows_cover:
  assumes "0 < n" "length (splitlines txt) \<le> m * n"
    and "\<forall>k < m. length (window_text txt (1 + int (k * n)) (int n)) \<le> MAX_CHARS"
  shows "concat (map (\<lambda>k. case map_of (cr_data (text_result p txt (1 + int (k * n)) (int n))) ''content'' of
             Some (JStr s) \<Rightarrow> s | _ \<Rightarrow> []) [0 ..< m]) = txt
    \<and> (\<forall>k < m. map_of (cr_data (text_result p txt (1 + int (k * n)) (int n))) ''truncated'' =
           Some (JBool (k * n + n < length (splitlines txt))))"
proof -
  let ?w = "\<lambda>k. window_text txt (1 + int (k * n)) (int n)"
  have chunks: "concat (map ?w [0 ..< j]) = concat (take (j * n) (splitlines txt))" for j
  proof (induction j)
    case (Suc j)
    have "take (j * n + n) (splitlines txt) =
        take (j * n) (splitlines txt) @ take n (drop (j * n) (splitlines txt))"
      by (rule take_add)
    with Suc show ?case by (simp add: window_text_take add.commute del: of_nat_mult)
  qed simp
  have content: "map_of (cr_data (text_result p txt (1 + int (k * n)) (int n))) ''content'' = Some (JStr (?w k))"
    if "k < m" for k
    using assms(3) that by (simp add: text_result_def Let_def del: of_nat_mult)
  have "concat (map (\<lambda>k. case map_of (cr_data (text_result p txt (1 + int (k * n)) (int n))) ''content'' of
             Some (JStr s) \<Rightarrow> s | _ \<Rightarrow> []) [0 ..< m]) = concat (map ?w [0 ..< m])"
    by (rule arg_cong [of _ _ concat], rule map_cong) (simp_all add: content del: of_nat_mult)
  moreover have "concat (map ?w [0 ..< m]) = txt"
    using assms(2) by (simp only: chunks take_all concat_splitlines)
  moreover have "map_of (cr_data (text_result p txt (1 + int (k * n)) (int n))) ''truncated'' =
           Some (JBool (k * n + n < length (splitlines txt)))" if "k < m" for k
  proof -
    have "window_end txt (1 + int (k * n)) (int n) < int (length (splitlines txt))
        \<longleftrightarrow> k * n + n < length (splitlines txt)"
      unfolding window_end_def by linarith
    moreover have "\<not> MAX_CHARS < length (?w k)"
      using assms(3) that by (simp add: not_less)
    ultimately show ?thesis
      by (simp add: text_result_def Let_def del: of_nat_mult)
  qed
  ultimately show ?thesis by simp
qed

lemma windows_cover_witness:
  "length (concat (map (\<lambda>k. case map_of (cr_data (text_result sample_path [CHR ''a'', CHR 0x0A, CHR ''b'']
       (1 + int (k * 1)) (int 1))) ''content'' of Some (JStr s) \<Rightarrow> s | _ \<Rightarrow> []) [0 ..< 2])) = 3"
proof -
  let ?t = "[CHR ''a'', CHR 0x0A, CHR ''b'']"
  have lines: "splitlines ?t = [[CHR ''a'', CHR 0x0A], ''b'']"
    by code_simp
  have "length (window_text ?t (1 + int (k * 1)) (int 1)) \<le> MAX_CHARS" if "k < 2" for k
  proof -
    have "length (concat (take 1 (drop k (splitlines ?t)))) \<le> 2"
      unfolding lines using that by (cases k) auto
    then show ?thesis
      using window_text_take [of ?t k 1] by (simp add: MAX_CHARS_def)
  qed
  from windows_cover [of 1 ?t 2 sample_path] this show ?thesis
    unfolding lines by simp
qed

section \<open>Page ranges\<close>

lemma page_part_bounds:
  assumes "page_part raw n = Inr found"
  shows "set found \<subseteq> {0 ..< n}"
  using assms
  by (auto simp: page_part_def page_range_def page_number_def Let_def split: if_splits option.splits)

lemma page_parts_bounds: "page_parts ps n = Inr found \<Longrightarrow> set found \<subseteq> {0 ..< n}"
proof (induction ps arbitrary: found)
  case (Cons p ps)
  then show ?case using page_part_bounds by (fastforce simp: bindR_eq_Inr mapR_eq_Inr)
qed simp

text \<open>
  Page ranges are bounded: the page indices a request for a document with pages resolves to are
  pages of the document, in ascending order, each once, at least one and at most twenty.
\<close>

lemma pages_bounded:
  assumes "parse_pages spec n = Inr pages" "0 < n"
  shows "sorted pages \<and> distinct pages \<and> pages \<noteq> [] \<and> length pages \<le> PDF_MAX_PAGES
    \<and> set pages \<subseteq> {0 ..< n}"
proof (cases spec)
  case None
  with assms show ?thesis
    by (auto simp: parse_pages_def PDF_AUTO_LIMIT_def PDF_MAX_PAGES_def split: if_splits)
next
  case (Some s)
  with assms(1) obtain found where f: "page_parts (split_on (CHR '','') s) n = Inr found" "found \<noteq> []"
      "pages = sort (remdups found)" "length pages \<le> PDF_MAX_PAGES"
    by (auto simp: parse_pages_def bindR_eq_Inr Let_def not_less split: if_splits)
  have "pages \<noteq> []"
    using f(2) unfolding f(3) by (metis set_empty set_remdups set_sort)
  with f page_parts_bounds [OF f(1)] show ?thesis by simp
qed

lemma pages_bounded_witness:
  "parse_pages (Some ''2-3, 1'') 5 = Inr [0, 1, 2] \<and> set [0, 1, 2] \<subseteq> {0 ..< (5 :: int)}"
proof -
  have "parse_pages (Some ''2-3, 1'') 5 = Inr [0, 1, 2]" by code_simp
  from pages_bounded [OF this] this show ?thesis by simp
qed

subsection \<open>Reading what was printed\<close>

lemma split_on_append: "c \<notin> set p \<Longrightarrow> split_on c (p @ c # s) = p # split_on c s"
  by (induction p) auto

lemma split_on_absent: "c \<notin> set p \<Longrightarrow> split_on c p = [p]"
  by (induction p) auto

lemma split_on_join:
  assumes "\<forall>p \<in> set ps. c \<notin> set p" "c \<notin> set sep" "ps \<noteq> []"
  shows "split_on c (join (c # sep) ps) = hd ps # map (\<lambda>p. sep @ p) (tl ps)"
  using assms
proof (induction "c # sep" ps rule: join.induct)
  case (3 p q ps)
  then have "split_on c (sep @ join (c # sep) (q # ps)) = map (\<lambda>p. sep @ p) (q # ps)"
  proof -
    obtain r rs where r: "split_on c (join (c # sep) (q # ps)) = r # rs"
      using split_on_not_Nil by (metis neq_Nil_conv)
    have "split_on c (sep' @ t) = (sep' @ r) # rs" if "split_on c t = r # rs" "c \<notin> set sep'" for sep' t
      using that by (induction sep') auto
    with r 3 show ?thesis by auto
  qed
  with 3 show ?case by (simp add: split_on_append)
qed (auto simp: split_on_absent)

definition digit_string :: "string \<Rightarrow> bool" where
  "digit_string s \<longleftrightarrow> s \<noteq> [] \<and> (\<forall>c \<in> set s. 48 \<le> (of_char c :: nat) \<and> (of_char c :: nat) \<le> 57)"

lemma digit_string_show_nat: "digit_string (show_nat n)"
proof (induction n rule: show_nat.induct)
  case (1 n)
  then show ?case
    by (cases "n < 10"; subst show_nat.simps) (auto simp: digit_string_def of_char_digit)
qed

lemma digit_string_not:
  assumes "digit_string s" "c \<in> set s"
  shows "c \<noteq> CHR ''-''" "c \<noteq> CHR '',''" "c \<noteq> CHR ''+''" "\<not> py_space c"
  using assms by (auto simp: digit_string_def py_space_def Let_def)

lemma int_digits_foldl:
  assumes "\<forall>c \<in> set s. 48 \<le> (of_char c :: nat) \<and> (of_char c :: nat) \<le> 57"
  shows "int_digits after acc s = (if s = [] \<and> \<not> after then None
     else Some (foldl (\<lambda>a c. 10 * a + (of_char c - 48)) acc s))"
  using assms by (induction s arbitrary: after acc) (auto simp: Let_def)

lemma py_int_show_nat: "py_int (show_nat n) = Some (int n)"
proof -
  have d: "digit_string (show_nat n)" by (rule digit_string_show_nat)
  then obtain c cs where s: "show_nat n = c # cs" by (auto simp: digit_string_def neq_Nil_conv)
  have "strip (show_nat n) = show_nat n"
    using d digit_string_not(4) [OF d] by (intro strip_id) (simp_all add: digit_string_def)
  moreover have "int_digits False 0 (show_nat n) = Some n"
    using d read_show_nat [of n] int_digits_foldl [of "show_nat n" False 0]
    by (simp add: digit_string_def read_nat_def)
  moreover have "c \<noteq> CHR ''-''" "c \<noteq> CHR ''+''"
    using digit_string_not [OF d] s by auto
  ultimately show ?thesis
    unfolding py_int_def s by simp
qed

lemma strip_show_range:
  assumes "0 \<le> a" "0 \<le> b"
  shows "strip (show_range a b) = show_range a b" "strip ('' '' @ show_range a b) = show_range a b"
proof -
  let ?r = "show_range a b"
  obtain m n where ab: "show_int a = show_nat m" "show_int b = show_nat n"
    using assms by (auto simp: show_int_def)
  have d: "digit_string (show_nat m)" "digit_string (show_nat n)"
    by (rule digit_string_show_nat)+
  then have r: "?r \<noteq> []" "\<not> py_space (hd ?r)" "\<not> py_space (last ?r)"
    using digit_string_not(4) [OF d(1)] digit_string_not(4) [OF d(2)]
    by (auto simp: show_range_def ab digit_string_def)
  then show "strip ?r = ?r" by (rule strip_id)
  with r show "strip ('' '' @ ?r) = ?r"
    by (simp add: strip_def lstrip_def dropWhile_hd_neq py_space_def Let_def)
qed

lemma page_part_show_range:
  assumes "1 \<le> a" "a \<le> b" "strip raw = show_range a b"
  shows "page_part raw n = Inr (map (\<lambda>i. i - 1) (filter (\<lambda>i. 1 \<le> i \<and> i \<le> n) [a .. b]))"
proof -
  obtain m k where ab: "show_int a = show_nat m" "show_int b = show_nat k" "a = int m" "b = int k"
    using assms by (metis show_int_def nat_0_le less_le_not_le order_trans zero_le_one)
  have nodash: "\<forall>c \<in> set (show_nat x). c \<noteq> CHR ''-''" for x
    using digit_string_not(1) [OF digit_string_show_nat] by blast
  obtain c cs where m: "show_nat m = c # cs"
    using digit_string_show_nat [of m] by (auto simp: digit_string_def neq_Nil_conv)
  have pm: "py_int (c # cs) = Some a" and pk: "py_int (show_nat k) = Some b"
    using py_int_show_nat [of m] py_int_show_nat [of k] m ab by auto
  show ?thesis
  proof (cases "a = b")
    case True
    then have r: "show_range a b = c # cs" using ab m by (simp add: show_range_def)
    have dash: "takeWhile (\<lambda>c. c \<noteq> CHR ''-'') cs = cs"
      using nodash [of m] m by (simp add: takeWhile_eq_all_conv)
    show ?thesis
      using assms(1) r by (simp add: page_part_def page_number_def assms(3) dash pm True Let_def)
  next
    case False
    then have r: "show_range a b = c # cs @ CHR ''-'' # show_nat k" using ab m by (simp add: show_range_def)
    have dash: "takeWhile (\<lambda>c. c \<noteq> CHR ''-'') (cs @ CHR ''-'' # show_nat k) = cs"
      using nodash [of m] m by (simp add: takeWhile_tail)
    show ?thesis
      using assms(1,2) by (simp add: page_part_def page_range_def assms(3) r dash pm pk Let_def)
  qed
qed

fun page_runs :: "int \<Rightarrow> int \<Rightarrow> int list \<Rightarrow> (int \<times> int) list" where
  "page_runs start prev [] = [(start, prev)]"
| "page_runs start prev (p # ps) =
     (if p = prev + 1 then page_runs start p ps else (start, prev) # page_runs p p ps)"

lemma page_ranges_runs: "page_ranges start prev ps = map (\<lambda>(a, b). show_range a b) (page_runs start prev ps)"
  by (induction start prev ps rule: page_ranges.induct) auto

lemma page_runs_not_Nil [simp]: "page_runs start prev ps \<noteq> []"
  by (induction start prev ps rule: page_runs.induct) auto

lemma page_runs_concat:
  "start \<le> prev \<Longrightarrow> concat (map (\<lambda>(a, b). [a .. b]) (page_runs start prev ps)) = [start .. prev] @ ps"
  by (induction start prev ps rule: page_runs.induct) (auto simp: upto_rec2)

lemma page_runs_pos:
  "1 \<le> start \<Longrightarrow> start \<le> prev \<Longrightarrow> \<forall>p \<in> set ps. 1 \<le> p \<Longrightarrow>
     \<forall>(a, b) \<in> set (page_runs start prev ps). 1 \<le> a \<and> a \<le> b"
  by (induction start prev ps rule: page_runs.induct) auto

lemma page_parts_runs:
  assumes "\<forall>(a, b) \<in> set rs. 1 \<le> a \<and> a \<le> b" "list_all2 (\<lambda>raw (a, b). strip raw = show_range a b) raws rs"
  shows "page_parts raws n =
    Inr (map (\<lambda>i. i - 1) (filter (\<lambda>i. 1 \<le> i \<and> i \<le> n) (concat (map (\<lambda>(a, b). [a .. b]) rs))))"
  using assms(2,1)
  by (induction rule: list_all2_induct) (auto simp: page_part_show_range)

text \<open>
  The page list \<open>FileRead\<close> prints reads back as the same pages: parsing what \<open>_format_page_list\<close>
  writes for at most twenty pages of a document gives exactly those pages.
\<close>

lemma page_list_roundtrip:
  assumes "sorted pages" "distinct pages" "pages \<noteq> []" "length pages \<le> PDF_MAX_PAGES"
    and "set pages \<subseteq> {0 ..< n}"
  shows "parse_pages (Some (format_page_list pages)) n = Inr pages"
proof -
  obtain p ps where ps: "map (\<lambda>i. i + 1) pages = p # ps"
    using assms(3) by (cases pages) auto
  have all: "\<forall>i \<in> set (p # ps). 1 \<le> i \<and> i \<le> n"
    unfolding ps [symmetric] using assms(5) by auto
  let ?rs = "page_runs p p ps"
  have pos: "\<forall>(a, b) \<in> set ?rs. 1 \<le> a \<and> a \<le> b"
    using all by (intro page_runs_pos) auto
  have nocomma: "\<forall>s \<in> set (page_ranges p p ps). CHR '','' \<notin> set s"
  proof -
    have "CHR '','' \<notin> set (show_nat k)" for k
      using digit_string_not(2) [OF digit_string_show_nat] by blast
    then have "CHR '','' \<notin> set (show_range a b)" if "1 \<le> a" "a \<le> b" for a b
      using that by (auto simp: show_range_def show_int_def)
    then show ?thesis using pos by (auto simp: page_ranges_runs)
  qed
  let ?raws = "hd (page_ranges p p ps) # map (\<lambda>s. '' '' @ s) (tl (page_ranges p p ps))"
  have split: "split_on (CHR '','') (format_page_list pages) = ?raws"
    using split_on_join [of "page_ranges p p ps" "CHR '',''" "'' ''"] nocomma
    by (simp add: format_page_list_def ps page_ranges_runs)
  have strip: "strip (show_range a b) = show_range a b \<and> strip ('' '' @ show_range a b) = show_range a b"
    if "(a, b) \<in> set ?rs" for a b
    using pos that strip_show_range [of a b] by auto
  have "list_all2 (\<lambda>raw (a, b). strip raw = show_range a b) ?raws ?rs"
  proof (cases ?rs)
    case (Cons r rs)
    then show ?thesis
      using strip by (auto simp: page_ranges_runs list_all2_map1 intro!: list.rel_refl_strong)
  qed simp
  from page_parts_runs [OF pos this]
  have "page_parts ?raws n = Inr (map (\<lambda>i. i - 1) (filter (\<lambda>i. 1 \<le> i \<and> i \<le> n) ([p .. p] @ ps)))"
    by (simp only: page_runs_concat [OF order_refl])
  moreover have "filter (\<lambda>i. 1 \<le> i \<and> i \<le> n) ([p .. p] @ ps) = map (\<lambda>i. i + 1) pages"
    using all ps by (auto simp: filter_id_conv)
  ultimately have "page_parts ?raws n = Inr pages"
    by (simp add: comp_def)
  then show ?thesis
    using assms split by (simp add: parse_pages_def sorted_sort_id distinct_remdups_id Let_def not_less)
qed

lemma page_list_roundtrip_witness:
  "parse_pages (Some (format_page_list [0, 1, 2, 5, 7, 8])) 9 = Inr [0, 1, 2, 5, 7, 8]"
  by (rule page_list_roundtrip) (simp_all add: PDF_MAX_PAGES_def)

section \<open>Behind the authorizer\<close>

text \<open>
  The tools take their file from the field \<open>path\<close>, the plan-mode exception looks at \<open>file_path\<close>. An
  input as the schema has it never meets the exception, whatever file it names.
\<close>

lemma plan_file_write_denied:
  assumes "ctx_mode ctx = Plan" "no_grant env (write_tool sj fs pcwd) inp ctx st"
    and "map_of inp ''file_path'' = None"
  shows "fst (authorize env (write_tool sj fs pcwd) inp ctx st) =
    Permission_Deny ''plan mode forbids side effects'' (Reason_Mode Plan)"
  using assms
  by (simp add: authorize_plan write_tool_def base_tool_def is_mutating_def is_plan_file_write_def)

text \<open>
  C32: Plan mode can be escaped through the other field. A \<open>FileWrite\<close> call that names the session's
  plan file in \<open>file_path\<close> and any other file in \<open>path\<close> is valid, allowed in plan mode without a
  question, and writes the file in \<open>path\<close>.
\<close>

theorem plan_mode_escape:
  assumes "ctx_mode ctx = Plan" "no_grant env (write_tool sj fs pcwd) inp ctx st"
    and "map_of inp ''file_path'' = Some (JStr plan)" "plan \<noteq> []"
    and "fst (is_session_plan_file (env_plans env) plan (ctx_session_id ctx) (slugs st))"
    and "map_of inp ''path'' = Some (JStr target)" "target \<noteq> []"
    and "map_of inp ''content'' = Some (JStr content)"
  shows "write_validate inp = None
    \<and> fst (authorize env (write_tool sj fs pcwd) inp ctx st) = Permission_Allow (Reason_Mode Plan) None
    \<and> write_call sha cwd inp w = write_file sha (path_div cwd (path_of target)) content w"
  using assms
  by (simp add: authorize_plan write_tool_def base_tool_def is_mutating_def is_plan_file_write_def
      write_validate_def write_call_def call_path_def str_arg_def)

theorem plan_mode_escape_witness:
  "write_call (\<lambda>s. s) \<lparr>p_root = 1, p_parts = []\<rparr>
     [(''path'', JStr ''/w/a''), (''content'', JStr ''x''),
      (''file_path'', JStr (''/h/plans/'' @ generate_slug (0, 0) @ ''.md''))] (sample_files ''t'') =
   write_file (\<lambda>s. s) (path_div \<lparr>p_root = 1, p_parts = []\<rparr> (path_of ''/w/a'')) ''x'' (sample_files ''t'')"
proof -
  let ?plan = "''/h/plans/'' @ generate_slug (0, 0) @ ''.md''"
  let ?inp = "[(''path'', JStr ''/w/a''), (''content'', JStr ''x''), (''file_path'', JStr ?plan)]"
  let ?st = "(sample_state [])\<lparr>slugs := [''s'' \<mapsto> generate_slug (0, 0)]\<rparr>"
  let ?t = "write_tool (\<lambda>_. []) (sample_fs ''t'') \<lparr>p_root = 1, p_parts = []\<rparr>"
  have no_grant: "no_grant sample_env ?t ?inp (sample_ctx Plan) ?st"
    by (simp add: no_grant_def sample_defs cache_check_def cache_look_def)
  have own: "fst (is_session_plan_file (env_plans sample_env) ?plan (ctx_session_id (sample_ctx Plan)) (slugs ?st))"
    using own_plan_file_accepted [OF sample_clean slug_cache_ok_empty _ sample_own_plan]
    by (simp add: sample_env_def sample_ctx_def)
  have plan_mode: "ctx_mode (sample_ctx Plan) = Plan"
    by (simp add: sample_ctx_def)
  from plan_mode_escape [OF plan_mode no_grant _ _ own] show ?thesis by simp
qed

text \<open>
  What \<open>FileEdit\<close> rates as harmless stays in the session's directory, provided the process runs
  in it: if the risk assessment allows an edit without a question and the call changes anything, the
  one file it changes lies, after all links, under the directory of the session.
\<close>

lemma edit_allowed_inside:
  assumes "edit_default_risk sj (fw_fs w) pcwd inp ctx = Inr s" "sg_decision s = Allow"
    and "is_absolute (path_of (ctx_cwd ctx))" "pcwd = path_of (ctx_cwd ctx)"
    and "edit_call sha (path_of (ctx_cwd ctx)) inp w = (res, w')" "w' \<noteq> w"
  shows "\<exists>target node. fs_node (fw_fs w') = (fs_node (fw_fs w))(target \<mapsto> node)
    \<and> relative_to_ok target (fs_real (fw_fs w) (path_of (ctx_cwd ctx)))"
proof -
  obtain p old new where inp: "map_of inp ''path'' = Some (JStr p)"
      and e: "edit_file sha (path_div pcwd (path_of p)) old new (bool_arg inp ''replace_all'') w = (res, w')"
    using assms(4-6)
    by (auto simp: edit_call_def call_path_def str_arg_def split: sum.splits option.splits json.splits)
  have "inside (fw_fs w) pcwd (ctx_cwd ctx) p"
    using assms(1,2) inp by (auto simp: edit_default_risk_def path_text_def split: if_splits)
  then have "relative_to_ok (fs_real (fw_fs w) (path_div pcwd (path_of p)))
      (fs_real (fw_fs w) (path_of (ctx_cwd ctx)))"
    using assms(3) by (simp add: inside_def resolve_here_def path_div_def)
  with e assms(6) show ?thesis
    by (elim edit_file_changes) auto
qed

lemma sample_dir: "path_of ''/w'' = \<lparr>p_root = 1, p_parts = [''w'']\<rparr>"
  by code_simp

lemma edit_allowed_inside_witness:
  "\<exists>target. fs_node (fw_fs (snd (edit_call (\<lambda>s. s) (path_of ''/w'')
        [(''path'', JStr ''a''), (''old_string'', JStr ''b''), (''new_string'', JStr ''x'')]
        (sample_files ''abc'')))) target \<noteq> fs_node (sample_fs ''abc'') target
     \<and> relative_to_ok target \<lparr>p_root = 1, p_parts = [''w'']\<rparr>"
proof -
  let ?inp = "[(''path'', JStr ''a''), (''old_string'', JStr ''b''), (''new_string'', JStr ''x'')]"
  let ?ctx = "(sample_ctx Default)\<lparr>ctx_cwd := ''/w''\<rparr>" and ?w = "sample_files ''abc''"
  have paths: "path_div (path_of ''/w'') (path_of ''a'') = sample_path"
    by code_simp
  have run: "contains ''b'' (universal_newlines ''abc'')" "py_count ''b'' (universal_newlines ''abc'') \<le> 1"
      "replace_n ''b'' ''x'' 1 (universal_newlines ''abc'') = ''axc''"
    by code_simp+
  obtain res w' where e: "edit_file (\<lambda>s. s) sample_path ''b'' ''x'' False ?w = (res, w')"
      and n: "fs_node (fw_fs w') sample_path = Some (Regular (Utf8 ''axc'') 2)"
    using sample_edit [OF run(1,2)] run(3) by (metis prod.collapse)
  have call: "edit_call (\<lambda>s. s) (path_of (ctx_cwd ?ctx)) ?inp ?w = (res, w')"
    using e by (simp add: edit_call_def call_path_def str_arg_def bool_arg_def paths)
  have changed: "w' \<noteq> ?w" using n by auto
  have risk: "edit_default_risk (\<lambda>_. []) (fw_fs ?w) (path_of ''/w'') ?inp ?ctx =
      Inr \<lparr>sg_risk = Low, sg_decision = Allow, sg_reason = ''edit within cwd''\<rparr>"
    by (simp add: edit_default_risk_def path_text_def inside_def resolve_here_def paths)
       (simp add: sample_dir path_div_def is_absolute_def relative_to_ok_def sample_path_def)
  have absolute: "is_absolute (path_of (ctx_cwd ?ctx))" "path_of ''/w'' = path_of (ctx_cwd ?ctx)"
    by (simp_all add: sample_dir is_absolute_def)
  from edit_allowed_inside [OF risk _ absolute call changed] obtain target node where
      t: "fs_node (fw_fs w') = (fs_node (sample_fs ''abc''))(target \<mapsto> node)"
      "relative_to_ok target \<lparr>p_root = 1, p_parts = [''w'']\<rparr>"
    by (auto simp: sample_dir)
  moreover have "target = sample_path"
    using t(1) n by (auto split: if_splits)
  ultimately show ?thesis
    using call n by (intro exI [of _ sample_path]) simp
qed

text \<open>
  The proviso is needed: the assessment resolves a relative path from the directory of the process,
  the call from that of the session. Here \<open>../x\<close> is rated as a file in the session's directory \<open>/s\<close>
  and allowed, and the call is about \<open>/s/../x\<close>.
\<close>

definition lexical_fs :: file_system where
  "lexical_fs = \<lparr>fs_real = (\<lambda>p. p\<lparr>p_parts := norm_comps True [] (p_parts p)\<rparr>),
                 fs_node = (\<lambda>_. None), fs_denied = (\<lambda>_ _. None), fs_now = 0\<rparr>"

lemma risk_rates_other_file:
  fixes ctx :: authorize_context
  assumes "ctx_cwd ctx = ''/s''"
  shows "edit_default_risk sj lexical_fs (path_of ''/s/sub'') [(''path'', JStr ''../x'')] ctx =
      Inr \<lparr>sg_risk = Low, sg_decision = Allow, sg_reason = ''edit within cwd''\<rparr>"
    and "fs_real lexical_fs (path_div (path_of (ctx_cwd ctx)) (path_of ''../x'')) =
      \<lparr>p_root = 1, p_parts = [''x'']\<rparr>"
proof -
  have "inside lexical_fs (path_of ''/s/sub'') ''/s'' ''../x''" by code_simp
  then show "edit_default_risk sj lexical_fs (path_of ''/s/sub'') [(''path'', JStr ''../x'')] ctx =
      Inr \<lparr>sg_risk = Low, sg_decision = Allow, sg_reason = ''edit within cwd''\<rparr>"
    using assms by (simp add: edit_default_risk_def path_text_def)
  have "fs_real lexical_fs (path_div (path_of ''/s'') (path_of ''../x'')) = \<lparr>p_root = 1, p_parts = [''x'']\<rparr>"
    by code_simp
  with assms show "fs_real lexical_fs (path_div (path_of (ctx_cwd ctx)) (path_of ''../x'')) =
      \<lparr>p_root = 1, p_parts = [''x'']\<rparr>"
    by simp
qed

end
