(* ===== verification/Session_Log.thy ===== *)
theory Session_Log
  imports Query_Loop
begin

text \<open>
  The persisted side of a session: message serialisation (\<open>session/message_serde.py\<close>), the event
  rows and the store (\<open>session/persistence/event_schema.py\<close>, \<open>session/store.py\<close>), the single writer
  with spilling (\<open>persistence/event_writer.py\<close>, \<open>store_spillover.py\<close>), and the fold that rebuilds a
  session from its rows (\<open>session/lifecycle/load.py\<close>). A database write succeeds here; what a failing
  one does to a turn is in \<open>Turn_Queue\<close>.
\<close>

section \<open>Messages as dictionaries\<close>

definition dget :: "dict \<Rightarrow> string \<Rightarrow> json result" where
  "dget d k = (case map_of d k of Some j \<Rightarrow> Inr j | None \<Rightarrow> Inl ''KeyError'')"

text \<open>
  Typed access. The dataclasses would take a value of another type as it is; rows written by the code
  never hold one.
\<close>

definition dget_str :: "dict \<Rightarrow> string \<Rightarrow> string result" where
  "dget_str d k = bindR (dget d k) (\<lambda>j. case j of JStr s \<Rightarrow> Inr s | _ \<Rightarrow> Inl ''TypeError'')"

definition dget_list :: "dict \<Rightarrow> string \<Rightarrow> json list result" where
  "dget_list d k = bindR (dget d k) (\<lambda>j. case j of JArr xs \<Rightarrow> Inr xs | _ \<Rightarrow> Inl ''TypeError'')"

definition as_dict :: "json \<Rightarrow> dict result" where
  "as_dict j = (case j of JObj d \<Rightarrow> Inr d | _ \<Rightarrow> Inl ''AttributeError'')"

definition type_of :: "dict \<Rightarrow> string" where
  "type_of d = (case map_of d ''type'' of Some (JStr s) \<Rightarrow> s | _ \<Rightarrow> [])"

fun map_results :: "('a \<Rightarrow> 'b result) \<Rightarrow> 'a list \<Rightarrow> 'b list result" where
  "map_results f [] = Inr []"
| "map_results f (x # xs) = bindR (f x) (\<lambda>y. mapR ((#) y) (map_results f xs))"

lemma map_results_map:
  "(\<And>x. x \<in> set xs \<Longrightarrow> f (g x) = Inr x) \<Longrightarrow> map_results f (map g xs) = Inr xs"
  by (induction xs) auto

text \<open>\<open>dataclasses.asdict\<close> of the content blocks and messages.\<close>

definition ser_text :: "string \<Rightarrow> json" where
  "ser_text s = JObj [(''text'', JStr s), (''type'', JStr ''text'')]"

definition ser_image :: "string \<Rightarrow> string \<Rightarrow> json" where
  "ser_image mt b64 = JObj [(''media_type'', JStr mt), (''data_base64'', JStr b64), (''type'', JStr ''image'')]"

fun ser_media :: "media_block \<Rightarrow> json" where
  "ser_media (Media_Text s) = ser_text s"
| "ser_media (Media_Image mt b) = ser_image mt b"

fun ser_result_content :: "result_content \<Rightarrow> json" where
  "ser_result_content (Content_Text s) = JStr s"
| "ser_result_content (Content_Blocks bs) = JArr (map ser_media bs)"

fun ser_user :: "user_block \<Rightarrow> json" where
  "ser_user (User_Text s) = ser_text s"
| "ser_user (User_Image mt b) = ser_image mt b"
| "ser_user (User_Result r) =
     JObj [(''tool_use_id'', JStr (rb_tool_use_id r)), (''content'', ser_result_content (rb_content r)),
           (''is_error'', JBool (rb_is_error r)), (''type'', JStr ''tool_result'')]"

fun ser_assistant :: "assistant_block \<Rightarrow> json" where
  "ser_assistant (Assistant_Text s) = ser_text s"
| "ser_assistant (Assistant_Tool_Use i n d) =
     JObj [(''id'', JStr i), (''name'', JStr n), (''input'', JObj d), (''type'', JStr ''tool_use'')]"
| "ser_assistant (Assistant_Thinking t s) =
     JObj [(''thinking'', JStr t), (''signature'', JStr s), (''type'', JStr ''thinking'')]"

fun serialize_message :: "message \<Rightarrow> dict" where
  "serialize_message (User_Message bs) =
     [(''content'', JArr (map ser_user bs)), (''role'', JStr ''user'')]"
| "serialize_message (Assistant_Message bs) =
     [(''content'', JArr (map ser_assistant bs)), (''role'', JStr ''assistant'')]"

text \<open>Reading back. \<open>str_dict\<close> is \<open>str\<close> of a dictionary, which stands in for an unknown block.\<close>

definition de_text :: "dict \<Rightarrow> string result" where
  "de_text d = dget_str d ''text''"

definition deserialize_tool_result_block :: "(dict \<Rightarrow> string) \<Rightarrow> json \<Rightarrow> media_block result" where
  "deserialize_tool_result_block str_dict j = bindR (as_dict j) (\<lambda>d.
     if type_of d = ''text'' then mapR Media_Text (de_text d)
     else if type_of d = ''image'' then
       bindR (dget_str d ''media_type'') (\<lambda>mt. mapR (Media_Image mt) (dget_str d ''data_base64''))
     else Inr (Media_Text (str_dict d)))"

definition bool_or :: "dict \<Rightarrow> string \<Rightarrow> bool \<Rightarrow> bool result" where
  "bool_or d k b = (case map_of d k of None \<Rightarrow> Inr b | Some (JBool x) \<Rightarrow> Inr x | Some _ \<Rightarrow> Inl ''TypeError'')"

definition deserialize_user_content :: "(dict \<Rightarrow> string) \<Rightarrow> json \<Rightarrow> user_block result" where
  "deserialize_user_content str_dict j = bindR (as_dict j) (\<lambda>d.
     if type_of d = ''text'' then mapR User_Text (de_text d)
     else if type_of d = ''image'' then
       bindR (dget_str d ''media_type'') (\<lambda>mt. mapR (User_Image mt) (dget_str d ''data_base64''))
     else if type_of d = ''tool_result'' then
       bindR (dget d ''content'') (\<lambda>raw.
       bindR (case raw of
                JStr s \<Rightarrow> Inr (Content_Text s)
              | JArr xs \<Rightarrow> mapR Content_Blocks (map_results (deserialize_tool_result_block str_dict) xs)
              | _ \<Rightarrow> Inl ''TypeError'') (\<lambda>content.
       bindR (dget_str d ''tool_use_id'') (\<lambda>i.
       mapR (\<lambda>e. User_Result \<lparr>rb_tool_use_id = i, rb_content = content, rb_is_error = e\<rparr>)
         (bool_or d ''is_error'' False))))
     else Inr (User_Text (str_dict d)))"

definition deserialize_assistant_content :: "(dict \<Rightarrow> string) \<Rightarrow> json \<Rightarrow> assistant_block result" where
  "deserialize_assistant_content str_dict j = bindR (as_dict j) (\<lambda>d.
     if type_of d = ''text'' then mapR Assistant_Text (de_text d)
     else if type_of d = ''tool_use'' then
       bindR (dget_str d ''id'') (\<lambda>i. bindR (dget_str d ''name'') (\<lambda>n.
       bindR (dget d ''input'') (\<lambda>x. mapR (Assistant_Tool_Use i n) (as_dict x))))
     else if type_of d = ''thinking'' then
       bindR (dget_str d ''thinking'') (\<lambda>t. mapR (Assistant_Thinking t) (dget_str d ''signature''))
     else Inr (Assistant_Text (str_dict d)))"

definition deserialize_message :: "(dict \<Rightarrow> string) \<Rightarrow> dict \<Rightarrow> message result" where
  "deserialize_message str_dict d =
     (let role = map_of d ''role'' in
      if role = Some (JStr ''user'') then
        bindR (dget_list d ''content'') (\<lambda>bs.
          mapR User_Message (map_results (deserialize_user_content str_dict) bs))
      else if role = Some (JStr ''assistant'') then
        bindR (dget_list d ''content'') (\<lambda>bs.
          mapR Assistant_Message (map_results (deserialize_assistant_content str_dict) bs))
      else Inl ''Unknown message role'')"

lemmas serde_defs = ser_text_def ser_image_def as_dict_def type_of_def de_text_def dget_str_def dget_def
  dget_list_def bool_or_def

lemma deserialize_media [simp]: "deserialize_tool_result_block sd (ser_media b) = Inr b"
  by (cases b) (simp_all add: deserialize_tool_result_block_def serde_defs)

lemma deserialize_user [simp]: "deserialize_user_content sd (ser_user b) = Inr b"
proof (cases b)
  case (User_Result r)
  then show ?thesis
    by (cases "rb_content r") (simp_all add: deserialize_user_content_def serde_defs map_results_map)
qed (simp_all add: deserialize_user_content_def serde_defs)

lemma deserialize_assistant [simp]: "deserialize_assistant_content sd (ser_assistant b) = Inr b"
  by (cases b) (simp_all add: deserialize_assistant_content_def serde_defs)

lemma message_roundtrip: "deserialize_message sd (serialize_message m) = Inr m"
  by (cases m) (simp_all add: deserialize_message_def dget_list_def dget_def map_results_map)

section \<open>Events\<close>

datatype event_body =
  Session_Created "dict list"
| Session_Loaded
| User_Message_Row "dict list" "string option"
| Agent_Message_Row "dict list"
| Agent_Thought_Row "dict list"
| Plan_Row "dict list"
| Tool_Call_Row string string string "string option"
| Tool_Update_Row string string "dict list option" "dict list option"
| Sub_Agent_Spawned string string string
| Sub_Agent_Completed string string
| Permission_Request_Row string string string string
| Permission_Response_Row string string
| Mode_Changed_Row string "string option"
| Config_Changed_Row string string dict
| Commands_Changed_Row "dict list"
| Plan_Updated_Row string string
| Info_Changed_Row "string option"
| Turn_Started_Row json
| Turn_Completed_Row json string int int int
| Turn_Cancelled_Row json
| Conversation_Message_Row dict
| Conversation_Snapshot_Row "dict list"

record session_event =
  ev_id :: string
  ev_parent :: "string option"
  ev_time :: time
  ev_session :: string
  ev_depth :: nat
  ev_cwd :: string
  ev_branch :: "string option"
  ev_body :: event_body

section \<open>The store\<close>

record conversation_record =
  cv_session_id :: string
  cv_cwd :: string
  cv_title :: "string option"
  cv_title_source :: "string option"
  cv_archived_at :: "time option"
  cv_created :: time
  cv_modified :: time
  cv_input_tokens :: int
  cv_output_tokens :: int

text \<open>
  An event row holds the JSON text of its event; \<open>None\<close> is a text that does not parse. Timestamps are
  stored as ISO strings of one fixed offset, whose order is that of the times.
\<close>

record event_row =
  er_session :: string
  er_time :: time
  er_context :: "session_event option"

record session_store =
  st_records :: "conversation_record list"
  st_rows :: "event_row list"
  st_spilled :: "string \<times> string \<Rightarrow> string option"

definition row_of :: "session_event \<Rightarrow> event_row" where
  "row_of e = \<lparr>er_session = ev_session e, er_time = ev_time e, er_context = Some e\<rparr>"

text \<open>The primary key of the session table: a second record of one session raises.\<close>

definition create_session_with_events ::
    "conversation_record \<Rightarrow> session_event list \<Rightarrow> session_store \<Rightarrow> unit result \<times> session_store" where
  "create_session_with_events r evs st =
     (if \<exists>x \<in> set (st_records st). cv_session_id x = cv_session_id r then (Inl ''IntegrityError'', st)
      else (Inr (), st\<lparr>st_records := st_records st @ [r], st_rows := st_rows st @ map row_of evs\<rparr>))"

definition update_record ::
    "string \<Rightarrow> (conversation_record \<Rightarrow> conversation_record) \<Rightarrow> session_store \<Rightarrow> session_store" where
  "update_record sid f st =
     st\<lparr>st_records := map (\<lambda>r. if cv_session_id r = sid then f r else r) (st_records st)\<rparr>"

definition append_event ::
    "time \<Rightarrow> string \<Rightarrow> session_event \<Rightarrow> (int \<times> int) option \<Rightarrow> session_store \<Rightarrow> session_store" where
  "append_event now sid e tokens st =
     (let st' = st\<lparr>st_rows := st_rows st @ [row_of e]\<rparr> in
      case tokens of
        None \<Rightarrow> st'
      | Some (i, out) \<Rightarrow>
          update_record sid (\<lambda>r. r\<lparr>cv_modified := now, cv_input_tokens := cv_input_tokens r + i,
                                   cv_output_tokens := cv_output_tokens r + out\<rparr>) st')"

definition update_title ::
    "time \<Rightarrow> string \<Rightarrow> string \<Rightarrow> string option \<Rightarrow> session_store \<Rightarrow> session_store" where
  "update_title now sid title marker st =
     update_record sid (\<lambda>r. r\<lparr>cv_title := Some title, cv_modified := now,
       cv_title_source := (if marker = None then cv_title_source r else marker)\<rparr>) st"

definition store_get_session :: "string \<Rightarrow> session_store \<Rightarrow> conversation_record option" where
  "store_get_session sid st = find (\<lambda>r. cv_session_id r = sid) (st_records st)"

definition store_archive :: "time \<Rightarrow> string \<Rightarrow> time option \<Rightarrow> session_store \<Rightarrow> bool \<times> session_store" where
  "store_archive now sid when st =
     (store_get_session sid st \<noteq> None,
      update_record sid (\<lambda>r. r\<lparr>cv_archived_at := when, cv_modified := now\<rparr>) st)"

definition store_delete :: "string \<Rightarrow> session_store \<Rightarrow> bool \<times> session_store" where
  "store_delete sid st =
     (store_get_session sid st \<noteq> None,
      st\<lparr>st_records := filter (\<lambda>r. cv_session_id r \<noteq> sid) (st_records st),
         st_rows := filter (\<lambda>r. er_session r \<noteq> sid) (st_rows st)\<rparr>)"

text \<open>\<open>ORDER BY timestamp\<close>; rows of the same time come in the order they were inserted.\<close>

definition read_events :: "string \<Rightarrow> session_store \<Rightarrow> session_event list" where
  "read_events sid st =
     concat (map (\<lambda>r. case er_context r of Some e \<Rightarrow> [e] | None \<Rightarrow> [])
       (sort_key er_time (filter (\<lambda>r. er_session r = sid) (st_rows st))))"

text \<open>\<open>ORDER BY modified DESC\<close> over the archived, the unarchived or all records.\<close>

definition store_list_sessions :: "bool \<Rightarrow> bool \<Rightarrow> session_store \<Rightarrow> conversation_record list" where
  "store_list_sessions include_archived archived_only st =
     sort_key (\<lambda>r. - cv_modified r)
       (filter (\<lambda>r. if archived_only then cv_archived_at r \<noteq> None
                    else include_archived \<or> cv_archived_at r = None) (st_records st))"

section \<open>The session and the writer\<close>

text \<open>
  The in-memory session; of its orchestrator the mode and the history it was built with are kept here.
  \<open>ss_senders\<close> are connection ids in the order they attached.
\<close>

record session =
  ss_id :: string
  ss_cwd :: string
  ss_created :: time
  ss_updated :: time
  ss_title :: "string option"
  ss_branch :: "string option"
  ss_mode :: "string option"
  ss_config :: "(string \<times> string) list"
  ss_mcp :: "dict list"
  ss_orch_mode :: string
  ss_history :: "message list"
  ss_senders :: "string list"
  ss_last_event :: "string option"
  ss_pre_plan :: "string option"
  ss_exited_plan :: bool
  ss_needs_exit_note :: bool
  ss_pending_modes :: "(string option \<times> string) list"
  ss_reminders :: "string list"
  ss_depth :: nat

text \<open>
  What the writer asks of its environment: fresh ids, the clock, tokens for sidecar files and whether
  writing one fails. Each is indexed by a counter of the calls so far.
\<close>

record session_env =
  se_uuid :: "nat \<Rightarrow> string"
  se_now :: "nat \<Rightarrow> time"
  se_token :: "nat \<Rightarrow> string"
  se_spill_fails :: "nat \<Rightarrow> bool"
  se_inline_limit :: nat

record log_state =
  lg_session :: session
  lg_store :: session_store
  lg_tick :: nat

definition write_event ::
    "session_env \<Rightarrow> event_body \<Rightarrow> (int \<times> int) option \<Rightarrow> 'a log_state_scheme \<Rightarrow> 'a log_state_scheme" where
  "write_event env body tokens st =
     (let s = lg_session st; n = lg_tick st; now = se_now env n; eid = ''ev_'' @ se_uuid env n;
          e = \<lparr>ev_id = eid, ev_parent = ss_last_event s, ev_time = now, ev_session = ss_id s,
               ev_depth = 0, ev_cwd = ss_cwd s, ev_branch = ss_branch s, ev_body = body\<rparr>
      in st\<lparr>lg_store := append_event now (ss_id s) e tokens (lg_store st),
            lg_session := s\<lparr>ss_last_event := Some eid, ss_updated := now\<rparr>,
            lg_tick := Suc n\<rparr>)"

text \<open>
  \<open>_blocks_to_raw\<close>: a block is a pydantic model with its dump, a dictionary, or some other object,
  which is dropped.
\<close>

datatype raw_source = Model_Block dict | Dict_Block dict | Opaque_Block

fun blocks_to_raw :: "raw_source list \<Rightarrow> dict list" where
  "blocks_to_raw [] = []"
| "blocks_to_raw (Model_Block d # bs) = d # blocks_to_raw bs"
| "blocks_to_raw (Dict_Block d # bs) = d # blocks_to_raw bs"
| "blocks_to_raw (Opaque_Block # bs) = blocks_to_raw bs"

definition text_field :: "dict \<Rightarrow> string" where
  "text_field d = (case map_of d ''text'' of Some (JStr s) \<Rightarrow> s | _ \<Rightarrow> [])"

definition inline_text :: "dict list \<Rightarrow> string" where
  "inline_text content = join '' '' (map text_field (filter (\<lambda>d. type_of d = ''text'') content))"

definition write_spilled ::
    "session_env \<Rightarrow> string \<Rightarrow> string \<Rightarrow> 'a log_state_scheme
       \<Rightarrow> (string \<times> string) result \<times> 'a log_state_scheme" where
  "write_spilled env sid content st =
     (let n = lg_tick st; h = se_token env n; st' = st\<lparr>lg_tick := Suc n\<rparr> in
      if se_spill_fails env n then (Inl ''OSError'', st')
      else (Inr (sid @ ''/tool-results/'' @ h @ ''.txt'', h),
            st'\<lparr>lg_store := (lg_store st)\<lparr>st_spilled := (st_spilled (lg_store st))((sid, h) \<mapsto> content)\<rparr>\<rparr>))"

definition read_spilled :: "string \<Rightarrow> string \<Rightarrow> session_store \<Rightarrow> string result" where
  "read_spilled sid h st =
     (case st_spilled st (sid, h) of Some s \<Rightarrow> Inr s | None \<Rightarrow> Inl ''FileNotFoundError'')"

definition maybe_spill ::
    "session_env \<Rightarrow> dict list \<Rightarrow> 'a log_state_scheme \<Rightarrow> dict list \<times> 'a log_state_scheme" where
  "maybe_spill env content st =
     (let s = inline_text content in
      if length (utf8 s) \<le> se_inline_limit env then (content, st)
      else (let (res, st') = write_spilled env (ss_id (lg_session st)) s st in
            case res of
              Inl _ \<Rightarrow> (content, st')
            | Inr (path, _) \<Rightarrow>
                ([[(''type'', JStr ''spilled''), (''path'', JStr path), (''size'', JInt (int (length s))),
                   (''preview'', JStr (take 200 s))]], st')))"

section \<open>Rebuilding a session\<close>

text \<open>\<open>_LoadedSessionState\<close>; \<open>None\<close> stands for the defaults taken from the clock and the process.\<close>

record loaded_state =
  ld_cwd :: "string option"
  ld_branch :: "string option"
  ld_mode :: "string option"
  ld_config :: "(string \<times> string) list"
  ld_mcp :: "dict list"
  ld_title :: "string option"
  ld_created :: "time option"
  ld_updated :: "time option"
  ld_last_event :: "string option"
  ld_history :: "message list"

definition fresh_loaded :: loaded_state where
  "fresh_loaded = \<lparr>ld_cwd = None, ld_branch = None, ld_mode = None, ld_config = [], ld_mcp = [],
     ld_title = None, ld_created = None, ld_updated = None, ld_last_event = None, ld_history = []\<rparr>"

definition replace_from_snapshot :: "(dict \<Rightarrow> string) \<Rightarrow> dict list \<Rightarrow> message list \<Rightarrow> message list" where
  "replace_from_snapshot sd ds h =
     (case map_results (deserialize_message sd) ds of Inl _ \<Rightarrow> h | Inr ms \<Rightarrow> ms)"

text \<open>Of two assistant messages in a row the later one stays.\<close>

definition append_history :: "message \<Rightarrow> message list \<Rightarrow> message list" where
  "append_history m h =
     (if h \<noteq> [] \<and> \<not> is_user (last h) \<and> \<not> is_user m then butlast h @ [m] else h @ [m])"

definition append_history_message :: "(dict \<Rightarrow> string) \<Rightarrow> dict \<Rightarrow> message list \<Rightarrow> message list" where
  "append_history_message sd d h =
     (case deserialize_message sd d of Inl _ \<Rightarrow> h | Inr m \<Rightarrow> append_history m h)"

definition apply_event :: "(dict \<Rightarrow> string) \<Rightarrow> session_event \<Rightarrow> loaded_state \<Rightarrow> loaded_state" where
  "apply_event sd e ld0 =
     (let ld = ld0\<lparr>ld_last_event := Some (ev_id e), ld_updated := Some (ev_time e)\<rparr> in
      case ev_body e of
        Session_Created mcp \<Rightarrow>
          ld\<lparr>ld_cwd := Some (ev_cwd e), ld_branch := ev_branch e, ld_mcp := mcp,
             ld_created := Some (ev_time e)\<rparr>
      | Mode_Changed_Row m _ \<Rightarrow> ld\<lparr>ld_mode := Some m\<rparr>
      | Config_Changed_Row k v _ \<Rightarrow> if k = [] then ld else ld\<lparr>ld_config := AList.update k v (ld_config ld)\<rparr>
      | Info_Changed_Row t \<Rightarrow>
          (case t of Some s \<Rightarrow> if s = [] then ld else ld\<lparr>ld_title := Some s\<rparr> | None \<Rightarrow> ld)
      | Conversation_Snapshot_Row ds \<Rightarrow> ld\<lparr>ld_history := replace_from_snapshot sd ds (ld_history ld)\<rparr>
      | Conversation_Message_Row d \<Rightarrow> ld\<lparr>ld_history := append_history_message sd d (ld_history ld)\<rparr>
      | _ \<Rightarrow> ld)"

definition reconstruct_state :: "(dict \<Rightarrow> string) \<Rightarrow> session_event list \<Rightarrow> loaded_state" where
  "reconstruct_state sd evs = fold (apply_event sd) evs fresh_loaded"

text \<open>
  \<open>_load_from_disk\<close>: the session built from the fold. The orchestrator is made with the history and
  no configuration, so it starts in its default mode. \<open>pcwd\<close> and \<open>now\<close> are the defaults, \<open>worktree\<close>
  the path a restored worktree has.
\<close>

definition load_from_disk ::
    "(dict \<Rightarrow> string) \<Rightarrow> string \<Rightarrow> time \<Rightarrow> string option \<Rightarrow> string \<Rightarrow> session_store \<Rightarrow> session" where
  "load_from_disk sd pcwd now worktree sid st =
     (let ld = reconstruct_state sd (read_events sid st);
          cwd = (case ld_cwd ld of Some c \<Rightarrow> c | None \<Rightarrow> pcwd)
      in \<lparr>ss_id = sid, ss_cwd = (case worktree of Some t \<Rightarrow> t | None \<Rightarrow> cwd),
          ss_created = (case ld_created ld of Some t \<Rightarrow> t | None \<Rightarrow> now),
          ss_updated = (case ld_updated ld of Some t \<Rightarrow> t | None \<Rightarrow> now),
          ss_title = ld_title ld, ss_branch = ld_branch ld, ss_mode = ld_mode ld,
          ss_config = ld_config ld, ss_mcp = ld_mcp ld, ss_orch_mode = ''default'',
          ss_history = ld_history ld, ss_senders = [], ss_last_event = ld_last_event ld,
          ss_pre_plan = None, ss_exited_plan = False, ss_needs_exit_note = False,
          ss_pending_modes = [], ss_reminders = [], ss_depth = 0\<rparr>)"

end
