(* ===== verification/Session_Stream.thy ===== *)
theory Session_Stream
  imports Session_Log Files
begin

text \<open>
  The live side of a session: updates and their broadcast (\<open>session/client_stream/broadcast.py\<close>), the
  translation of orchestrator events into rows and updates (\<open>client_stream/event_mapper.py\<close>), the
  replay of rows to a joining client (\<open>client_stream/replay.py\<close>), the mode and option descriptors
  (\<open>runtime/config_options.py\<close>), and what one prompt turn writes (\<open>turns/runner.py\<close>; who runs when is in
  \<open>Turn_Queue\<close>). The database and the fire-and-forget title update succeed.
\<close>

section \<open>Updates\<close>

text \<open>
  A \<open>session/update\<close>. The option descriptors depend only on the current mode, which stands for them. A
  chunk carries the metadata of a sub-agent bracket, if any. The last three are sent by \<open>User_Repl\<close>.
\<close>

datatype update =
  Agent_Chunk string dict
| Thought_Chunk_Update string
| User_Chunk string
| Tool_Start_Update string string string "string option"
| Tool_Status_Update string string "dict list option" "(string \<times> json option) list option"
| Plan_Update_Sent "dict list"
| Mode_Update string
| Config_Update string
| Info_Update "string option" time
| Commands_Update "dict list"
| User_Start_Update string string string "string option" bool
| User_Output_Update string string string string
| User_End_Update string string int bool

text \<open>\<open>se_notify n conn u\<close>: whether the \<open>n\<close>-th notification gets through.\<close>

record stream_env = session_env +
  se_notify :: "nat \<Rightarrow> string \<Rightarrow> update \<Rightarrow> bool"
  se_str :: "json \<Rightarrow> string"

record stream_state = log_state +
  sm_sent :: "(string \<times> update) list"

text \<open>Every sender is tried in turn; those that failed are removed afterwards.\<close>

fun notify_all ::
    "stream_env \<Rightarrow> update \<Rightarrow> string list \<Rightarrow> nat \<Rightarrow> (string \<times> update) list \<times> string list \<times> nat" where
  "notify_all env u [] n = ([], [], n)"
| "notify_all env u (c # cs) n =
     (let (sent, dead, n') = notify_all env u cs (Suc n) in
      if se_notify env n c u then ((c, u) # sent, dead, n') else (sent, c # dead, n'))"

definition broadcast :: "stream_env \<Rightarrow> update \<Rightarrow> stream_state \<Rightarrow> stream_state" where
  "broadcast env u st =
     (let s = lg_session st; (sent, dead, n) = notify_all env u (ss_senders s) (lg_tick st) in
      st\<lparr>sm_sent := sm_sent st @ sent, lg_tick := n,
         lg_session := s\<lparr>ss_senders := filter (\<lambda>c. c \<notin> set dead) (ss_senders s)\<rparr>\<rparr>)"

definition put_event :: "stream_env \<Rightarrow> event_body \<Rightarrow> stream_state \<Rightarrow> stream_state" where
  "put_event env body = write_event (session_env.truncate env) body None"

section \<open>Modes and options\<close>

definition DEFAULT_MODE_ID :: string where "DEFAULT_MODE_ID = ''default''"
definition PLAN_MODE_ID :: string where "PLAN_MODE_ID = ''plan''"
definition MODE_CONFIG_ID :: string where "MODE_CONFIG_ID = ''mode''"

definition normalise_mode_id :: "string option \<Rightarrow> string" where
  "normalise_mode_id m = (case m of Some s \<Rightarrow> if s = [] then DEFAULT_MODE_ID else s | None \<Rightarrow> DEFAULT_MODE_ID)"

definition validate_mode_id :: "string \<Rightarrow> string result" where
  "validate_mode_id m = (if m \<in> {DEFAULT_MODE_ID, PLAN_MODE_ID} then Inr m else Inl ''ValueError'')"

text \<open>The current mode \<open>config_descriptors\<close> shows, from the values and the session's mode.\<close>

definition shown_mode :: "(string \<Rightarrow> json option) \<Rightarrow> (json \<Rightarrow> string) \<Rightarrow> string option \<Rightarrow> string" where
  "shown_mode values str m =
     (case values MODE_CONFIG_ID of
        Some j \<Rightarrow> if json_truthy j then (case j of JStr s \<Rightarrow> s | _ \<Rightarrow> str j) else normalise_mode_id m
      | None \<Rightarrow> normalise_mode_id m)"

section \<open>Orchestrator events\<close>

datatype turn_event =
  Ev_Text string
| Ev_Thought string
| Ev_Tool_Start string string tool_kind "string option"
| Ev_Tool_Progress string "raw_source list"
| Ev_Tool_Result string "raw_source list"
| Ev_Tool_Error string string
| Ev_Tool_Diff string string "string option" string
| Ev_Tool_Locations string "(string \<times> json option) list"
| Ev_Plan "dict list"
| Ev_Mode string
| Ev_Config dict
| Ev_Info "string option"
| Ev_Commands "dict list"
| Ev_Sub_Start string string string
| Ev_Sub_End string string
| Ev_History_Append message
| Ev_History_Snapshot "message list"
| Ev_Other

fun kind_value :: "tool_kind \<Rightarrow> string" where
  "kind_value Read = ''read''"
| "kind_value Search = ''search''"
| "kind_value Fetch = ''fetch''"
| "kind_value Think = ''think''"
| "kind_value Orchestrate = ''orchestrate''"
| "kind_value Edit = ''edit''"
| "kind_value Delete = ''delete''"
| "kind_value Move = ''move''"
| "kind_value Execute = ''execute''"
| "kind_value Other = ''other''"

definition acp_tool_kind :: "string \<Rightarrow> string" where
  "acp_tool_kind k =
     (if k \<in> {''read'', ''edit'', ''execute'', ''search'', ''fetch'', ''think'', ''delete'', ''move'', ''other''}
      then k else ''other'')"

text \<open>\<open>_emit_tool_update\<close>: the row gets the persisted form, the clients the given one.\<close>

definition emit_tool_update ::
    "stream_env \<Rightarrow> string \<Rightarrow> string \<Rightarrow> dict list \<Rightarrow> dict list option \<Rightarrow> stream_state \<Rightarrow> stream_state" where
  "emit_tool_update env i status content persisted st =
     broadcast env (Tool_Status_Update i status (Some content) None)
       (put_event env (Tool_Update_Row i status
          (Some (case persisted of Some p \<Rightarrow> p | None \<Rightarrow> content)) None) st)"

definition handle_tool_result :: "stream_env \<Rightarrow> string \<Rightarrow> raw_source list \<Rightarrow> stream_state \<Rightarrow> stream_state" where
  "handle_tool_result env i blocks st =
     (let content = blocks_to_raw blocks;
          (persisted, st') = maybe_spill (session_env.truncate env) content st
      in emit_tool_update env i ''completed'' content (Some persisted) st')"

definition handle_config_options :: "stream_env \<Rightarrow> dict \<Rightarrow> stream_state \<Rightarrow> stream_state" where
  "handle_config_options env d st =
     (let s = lg_session st;
          str = (\<lambda>j. case j of JStr x \<Rightarrow> x | _ \<Rightarrow> se_str env j);
          s' = s\<lparr>ss_config := fold (\<lambda>(k, j). AList.update k (str j)) d (ss_config s)\<rparr>
      in broadcast env (Config_Update (shown_mode (map_of d) (se_str env) None))
           (put_event env (Config_Changed_Row [] [] d) (st\<lparr>lg_session := s'\<rparr>)))"

definition handle_info :: "stream_env \<Rightarrow> string option \<Rightarrow> stream_state \<Rightarrow> stream_state" where
  "handle_info env title st =
     (let s = lg_session st;
          finish = (\<lambda>st. broadcast env (Info_Update title (se_now env (lg_tick st)))
                           (put_event env (Info_Changed_Row title) st))
      in case title of
           None \<Rightarrow> finish st
         | Some t \<Rightarrow>
             (case store_get_session (ss_id s) (lg_store st) of
                Some r \<Rightarrow>
                  if cv_title_source r = Some ''user'' then st
                  else finish (st\<lparr>lg_session := s\<lparr>ss_title := Some t\<rparr>,
                         lg_store := update_title (se_now env (lg_tick st)) (ss_id s) t (Some ''auto'') (lg_store st)\<rparr>)
              | None \<Rightarrow>
                  finish (st\<lparr>lg_session := s\<lparr>ss_title := Some t\<rparr>\<rparr>)))"

definition handle_sub_start ::
    "stream_env \<Rightarrow> string \<Rightarrow> string \<Rightarrow> string \<Rightarrow> stream_state \<Rightarrow> stream_state" where
  "handle_sub_start env i ty d st =
     (let s = lg_session st in
      broadcast env (Agent_Chunk [] [(''mustang/agent_start'', JObj [(''agent_id'', JStr i),
                       (''agent_type'', JStr ty), (''description'', JStr d)])])
        (put_event env (Sub_Agent_Spawned i ty d) (st\<lparr>lg_session := s\<lparr>ss_depth := ss_depth s + 1\<rparr>\<rparr>)))"

definition handle_sub_end :: "stream_env \<Rightarrow> string \<Rightarrow> string \<Rightarrow> stream_state \<Rightarrow> stream_state" where
  "handle_sub_end env i reason st =
     (let s = lg_session st in
      broadcast env (Agent_Chunk [] [(''mustang/agent_end'', JObj [(''agent_id'', JStr i),
                       (''stop_reason'', JStr reason)])])
        (put_event env (Sub_Agent_Completed i reason) (st\<lparr>lg_session := s\<lparr>ss_depth := ss_depth s - 1\<rparr>\<rparr>)))"

definition handle_mode :: "stream_env \<Rightarrow> string \<Rightarrow> stream_state \<Rightarrow> stream_state" where
  "handle_mode env m st =
     (let s = lg_session st in
      broadcast env (Mode_Update m)
        (put_event env (Mode_Changed_Row m (ss_mode s)) (st\<lparr>lg_session := s\<lparr>ss_mode := Some m\<rparr>\<rparr>)))"

text \<open>The dispatcher; the accumulated texts and thoughts of the turn go along.\<close>

type_synonym accumulated = "string list \<times> string list"

fun handle_event ::
    "stream_env \<Rightarrow> turn_event \<Rightarrow> accumulated \<times> stream_state \<Rightarrow> accumulated \<times> stream_state" where
  "handle_event env (Ev_Text s) ((ts, hs), st) = ((ts @ [s], hs), broadcast env (Agent_Chunk s []) st)"
| "handle_event env (Ev_Thought s) ((ts, hs), st) =
     ((ts, hs @ [s]), broadcast env (Thought_Chunk_Update s) st)"
| "handle_event env (Ev_Tool_Start i title k raw) (acc, st) =
     (acc, broadcast env (Tool_Start_Update i title (acp_tool_kind (kind_value k)) raw)
             (put_event env (Tool_Call_Row i title (acp_tool_kind (kind_value k)) raw) st))"
| "handle_event env (Ev_Tool_Progress i bs) (acc, st) =
     (acc, emit_tool_update env i ''in_progress'' (blocks_to_raw bs) None st)"
| "handle_event env (Ev_Tool_Result i bs) (acc, st) = (acc, handle_tool_result env i bs st)"
| "handle_event env (Ev_Tool_Error i e) (acc, st) =
     (acc, emit_tool_update env i ''failed'' [[(''type'', JStr ''text''), (''text'', JStr e)]] None st)"
| "handle_event env (Ev_Tool_Diff i p old new) (acc, st) =
     (acc, emit_tool_update env i ''completed''
       [[(''type'', JStr ''diff''), (''path'', JStr p),
         (''old_text'', case old of Some s \<Rightarrow> JStr s | None \<Rightarrow> JNull), (''new_text'', JStr new)]] None st)"
| "handle_event env (Ev_Tool_Locations i ls) (acc, st) =
     (acc, broadcast env (Tool_Status_Update i ''in_progress'' None (Some ls)) st)"
| "handle_event env (Ev_Plan es) (acc, st) =
     (acc, broadcast env (Plan_Update_Sent es) (put_event env (Plan_Row es) st))"
| "handle_event env (Ev_Mode m) (acc, st) = (acc, handle_mode env m st)"
| "handle_event env (Ev_Config d) (acc, st) = (acc, handle_config_options env d st)"
| "handle_event env (Ev_Info t) (acc, st) = (acc, handle_info env t st)"
| "handle_event env (Ev_Commands cs) (acc, st) =
     (acc, broadcast env (Commands_Update cs) (put_event env (Commands_Changed_Row cs) st))"
| "handle_event env (Ev_Sub_Start i ty d) (acc, st) = (acc, handle_sub_start env i ty d st)"
| "handle_event env (Ev_Sub_End i r) (acc, st) = (acc, handle_sub_end env i r st)"
| "handle_event env (Ev_History_Append m) (acc, st) =
     (acc, if ss_depth (lg_session st) = 0
           then put_event env (Conversation_Message_Row (serialize_message m)) st else st)"
| "handle_event env (Ev_History_Snapshot ms) (acc, st) =
     (acc, if ss_depth (lg_session st) = 0
           then put_event env (Conversation_Snapshot_Row (map serialize_message ms)) st else st)"
| "handle_event env Ev_Other (acc, st) = (acc, st)"

section \<open>Replay\<close>

definition replay_text_blocks :: "(string \<Rightarrow> update) \<Rightarrow> dict list \<Rightarrow> update list" where
  "replay_text_blocks chunk ds = map (\<lambda>d. chunk (text_field d)) (filter (\<lambda>d. type_of d = ''text'') ds)"

text \<open>The stem of the sidecar's path is its hash.\<close>

definition path_stem :: "string \<Rightarrow> string" where
  "path_stem s =
     (let p = path_of s; ext = path_suffix p in take (length (path_name p) - length ext) (path_name p))"

fun restore_tool_content :: "string \<Rightarrow> session_store \<Rightarrow> dict list \<Rightarrow> dict list" where
  "restore_tool_content sid st [] = []"
| "restore_tool_content sid st (d # ds) =
     (if type_of d \<noteq> ''spilled'' then d
      else [(''type'', JStr ''text''),
            (''text'', case bindR (dget_str d ''path'') (\<lambda>p. read_spilled sid (path_stem p) st) of
                         Inr s \<Rightarrow> JStr s
                       | Inl _ \<Rightarrow> (case map_of d ''preview'' of Some j \<Rightarrow> j | None \<Rightarrow> JStr []))])
     # restore_tool_content sid st ds"

text \<open>\<open>x or None\<close> of a list.\<close>

definition list_or_none :: "'a list \<Rightarrow> 'a list option" where
  "list_or_none xs = (if xs = [] then None else Some xs)"

definition row_locations :: "dict list option \<Rightarrow> (string \<times> json option) list" where
  "row_locations ls =
     (case ls of None \<Rightarrow> []
      | Some ds \<Rightarrow> map (\<lambda>d. (case map_of d ''path'' of Some (JStr p) \<Rightarrow> p | _ \<Rightarrow> [], map_of d ''line'')) ds)"

definition replay_event :: "(json \<Rightarrow> string) \<Rightarrow> string \<Rightarrow> session_store \<Rightarrow> session_event \<Rightarrow> update list" where
  "replay_event str sid st e =
     (case ev_body e of
        User_Message_Row ds _ \<Rightarrow> replay_text_blocks User_Chunk ds
      | Agent_Message_Row ds \<Rightarrow> replay_text_blocks (\<lambda>s. Agent_Chunk s []) ds
      | Agent_Thought_Row ds \<Rightarrow> replay_text_blocks Thought_Chunk_Update ds
      | Tool_Call_Row i title k raw \<Rightarrow> [Tool_Start_Update i title k raw]
      | Tool_Update_Row i status content ls \<Rightarrow>
          [Tool_Status_Update i status
             (list_or_none (restore_tool_content sid st (case content of Some ds \<Rightarrow> ds | None \<Rightarrow> [])))
             (list_or_none (row_locations ls))]
      | Plan_Row es \<Rightarrow> [Plan_Update_Sent es]
      | Mode_Changed_Row m _ \<Rightarrow> [Mode_Update m]
      | Config_Changed_Row _ _ d \<Rightarrow> [Config_Update (shown_mode (map_of d) str None)]
      | Info_Changed_Row t \<Rightarrow> [Info_Update t (ev_time e)]
      | Commands_Changed_Row cs \<Rightarrow> [Commands_Update cs]
      | _ \<Rightarrow> [])"

definition replay_log :: "(json \<Rightarrow> string) \<Rightarrow> string \<Rightarrow> session_store \<Rightarrow> update list" where
  "replay_log str sid st = concat (map (replay_event str sid st) (read_events sid st))"

section \<open>What a turn writes\<close>

text \<open>
  The opening row, and the title seeded from the first text block of an untitled session. \<open>str\<close> of the
  request id is \<open>se_str\<close>.
\<close>

definition first_text :: "dict list \<Rightarrow> string option" where
  "first_text ds =
     (case filter (\<lambda>d. type_of d = ''text'') ds of [] \<Rightarrow> None | d # _ \<Rightarrow> Some (take 200 (text_field d)))"

definition maybe_set_title :: "stream_env \<Rightarrow> dict list \<Rightarrow> stream_state \<Rightarrow> stream_state" where
  "maybe_set_title env ds st =
     (let s = lg_session st in
      case (ss_title s, first_text ds) of
        (None, Some t) \<Rightarrow>
          st\<lparr>lg_session := s\<lparr>ss_title := Some t\<rparr>,
             lg_store := update_title (se_now env (lg_tick st)) (ss_id s) t (Some ''auto'') (lg_store st)\<rparr>
      | _ \<Rightarrow> st)"

definition write_first_user_message :: "stream_env \<Rightarrow> dict list \<Rightarrow> json \<Rightarrow> stream_state \<Rightarrow> stream_state" where
  "write_first_user_message env ds rid st =
     maybe_set_title env ds
       (put_event env (User_Message_Row ds
          (case rid of JNull \<Rightarrow> None | JStr s \<Rightarrow> Some s | _ \<Rightarrow> Some (se_str env rid))) st)"

fun drain_modes :: "stream_env \<Rightarrow> (string option \<times> string) list \<Rightarrow> stream_state \<Rightarrow> stream_state" where
  "drain_modes env [] st = st"
| "drain_modes env ((from_mode, to_mode) # ms) st =
     drain_modes env ms (broadcast env (Mode_Update to_mode)
       (put_event env (Mode_Changed_Row to_mode from_mode) st))"

definition drain_pending_mode_changes :: "stream_env \<Rightarrow> stream_state \<Rightarrow> stream_state" where
  "drain_pending_mode_changes env st =
     (let s = lg_session st in
      drain_modes env (ss_pending_modes s) (st\<lparr>lg_session := s\<lparr>ss_pending_modes := []\<rparr>\<rparr>))"

text \<open>
  How the event stream ended: by itself, after a \<open>CancelledEvent\<close> among its events, or by a
  cancellation of the turn's task.
\<close>

datatype stream_end = Stream_Done | Stream_Yielded_Cancel | Task_Cancelled

text \<open>\<open>ag_return\<close> is no attribute of an asynchronous generator, so the look-up gives the default.\<close>

definition ag_return :: "stop_reason option" where
  "ag_return = None"

definition map_orch_stop_reason :: "stop_reason \<Rightarrow> string" where
  "map_orch_stop_reason r =
     (case r of Stop_End_Turn \<Rightarrow> ''end_turn'' | Stop_Max_Turns \<Rightarrow> ''max_turn_requests''
      | Stop_Cancelled \<Rightarrow> ''cancelled'' | Stop_Error \<Rightarrow> ''end_turn'' | _ \<Rightarrow> ''end_turn'')"

definition turn_stop_reason :: "stream_end \<Rightarrow> string" where
  "turn_stop_reason e =
     (case e of
        Task_Cancelled \<Rightarrow> ''cancelled''
      | Stream_Yielded_Cancel \<Rightarrow>
          (case ag_return of Some r \<Rightarrow> map_orch_stop_reason r | None \<Rightarrow> ''cancelled'')
      | Stream_Done \<Rightarrow> (case ag_return of Some r \<Rightarrow> map_orch_stop_reason r | None \<Rightarrow> ''end_turn''))"

definition turn_token_update :: "int \<times> int \<Rightarrow> (int \<times> int) option" where
  "turn_token_update u = (if fst u = 0 \<and> snd u = 0 then None else Some u)"

definition text_row :: "string list \<Rightarrow> dict list" where
  "text_row parts = [[(''type'', JStr ''text''), (''text'', JStr (concat parts))]]"

definition finish_turn ::
    "stream_env \<Rightarrow> json \<Rightarrow> stream_end \<Rightarrow> int \<times> int \<Rightarrow> int \<Rightarrow> accumulated \<Rightarrow> stream_state \<Rightarrow> stream_state" where
  "finish_turn env rid ending usage duration acc st0 =
     (let (texts, thoughts) = acc;
          st1 = (if texts \<noteq> [] then put_event env (Agent_Message_Row (text_row texts)) st0 else st0);
          st2 = (if thoughts \<noteq> [] then put_event env (Agent_Thought_Row (text_row thoughts)) st1 else st1);
          st3 = write_event (session_env.truncate env)
                  (Turn_Completed_Row rid (turn_stop_reason ending) duration (fst usage) (snd usage))
                  (turn_token_update usage) st2
      in st3\<lparr>lg_session := (lg_session st3)\<lparr>ss_depth := 0\<rparr>\<rparr>)"

definition stream_turn ::
    "stream_env \<Rightarrow> json \<Rightarrow> turn_event list \<Rightarrow> stream_end \<Rightarrow> stream_state \<Rightarrow> accumulated \<times> stream_state" where
  "stream_turn env rid evs ending st =
     (let (acc, st') = fold (handle_event env) evs (([], []), st)
      in (acc, if ending = Task_Cancelled then put_event env (Turn_Cancelled_Row rid) st' else st'))"

text \<open>The whole turn; the last component is the \<open>PromptResult\<close> and the text handed to a gateway.\<close>

definition run_turn ::
    "stream_env \<Rightarrow> dict list \<Rightarrow> json \<Rightarrow> turn_event list \<Rightarrow> stream_end \<Rightarrow> int \<times> int \<Rightarrow> int \<Rightarrow> stream_state
       \<Rightarrow> (string \<times> string) \<times> stream_state" where
  "run_turn env prompt rid evs ending usage duration st0 =
     (let st1 = put_event env (Turn_Started_Row rid) (write_first_user_message env prompt rid st0);
          (acc, st2) = stream_turn env rid evs ending (drain_pending_mode_changes env st1);
          st3 = finish_turn env rid ending usage duration acc st2
      in ((turn_stop_reason ending, concat (fst acc)), st3))"

text \<open>The events of the query loop, as the turn sees them.\<close>

definition turn_events_of :: "query_event \<Rightarrow> turn_event list" where
  "turn_events_of e =
     (case e of
        Text_Delta s \<Rightarrow> [Ev_Text s]
      | Thought_Delta s \<Rightarrow> [Ev_Thought s]
      | History_Append m \<Rightarrow> [Ev_History_Append m]
      | History_Snapshot ms \<Rightarrow> [Ev_History_Snapshot ms]
      | Cancelled_Event \<Rightarrow> []
      | _ \<Rightarrow> [Ev_Other])"

end
