(* ===== verification/Resume.thy ===== *)
theory Resume
  imports Session_Stream
begin

text \<open>
  Why a resumed session has its conversation: what the query loop announces adds up to what it keeps,
  the turn writes down what is announced, and the fold over the rows reads it back.
\<close>

section \<open>What a query announces\<close>

text \<open>The conversation a reader of the events arrives at, starting from one he knows.\<close>

fun replayed :: "message list \<Rightarrow> query_event list \<Rightarrow> message list" where
  "replayed h [] = h"
| "replayed h (History_Append m # es) = replayed (append_history m h) es"
| "replayed h (History_Snapshot ms # es) = replayed ms es"
| "replayed h (_ # es) = replayed h es"

lemma replayed_append: "replayed h (es @ es') = replayed (replayed h es) es'"
  by (induction h es rule: replayed.induct) simp_all

definition ready :: "message list \<Rightarrow> bool" where
  "ready ms \<longleftrightarrow> ms = [] \<or> is_user (last ms)"

lemma append_history_ready: "ready ms \<or> is_user m \<Longrightarrow> append_history m ms = ms @ [m]"
  by (auto simp: append_history_def ready_def)

definition announced :: "message list \<Rightarrow> query_state \<Rightarrow> bool" where
  "announced h0 st \<longleftrightarrow> replayed h0 (qs_events st) = h_messages (qs_history st)"

lemma announced_emit [simp]:
  "\<forall>e \<in> set es. case e of History_Append _ \<Rightarrow> False | History_Snapshot _ \<Rightarrow> False | _ \<Rightarrow> True \<Longrightarrow>
     announced h0 (emit es st) = announced h0 st"
proof -
  assume *: "\<forall>e \<in> set es. case e of History_Append _ \<Rightarrow> False | History_Snapshot _ \<Rightarrow> False | _ \<Rightarrow> True"
  have "replayed h es = h" for h
    using * by (induction h es rule: replayed.induct) auto
  then show ?thesis by (simp add: announced_def emit_def replayed_append)
qed

lemma announced_push:
  assumes "announced h0 st" "ready (h_messages (qs_history st)) \<or> is_user m"
    and "h_messages h = h_messages (qs_history st) @ [m]"
  shows "announced h0 (emit [History_Append m] (st\<lparr>qs_history := h\<rparr>))"
  using assms by (simp add: announced_def emit_def replayed_append append_history_ready)

text \<open>
  A pass over the history that rewrites messages without a summary is not announced. This says that
  none does along a run.
\<close>

definition quiet_pass :: "query_world \<Rightarrow> query_state \<Rightarrow> bool" where
  "quiet_pass w st =
     (let (h, c) = prepare_history (q_compact w) (q_keep w) (q_threshold w) (qs_history st)
      in c \<noteq> None \<or> h_messages h = h_messages (qs_history st))"

fun quiet_loop ::
    "query_world \<Rightarrow> nat \<Rightarrow> int option \<Rightarrow> response list \<Rightarrow> turn_state \<Rightarrow> query_state \<Rightarrow> bool" where
  "quiet_loop w mt budget [] turn st = True"
| "quiet_loop w mt budget (r # rs) turn st =
     (0 < mt \<and> mt < tn_index turn + 1 \<or>
      quiet_pass w st \<and>
      (case iterate w budget (turn\<lparr>tn_index := tn_index turn + 1\<rparr>) r st of
         (None, _) \<Rightarrow> True | (Some turn', st') \<Rightarrow> quiet_loop w mt budget rs turn' st'))"

text \<open>The state in which the loop of a query starts, and a query whose passes are quiet.\<close>

definition loop_start :: "query_world \<Rightarrow> prompt_block list \<Rightarrow> query_state \<Rightarrow> bool \<times> query_state" where
  "loop_start w prompt st0 =
     (let ((prompt_text, reminders, blocked), st1) =
            setup_turn w prompt (st0\<lparr>qs_input_tokens := 0, qs_output_tokens := 0\<rparr>)
      in (blocked, append_and_announce (append_user (len_input_of (q_compact w))
            (to_text_content (q_wrap w) reminders prompt)) st1))"

definition quiet_query ::
    "query_world \<Rightarrow> prompt_block list \<Rightarrow> nat \<Rightarrow> int option \<Rightarrow> response list \<Rightarrow> query_state \<Rightarrow> bool" where
  "quiet_query w prompt mt budget rs st =
     (let (blocked, st1) = loop_start w prompt st in blocked \<or> quiet_loop w mt budget rs new_turn st1)"

text \<open>
  A response that leads to no unannounced change: its stream was not refused for size, was not cut off
  by the output limit, and its tool calls were answered.
\<close>

fun chunk_stop :: "llm_chunk \<Rightarrow> bool" where
  "chunk_stop (Usage_Chunk _ _ r) = (r = Some ''max_tokens'')"
| "chunk_stop _ = False"

definition plain_response :: "response \<Rightarrow> bool" where
  "plain_response r \<longleftrightarrow> answered r \<and> (\<forall>c \<in> set (rp_chunks r). \<not> chunk_stop c)
     \<and> (case rp_ending r of Prompt_Too_Long _ \<Rightarrow> False | Media_Size _ \<Rightarrow> False | _ \<Rightarrow> True)"

lemma prepare_announced:
  assumes "announced h0 st" "quiet_pass w st"
  shows "announced h0 (prepare_turn w st)"
proof -
  obtain h c where p: "prepare_history (q_compact w) (q_keep w) (q_threshold w) (qs_history st) = (h, c)"
    by (rule prod.exhaust)
  show ?thesis
  proof (cases c)
    case None
    with assms p show ?thesis by (simp add: prepare_turn_def quiet_pass_def announced_def)
  next
    case (Some ba)
    then show ?thesis
      using p by (cases ba) (simp add: prepare_turn_def announced_def emit_def replayed_append)
  qed
qed

lemma ready_tail:
  assumes "find_compaction_boundary keep ms \<noteq> 0" "ready ms"
  shows "ready (xs @ drop (find_compaction_boundary keep ms) ms)"
  using assms boundary_user [OF refl, of keep ms] by (auto simp: ready_def)

lemma ready_snip: "ready (h_messages h) \<Longrightarrow> ready (h_messages (snd (snip_read_only_results li keep h)))"
  by (auto simp: snip_read_only_results_def Let_def intro: ready_tail)

lemma ready_remove: "ready (h_messages h) \<Longrightarrow> ready (h_messages (snd (remove_read_only_pairs li keep h)))"
  using ready_tail [of keep "h_messages h"]
  by (auto simp: remove_read_only_pairs_def Let_def)

lemma ready_compact: "ready (h_messages h) \<Longrightarrow> ready (h_messages (compact d keep h))"
  using ready_tail [of keep "h_messages h" "[User_Message [User_Text s]]" for s]
  by (auto simp: compact_def replace_with_compacted_def Let_def)

lemma ready_prepare: "ready (h_messages (qs_history st)) \<Longrightarrow> ready (h_messages (qs_history (prepare_turn w st)))"
  by (auto simp: prepare_turn_def prepare_history_def Let_def emit_def ready_snip ready_remove ready_compact)

lemma consume_announced:
  "consume cs acc st = (err, acc', st') \<Longrightarrow> announced h0 st' = announced h0 st"
proof (induction cs acc st rule: consume.induct)
  case (5 i out r cs acc st)
  then show ?case by (auto simp: announced_def update_token_count_def)
qed (auto split: if_splits)

lemma consume_stop:
  "consume cs acc st = (None, acc', st') \<Longrightarrow> \<forall>c \<in> set cs. \<not> chunk_stop c \<Longrightarrow>
     sa_stop_reason acc \<noteq> Some ''max_tokens'' \<Longrightarrow> sa_stop_reason acc' \<noteq> Some ''max_tokens''"
  by (induction cs acc st rule: consume.induct) auto

lemma append_and_announce_announced:
  assumes "announced h0 st"
    and "h_messages (f (qs_history st)) = h_messages (qs_history st)
      \<or> (\<exists>m. h_messages (f (qs_history st)) = h_messages (qs_history st) @ [m]
             \<and> (ready (h_messages (qs_history st)) \<or> is_user m))"
  shows "announced h0 (append_and_announce f st)"
  using assms(2)
proof
  assume "h_messages (f (qs_history st)) = h_messages (qs_history st)"
  with assms(1) show ?thesis
    by (simp add: append_and_announce_def announce_append_def announced_def)
next
  assume "\<exists>m. h_messages (f (qs_history st)) = h_messages (qs_history st) @ [m]
             \<and> (ready (h_messages (qs_history st)) \<or> is_user m)"
  then obtain m where m: "h_messages (f (qs_history st)) = h_messages (qs_history st) @ [m]"
      "ready (h_messages (qs_history st)) \<or> is_user m" by blast
  then show ?thesis
    using announced_push [OF assms(1) m(2,1)] by (simp add: append_and_announce_def announce_append_def)
qed

lemma assistant_turn_announced:
  assumes "announced h0 st" "ready (h_messages (qs_history st))"
  shows "announced h0 (assistant_turn w acc st)"
  unfolding assistant_turn_def
  using assms by (intro append_and_announce_announced)
    (auto simp: append_assistant_def push_message_def Let_def)

lemma tool_turn_announced:
  assumes "announced h0 st"
  shows "announced h0 (tool_turn w rd st)"
    and "rd_results rd \<noteq> [] \<Longrightarrow> ready (h_messages (qs_history (tool_turn w rd st)))"
proof -
  have "announced h0 (drain_tasks w st)" using assms by (simp add: announced_def)
  then show "announced h0 (tool_turn w rd st)"
    unfolding tool_turn_def
    by (intro append_and_announce_announced) (auto simp: append_tool_results_def push_message_def is_user_def)
  show "rd_results rd \<noteq> [] \<Longrightarrow> ready (h_messages (qs_history (tool_turn w rd st)))"
    by (simp add: tool_turn_def append_tool_results_def push_message_def ready_def is_user_def)
qed

lemma cancel_announced:
  assumes "announced h0 st"
  shows "announced h0 (cancel_query w st)"
proof -
  have "announced h0 (st\<lparr>qs_stop := Stop_Cancelled\<rparr>)" using assms by (simp add: announced_def)
  then show ?thesis
    using announced_push [of h0 "st\<lparr>qs_stop := Stop_Cancelled\<rparr>"]
    by (simp add: cancel_query_def Let_def append_tool_results_def push_message_def is_user_def)
qed

lemma after_stream_announced:
  assumes "announced h0 st" "ready (h_messages (qs_history st))"
    and "after_stream w budget turn acc rd st = (t, st')" "sa_stop_reason acc \<noteq> Some ''max_tokens''"
    and "rd_cancelled rd \<or> set (map rb_tool_use_id (rd_results rd)) = set (map tu_id (sa_calls acc))"
  shows "announced h0 st' \<and> (t \<noteq> None \<longrightarrow> ready (h_messages (qs_history st')))"
proof -
  let ?st = "assistant_turn w acc (sampling_hook w acc st)"
  have st: "announced h0 ?st"
    using assms(1,2) by (intro assistant_turn_announced) (simp_all add: announced_def)
  show ?thesis
  proof (cases "sa_calls acc = []")
    case True
    have "announced h0 (stop_hook w r ?st)" for r
      using st by (simp add: announced_def)
    with True assms(3,4) show ?thesis
      by (auto simp: after_stream_def handle_stop_def announced_def emit_def replayed_append Let_def
          split: if_splits option.splits)
  next
    case False
    let ?st1 = "run_tasks (rd_tasks rd) (record_starts (rd_starts rd) ?st)"
    have st1: "announced h0 ?st1"
      using st by (simp add: announced_def) (simp add: record_starts_def)
    show ?thesis
    proof (cases "rd_cancelled rd")
      case True
      with False assms(3) cancel_announced [OF st1] show ?thesis
        by (auto simp: after_stream_def Let_def)
    next
      case not_cancelled: False
      then have "rd_results rd \<noteq> []" using assms(5) False by auto
      with False not_cancelled assms(3) tool_turn_announced [OF st1] show ?thesis
        by (auto simp: after_stream_def Let_def)
    qed
  qed
qed

lemma iterate_announced:
  assumes "announced h0 st" "ready (h_messages (qs_history st))" "quiet_pass w st" "plain_response r"
    and "iterate w budget turn r st = (t, st')"
  shows "announced h0 st' \<and> (t \<noteq> None \<longrightarrow> ready (h_messages (qs_history st')))"
proof -
  obtain err acc st1 where c: "consume (rp_chunks r) new_accumulator (prepare_turn w st) = (err, acc, st1)"
    by (metis prod_cases3)
  have st1: "announced h0 st1" "ready (h_messages (qs_history st1))"
    using consume_announced [OF c] consume_history [OF c] prepare_announced [OF assms(1,3)]
      ready_prepare [OF assms(2)] by simp_all
  show ?thesis
  proof (cases err)
    case (Some e)
    with c st1 assms(5) show ?thesis
      by (cases e) (auto simp: iterate_def fail_query_def announced_def emit_def replayed_append Let_def)
  next
    case None
    note c = c [unfolded None]
    have stop: "sa_stop_reason acc \<noteq> Some ''max_tokens''"
      using consume_stop [OF c] assms(4) by (auto simp: plain_response_def new_accumulator_def)
    have "map tu_id (sa_calls acc) = chunk_calls (rp_chunks r)"
      using consume_calls [OF c] by (simp add: new_accumulator_def)
    then have rd: "rd_cancelled (rp_round r) \<or>
        set (map rb_tool_use_id (rd_results (rp_round r))) = set (map tu_id (sa_calls acc))"
      using assms(4) by (auto simp: plain_response_def answered_def)
    show ?thesis
    proof (cases "rp_ending r")
      case Stream_Ended
      with c assms(5) after_stream_announced [OF st1 _ stop rd] show ?thesis
        by (auto simp: iterate_def Let_def)
    next
      case Stream_Cancelled
      with c assms(5) cancel_announced [OF st1(1)] show ?thesis by (auto simp: iterate_def Let_def)
    next
      case (Provider_Failed e)
      with c st1 assms(5) show ?thesis
        by (auto simp: iterate_def fail_query_def announced_def emit_def replayed_append Let_def)
    qed (use assms(4) in \<open>simp_all add: plain_response_def\<close>)
  qed
qed

lemma run_loop_announced:
  assumes "announced h0 st" "ready (h_messages (qs_history st))" "quiet_loop w mt budget rs turn st"
    and "\<forall>r \<in> set rs. plain_response r"
  shows "announced h0 (snd (run_loop w mt budget rs turn st))"
  using assms
proof (induction rs arbitrary: turn st)
  case Nil
  then show ?case by (simp add: announced_def)
next
  case (Cons r rs)
  show ?case
  proof (cases "0 < mt \<and> mt < tn_index turn + 1")
    case True
    with Cons.prems show ?thesis by (simp add: announced_def)
  next
    case False
    obtain t st' where it: "iterate w budget (turn\<lparr>tn_index := tn_index turn + 1\<rparr>) r st = (t, st')" by force
    have "announced h0 st' \<and> (t \<noteq> None \<longrightarrow> ready (h_messages (qs_history st')))"
      using Cons.prems False it by (intro iterate_announced) auto
    then show ?thesis
      using Cons.IH [of st'] Cons.prems False it by (cases t) auto
  qed
qed

lemma query_announced:
  assumes "qs_events st = []" "quiet_query w prompt mt budget rs st" "\<forall>r \<in> set rs. plain_response r"
  shows "replayed (h_messages (qs_history st)) (qs_events (snd (run_query w prompt mt budget rs st))) =
    h_messages (qs_history (snd (run_query w prompt mt budget rs st)))"
proof -
  let ?h0 = "h_messages (qs_history st)"
  obtain q st1 where "setup_turn w prompt (st\<lparr>qs_input_tokens := 0, qs_output_tokens := 0\<rparr>) = (q, st1)"
    by (rule prod.exhaust)
  moreover obtain s rem blocked where "q = (s, rem, blocked)" by (metis prod_cases3)
  ultimately have su: "setup_turn w prompt
      (st\<lparr>qs_input_tokens := 0, qs_output_tokens := 0\<rparr>) = ((s, rem, blocked), st1)" by simp
  then have same: "qs_history st1 = qs_history st" "qs_events st1 = qs_events st"
    using setup_history by fastforce+
  then have ann: "announced ?h0 st1" using assms(1) by (simp add: announced_def)
  let ?f = "append_user (len_input_of (q_compact w)) (to_text_content (q_wrap w) rem prompt)"
  show ?thesis
  proof (cases blocked)
    case True
    with su ann show ?thesis
      by (simp add: run_query_def announced_def emit_def replayed_append)
  next
    case False
    have start: "announced ?h0 (append_and_announce ?f st1)"
      using ann by (intro append_and_announce_announced) (auto simp: append_user_def push_message_def is_user_def)
    have "ready (h_messages (qs_history (append_and_announce ?f st1)))"
      by (simp add: append_user_def push_message_def ready_def is_user_def)
    moreover have "quiet_loop w mt budget rs new_turn (append_and_announce ?f st1)"
      using assms(2) su False by (simp add: quiet_query_def loop_start_def)
    ultimately have "announced ?h0 (snd (run_loop w mt budget rs new_turn (append_and_announce ?f st1)))"
      using start assms(3) by (intro run_loop_announced) auto
    then show ?thesis using su False by (simp add: run_query_def announced_def)
  qed
qed

section \<open>What is written is read back in its order\<close>

definition rows_of :: "string \<Rightarrow> session_store \<Rightarrow> event_row list" where
  "rows_of sid st = filter (\<lambda>r. er_session r = sid) (st_rows st)"

text \<open>The clock does not go back, and no row of the session is from the future.\<close>

definition timely :: "session_env \<Rightarrow> log_state \<Rightarrow> bool" where
  "timely env st \<longleftrightarrow> (\<forall>m n. m \<le> n \<longrightarrow> se_now env m \<le> se_now env n)
     \<and> sorted (map er_time (rows_of (ss_id (lg_session st)) (lg_store st)))
     \<and> (\<forall>r \<in> set (rows_of (ss_id (lg_session st)) (lg_store st)). er_time r \<le> se_now env (lg_tick st))"

text \<open>\<open>conversation b\<close>: the row carries conversation. \<open>told P\<close>: the rows of a kind \<open>P\<close> a step adds.\<close>

fun conversation :: "event_body \<Rightarrow> bool" where
  "conversation (Conversation_Message_Row d) = True"
| "conversation (Conversation_Snapshot_Row ds) = True"
| "conversation _ = False"

definition told :: "(event_body \<Rightarrow> bool) \<Rightarrow> stream_env \<Rightarrow> event_body list \<Rightarrow> stream_state \<Rightarrow> stream_state \<Rightarrow> bool" where
  "told P env cs st st' \<longleftrightarrow>
     ss_id (lg_session st') = ss_id (lg_session st) \<and>
     (timely (session_env.truncate env) (log_state.truncate st) \<longrightarrow>
        timely (session_env.truncate env) (log_state.truncate st') \<and>
        (\<exists>es. filter P (map ev_body es) = cs \<and>
              read_events (ss_id (lg_session st)) (lg_store st') =
                read_events (ss_id (lg_session st)) (lg_store st) @ es))"

lemma told_trans: "told P env a s t \<Longrightarrow> told P env b t u \<Longrightarrow> told P env (a @ b) s u"
  unfolding told_def by fastforce

lemma told_quiet:
  assumes "ss_id (lg_session st') = ss_id (lg_session st)" "st_rows (lg_store st') = st_rows (lg_store st)"
    and "lg_tick st \<le> lg_tick st'"
  shows "told P env [] st st'"
proof -
  have "se_now env (lg_tick st) \<le> se_now env (lg_tick st')" if "\<forall>m n. m \<le> n \<longrightarrow> se_now env m \<le> se_now env n"
    using that assms(3) by blast
  with assms(1,2) show ?thesis
    by (auto simp: told_def timely_def rows_of_def read_events_def log_state.defs session_env.defs
        intro: order_trans exI [of _ "[]"])
qed

lemma append_event_rows: "st_rows (append_event now sid e tokens st) = st_rows st @ [row_of e]"
  by (simp add: append_event_def update_record_def Let_def split: option.split prod.split)

lemma read_sorted:
  "sorted (map er_time (rows_of sid st)) \<Longrightarrow>
     read_events sid st = concat (map (\<lambda>r. case er_context r of Some e \<Rightarrow> [e] | None \<Rightarrow> []) (rows_of sid st))"
  by (simp add: read_events_def rows_of_def sort_key_id_if_sorted)

lemma told_write:
  "told P env (if P b then [b] else []) st (write_event (session_env.truncate env) b tokens st)"
proof -
  let ?st' = "write_event (session_env.truncate env) b tokens st"
  let ?sid = "ss_id (lg_session st)"
  obtain e where e: "lg_store ?st' = append_event (se_now env (lg_tick st)) ?sid e tokens (lg_store st)"
      "ev_session e = ?sid" "ev_time e = se_now env (lg_tick st)" "ev_body e = b"
    by (fastforce simp: write_event_def Let_def session_env.defs)
  have same: "ss_id (lg_session ?st') = ?sid" "lg_tick ?st' = Suc (lg_tick st)"
    by (simp_all add: write_event_def Let_def)
  have rows: "rows_of ?sid (lg_store ?st') = rows_of ?sid (lg_store st) @ [row_of e]"
    using e by (simp add: rows_of_def append_event_rows row_of_def)
  {
    assume t: "timely (session_env.truncate env) (log_state.truncate st)"
    then have mono: "\<And>m n. m \<le> n \<Longrightarrow> se_now env m \<le> se_now env n"
      and sorted: "sorted (map er_time (rows_of ?sid (lg_store st)))"
      and past: "\<And>r. r \<in> set (rows_of ?sid (lg_store st)) \<Longrightarrow> er_time r \<le> se_now env (lg_tick st)"
      by (auto simp: timely_def log_state.defs session_env.defs)
    have sorted': "sorted (map er_time (rows_of ?sid (lg_store ?st')))"
      using sorted past e rows by (simp add: sorted_append row_of_def)
    have le: "se_now env (lg_tick st) \<le> se_now env (Suc (lg_tick st))" by (rule mono) simp
    have "timely (session_env.truncate env) (log_state.truncate ?st')"
      using mono sorted' past e rows same le order_trans [OF past le]
      by (auto simp: timely_def log_state.defs session_env.defs row_of_def)
    moreover have "read_events ?sid (lg_store ?st') = read_events ?sid (lg_store st) @ [e]"
      using read_sorted [OF sorted'] read_sorted [OF sorted] rows by (simp add: row_of_def)
    ultimately have "timely (session_env.truncate env) (log_state.truncate ?st')"
      "read_events ?sid (lg_store ?st') = read_events ?sid (lg_store st) @ [e]" by blast+
  }
  with same e(4) show ?thesis by (auto simp: told_def intro: exI [of _ "[e]"])
qed

lemma told_put: "told P env (if P b then [b] else []) st (put_event env b st)"
  unfolding put_event_def by (rule told_write)

lemma told_put_quiet: "\<not> P b \<Longrightarrow> told P env [] st (put_event env b st)"
  using told_put [of P env b st] by simp

lemma notify_ticks: "notify_all env u cs n = (sent, dead, n') \<Longrightarrow> n \<le> n'"
  by (induction cs arbitrary: n sent dead n') (fastforce split: prod.splits if_splits)+

lemma told_broadcast: "told P env [] st (broadcast env u st)"
proof (rule told_quiet)
  show "lg_tick st \<le> lg_tick (broadcast env u st)"
    using notify_ticks by (auto simp: broadcast_def Let_def split: prod.split)
qed (simp_all add: broadcast_def Let_def split: prod.split)

lemma told_then_broadcast: "told P env cs st st' \<Longrightarrow> told P env cs st (broadcast env u st')"
  using told_trans [OF _ told_broadcast] by fastforce

lemma told_then_put: "told P env cs st st' \<Longrightarrow> \<not> P b \<Longrightarrow> told P env cs st (put_event env b st')"
  using told_trans [OF _ told_put_quiet] by fastforce

section \<open>The conversation rows of a turn\<close>

text \<open>Of the history events of a turn those outside every sub-agent bracket are written.\<close>

fun top_history :: "nat \<Rightarrow> turn_event list \<Rightarrow> event_body list" where
  "top_history d [] = []"
| "top_history d (Ev_Sub_Start i ty desc # es) = top_history (d + 1) es"
| "top_history d (Ev_Sub_End i r # es) = top_history (d - 1) es"
| "top_history d (Ev_History_Append m # es) =
     (if d = 0 then [Conversation_Message_Row (serialize_message m)] else []) @ top_history d es"
| "top_history d (Ev_History_Snapshot ms # es) =
     (if d = 0 then [Conversation_Snapshot_Row (map serialize_message ms)] else []) @ top_history d es"
| "top_history d (_ # es) = top_history d es"

lemma broadcast_depth [simp]: "ss_depth (lg_session (broadcast env u st)) = ss_depth (lg_session st)"
  by (simp add: broadcast_def Let_def split: prod.split)

lemma put_depth [simp]: "ss_depth (lg_session (put_event env b st)) = ss_depth (lg_session st)"
  by (simp add: put_event_def write_event_def Let_def)

lemma maybe_spill_told:
  "maybe_spill (session_env.truncate env) c st = (p, st') \<Longrightarrow>
     told P env [] st st' \<and> ss_depth (lg_session st') = ss_depth (lg_session st)"
  by (auto simp: maybe_spill_def write_spilled_def Let_def split: if_splits intro!: told_quiet)

lemma handle_tool_result_told:
  "(\<And>i s c l. \<not> P (Tool_Update_Row i s c l)) \<Longrightarrow> told P env [] st (handle_tool_result env i bs st) \<and>
     ss_depth (lg_session (handle_tool_result env i bs st)) = ss_depth (lg_session st)"
proof -
  obtain p st' where "maybe_spill (session_env.truncate env) (blocks_to_raw bs) st = (p, st')"
    by (rule prod.exhaust)
  moreover assume "\<And>i s c l. \<not> P (Tool_Update_Row i s c l)"
  ultimately show ?thesis
    using maybe_spill_told [of env "blocks_to_raw bs" st p st' P]
    by (auto simp: handle_tool_result_def emit_tool_update_def intro!: told_then_broadcast told_then_put)
qed

lemma handle_info_told:
  "told conversation env [] st (handle_info env t st) \<and>
     ss_depth (lg_session (handle_info env t st)) = ss_depth (lg_session st)"
  by (auto simp: handle_info_def Let_def update_title_def update_record_def
      intro!: told_then_broadcast told_then_put told_quiet split: option.splits)

lemma told_session:
  assumes "ss_id s = ss_id (lg_session st)" "told P env cs (st\<lparr>lg_session := s\<rparr>) st'"
  shows "told P env cs st st'"
  using told_trans [OF told_quiet assms(2)] assms(1) by simp

lemma emit_told:
  "told P env cs st st' \<Longrightarrow> (\<And>i s c l. \<not> P (Tool_Update_Row i s c l)) \<Longrightarrow> told P env cs st (emit_tool_update env i status c p st')"
  by (auto simp: emit_tool_update_def intro!: told_then_broadcast told_then_put)

lemma told_refl: "told P env [] st st"
  by (rule told_quiet) simp_all

lemma handle_event_told:
  assumes "handle_event env ev (acc, st) = (acc', st')"
  shows "told conversation env (top_history (ss_depth (lg_session st)) [ev]) st st'
    \<and> (\<forall>es. top_history (ss_depth (lg_session st)) (ev # es) =
          top_history (ss_depth (lg_session st)) [ev] @ top_history (ss_depth (lg_session st')) es)"
proof -
  obtain ts hs where acc: "acc = (ts, hs)" by (rule prod.exhaust)
  note told_intros = told_then_broadcast told_then_put told_refl emit_told
  show ?thesis
  proof (cases ev)
    case (Ev_Tool_Result i bs)
    then show ?thesis using assms handle_tool_result_told [of conversation env st i bs] by auto
  next
    case (Ev_Info t)
    then show ?thesis using assms handle_info_told [of env st t] by auto
  next
    case (Ev_Config d)
    then show ?thesis
      using assms by (auto simp: handle_config_options_def Let_def
        intro!: told_then_broadcast told_then_put told_session [OF _ told_refl])
  next
    case (Ev_Mode m)
    then show ?thesis
      using assms by (auto simp: handle_mode_def Let_def
        intro!: told_then_broadcast told_then_put told_session [OF _ told_refl])
  next
    case (Ev_Sub_Start i ty d)
    then show ?thesis
      using assms by (auto simp: handle_sub_start_def Let_def
        intro!: told_then_broadcast told_then_put told_session [OF _ told_refl])
  next
    case (Ev_Sub_End i r)
    then show ?thesis
      using assms by (auto simp: handle_sub_end_def Let_def
        intro!: told_then_broadcast told_then_put told_session [OF _ told_refl])
  next
    case (Ev_History_Append m)
    then show ?thesis
      using assms told_put [of conversation env "Conversation_Message_Row (serialize_message m)" st]
      by (auto intro: told_refl)
  next
    case (Ev_History_Snapshot ms)
    then show ?thesis
      using assms told_put [of conversation env "Conversation_Snapshot_Row (map serialize_message ms)" st]
      by (auto intro: told_refl)
  qed (use assms acc in \<open>auto simp: emit_tool_update_def intro!: told_intros\<close>)
qed

lemma fold_events_told:
  "fold (handle_event env) evs (acc, st) = (acc', st') \<Longrightarrow>
     told conversation env (top_history (ss_depth (lg_session st)) evs) st st'"
proof (induction evs arbitrary: acc st)
  case Nil
  then show ?case by (simp add: told_refl)
next
  case (Cons ev evs)
  obtain acc1 st1 where h: "handle_event env ev (acc, st) = (acc1, st1)" by (rule prod.exhaust)
  with Cons.prems have "told conversation env (top_history (ss_depth (lg_session st1)) evs) st1 st'"
    by (intro Cons.IH) simp
  then show ?case using handle_event_told [OF h] told_trans by metis
qed

lemma drain_told: "told conversation env cs st st' \<Longrightarrow> told conversation env cs st (drain_modes env ms st')
    \<and> ss_depth (lg_session (drain_modes env ms st')) = ss_depth (lg_session st')"
proof (induction ms arbitrary: st')
  case (Cons m ms)
  obtain a b where "m = (a, b)" by (rule prod.exhaust)
  then show ?case
    using Cons.IH [of "broadcast env (Mode_Update b) (put_event env (Mode_Changed_Row b a) st')"] Cons.prems
    by (simp add: told_then_broadcast told_then_put)
qed simp

lemma opening_told:
  "told conversation env [] st (drain_pending_mode_changes env
     (put_event env (Turn_Started_Row rid) (write_first_user_message env prompt rid st)))
   \<and> ss_depth (lg_session (drain_pending_mode_changes env
     (put_event env (Turn_Started_Row rid) (write_first_user_message env prompt rid st)))) = ss_depth (lg_session st)"
proof -
  let ?st1 = "write_first_user_message env prompt rid st"
  have title: "told conversation env [] s (maybe_set_title env prompt s)
      \<and> ss_depth (lg_session (maybe_set_title env prompt s)) = ss_depth (lg_session s)" for s
    by (auto simp: maybe_set_title_def Let_def update_title_def update_record_def split: option.split
        intro!: told_quiet)
  obtain r where w: "?st1 = maybe_set_title env prompt (put_event env (User_Message_Row prompt r) st)"
    by (simp add: write_first_user_message_def)
  have first: "told conversation env [] st ?st1 \<and> ss_depth (lg_session ?st1) = ss_depth (lg_session st)"
    using title [of "put_event env (User_Message_Row prompt r) st"]
      told_trans [OF told_put_quiet [of conversation "User_Message_Row prompt r" env st]]
    unfolding w by fastforce
  let ?st2 = "put_event env (Turn_Started_Row rid) ?st1"
  have "told conversation env [] st ?st2" using first by (simp add: told_then_put)
  then have "told conversation env [] st (?st2\<lparr>lg_session := (lg_session ?st2)\<lparr>ss_pending_modes := []\<rparr>\<rparr>)"
    using told_trans [OF _ told_quiet [of "?st2\<lparr>lg_session := (lg_session ?st2)\<lparr>ss_pending_modes := []\<rparr>\<rparr>"]] by fastforce
  from drain_told [OF this] first show ?thesis
    by (simp add: drain_pending_mode_changes_def Let_def)
qed

lemma finish_told: "told conversation env cs st st' \<Longrightarrow> told conversation env cs st (finish_turn env rid ending usage duration acc st')"
proof -
  assume *: "told conversation env cs st st'"
  obtain ts hs where acc: "acc = (ts, hs)" by (rule prod.exhaust)
  let ?s1 = "if ts \<noteq> [] then put_event env (Agent_Message_Row (text_row ts)) st' else st'"
  let ?s2 = "if hs \<noteq> [] then put_event env (Agent_Thought_Row (text_row hs)) ?s1 else ?s1"
  let ?b = "Turn_Completed_Row rid (turn_stop_reason ending) duration (fst usage) (snd usage)"
  let ?s3 = "write_event (session_env.truncate env) ?b (turn_token_update usage) ?s2"
  have "told conversation env cs st ?s2" using * by (auto intro!: told_then_put)
  then have "told conversation env cs st ?s3"
    using told_trans [OF _ told_write [of conversation env ?b ?s2 "turn_token_update usage"]] by fastforce
  then have "told conversation env cs st (?s3\<lparr>lg_session := (lg_session ?s3)\<lparr>ss_depth := 0\<rparr>\<rparr>)"
    using told_trans [OF _ told_quiet [of "?s3\<lparr>lg_session := (lg_session ?s3)\<lparr>ss_depth := 0\<rparr>\<rparr>"]] by fastforce
  then show ?thesis by (simp add: finish_turn_def acc Let_def)
qed

lemma run_turn_told:
  assumes "ss_depth (lg_session st) = 0"
  shows "told conversation env (top_history 0 evs) st (snd (run_turn env prompt rid evs ending usage duration st))"
proof -
  let ?st2 = "drain_pending_mode_changes env
     (put_event env (Turn_Started_Row rid) (write_first_user_message env prompt rid st))"
  obtain acc st3 where f: "fold (handle_event env) evs (([], []), ?st2) = (acc, st3)" by (rule prod.exhaust)
  have "told conversation env (top_history 0 evs) st st3"
    using told_trans [OF _ fold_events_told [OF f]] opening_told [of env st rid prompt] assms by fastforce
  then show ?thesis
    using f by (auto simp: run_turn_def stream_turn_def Let_def intro!: finish_told told_then_put)
qed

section \<open>Reading the conversation back\<close>

fun retold :: "(dict \<Rightarrow> string) \<Rightarrow> event_body list \<Rightarrow> message list \<Rightarrow> message list" where
  "retold sd [] h = h"
| "retold sd (Conversation_Message_Row d # bs) h = retold sd bs (append_history_message sd d h)"
| "retold sd (Conversation_Snapshot_Row ds # bs) h = retold sd bs (replace_from_snapshot sd ds h)"
| "retold sd (_ # bs) h = retold sd bs h"

lemma retold_append: "retold sd (bs @ bs') h = retold sd bs' (retold sd bs h)"
  by (induction sd bs h rule: retold.induct) simp_all

lemma fold_retold:
  "ld_history (fold (apply_event sd) es ld) = retold sd (filter conversation (map ev_body es)) (ld_history ld)"
proof (induction es arbitrary: ld)
  case (Cons e es)
  then show ?case by (cases "ev_body e") (simp_all add: apply_event_def Let_def split: option.split)
qed simp

lemma retold_replayed:
  "retold sd (top_history 0 (concat (map turn_events_of qes))) h = replayed h qes"
proof (induction qes arbitrary: h)
  case (Cons e qes)
  then show ?case
    by (cases e) (simp_all add: turn_events_of_def append_history_message_def replace_from_snapshot_def
      message_roundtrip map_results_map)
qed simp

text \<open>The conversation a process reads from the rows of a session.\<close>

definition stored_history :: "(dict \<Rightarrow> string) \<Rightarrow> stream_state \<Rightarrow> message list" where
  "stored_history sd st =
     ld_history (reconstruct_state sd (read_events (ss_id (lg_session st)) (lg_store st)))"

lemma told_history:
  assumes "told conversation env cs st st'" "timely (session_env.truncate env) (log_state.truncate st)"
  shows "stored_history sd st' = retold sd cs (stored_history sd st)"
  using assms by (auto simp: told_def stored_history_def reconstruct_state_def fold_retold retold_append)

end
