(* ===== verification/Session_Properties.thy ===== *)
theory Session_Properties
  imports Resume Query_Properties
begin

text \<open>
  The properties of the persisted session: what a turn leaves behind is what a later process resumes
  with, and what is lost on the way.
\<close>

section \<open>A concrete session for the witnesses\<close>

definition sample_stream_env :: stream_env where
  "sample_stream_env =
     \<lparr>se_uuid = (\<lambda>n. replicate n CHR ''x''), se_now = (\<lambda>n. rat_of_nat n), se_token = (\<lambda>n. ''t''),
      se_spill_fails = (\<lambda>_. False), se_inline_limit = 8, se_notify = (\<lambda>_ _ _. True), se_str = (\<lambda>_. [])\<rparr>"

definition sample_session :: session where
  "sample_session =
     \<lparr>ss_id = ''s'', ss_cwd = ''/w'', ss_created = 0, ss_updated = 0, ss_title = None, ss_branch = None,
      ss_mode = None, ss_config = [], ss_mcp = [], ss_orch_mode = ''default'', ss_history = [],
      ss_senders = [''c''], ss_last_event = None, ss_pre_plan = None, ss_exited_plan = False,
      ss_needs_exit_note = False, ss_pending_modes = [], ss_reminders = [], ss_depth = 0\<rparr>"

definition sample_stream_state :: stream_state where
  "sample_stream_state =
     \<lparr>lg_session = sample_session, lg_store = \<lparr>st_records = [], st_rows = [], st_spilled = Map.empty\<rparr>,
      lg_tick = 0, sm_sent = []\<rparr>"

section \<open>The properties\<close>



end
