(* ===== verification/Turn_Queue.thy ===== *)
theory Turn_Queue
  imports Prelude "HOL-Library.Sublist"
begin

text \<open>
  Who runs when in a session (\<open>session/turns/runner.py\<close>, \<open>prompt\<close> and \<open>cancel\<close> of
  \<open>session/api/handlers.py\<close>): the turn in flight, the queue, and the tasks that run the turns. Only
  an \<open>await\<close> lets another task in, so a task is at one of the stages between them; what it writes
  there is in \<open>Session_Stream\<close>. The session stays in memory.
\<close>

section \<open>State\<close>

type_synonym turn = nat

text \<open>\<open>Stopped\<close>: a \<open>PromptResult\<close>. \<open>Raised\<close>: the request or the future gets the exception.\<close>

datatype turn_answer = Stopped string | Raised string

text \<open>
  \<open>T_Opening\<close>: before or in the first write. \<open>T_Started\<close>: in flight, before the \<open>try\<close>. \<open>T_Streaming\<close>:
  inside it, with the stop reason so far. \<open>T_Cancelling\<close>: in the handler of the cancellation.
  \<open>T_Closing\<close>: in the \<open>finally\<close> block, with the answer it leaves with.
\<close>

datatype turn_stage =
  T_Opening
| T_Started
| T_Streaming string
| T_Cancelling
| T_Closing turn_answer

record turn_task =
  tk_turn :: turn
  tk_stage :: turn_stage
  tk_cancelled :: bool
  tk_queued :: bool

record turn_box =
  tb_in_flight :: "turn option"
  tb_queue :: "turn list"
  tb_tasks :: "turn_task list"
  tb_answers :: "(turn \<times> turn_answer) list"
  tb_accepted :: "turn list"
  tb_started :: "turn list"

definition idle_box :: turn_box where
  "idle_box = \<lparr>tb_in_flight = None, tb_queue = [], tb_tasks = [], tb_answers = [], tb_accepted = [],
     tb_started = []\<rparr>"

section \<open>Operations\<close>

definition start_turn :: "bool \<Rightarrow> turn \<Rightarrow> turn_box \<Rightarrow> turn_box" where
  "start_turn queued t b =
     b\<lparr>tb_tasks := tb_tasks b @ [\<lparr>tk_turn = t, tk_stage = T_Opening, tk_cancelled = False, tk_queued = queued\<rparr>],
       tb_started := tb_started b @ [t]\<rparr>"

definition dispatch_next :: "turn_box \<Rightarrow> bool \<times> turn_box" where
  "dispatch_next b =
     (case tb_queue b of [] \<Rightarrow> (False, b) | t # q \<Rightarrow> (True, start_turn True t (b\<lparr>tb_queue := q\<rparr>)))"

definition enqueue_turn :: "turn \<Rightarrow> turn_box \<Rightarrow> turn_box" where
  "enqueue_turn t b =
     (let b' = b\<lparr>tb_queue := tb_queue b @ [t], tb_accepted := tb_accepted b @ [t]\<rparr>
      in if tb_in_flight b' = None then snd (dispatch_next b') else b')"

definition prompt_turn :: "nat \<Rightarrow> turn \<Rightarrow> turn_box \<Rightarrow> turn_box result" where
  "prompt_turn max_queue t b =
     (if tb_in_flight b = None \<and> tb_queue b = []
      then Inr (start_turn False t (b\<lparr>tb_accepted := tb_accepted b @ [t]\<rparr>))
      else if max_queue \<le> length (tb_queue b) then Inl ''session prompt queue full''
      else Inr (enqueue_turn t b))"

definition task_of :: "turn \<Rightarrow> turn_box \<Rightarrow> turn_task option" where
  "task_of t b = find (\<lambda>k. tk_turn k = t) (tb_tasks b)"

definition move_task :: "turn \<Rightarrow> turn_stage \<Rightarrow> turn_box \<Rightarrow> turn_box" where
  "move_task t s b =
     b\<lparr>tb_tasks := map (\<lambda>k. if tk_turn k = t then k\<lparr>tk_stage := s, tk_cancelled := False\<rparr> else k) (tb_tasks b)\<rparr>"

definition end_task :: "turn \<Rightarrow> turn_answer \<Rightarrow> turn_box \<Rightarrow> turn_box" where
  "end_task t a b =
     b\<lparr>tb_tasks := filter (\<lambda>k. tk_turn k \<noteq> t) (tb_tasks b), tb_answers := tb_answers b @ [(t, a)]\<rparr>"

text \<open>The first write succeeded: the turn is recorded as the one in flight.\<close>

definition open_turn :: "turn \<Rightarrow> turn_box \<Rightarrow> turn_box" where
  "open_turn t b = (move_task t T_Started b)\<lparr>tb_in_flight := Some t\<rparr>"

text \<open>The closing writes succeeded: whatever turn is recorded as in flight is forgotten.\<close>

definition close_turn :: "turn \<Rightarrow> turn_answer \<Rightarrow> turn_box \<Rightarrow> turn_box" where
  "close_turn t a b = end_task t a (snd (dispatch_next (b\<lparr>tb_in_flight := None\<rparr>)))"

text \<open>A cancellation out of \<open>_run_turn_core\<close> is an answer of a queued turn and an exception of a prompt.\<close>

definition cancelled_answer :: "turn_task \<Rightarrow> turn_answer" where
  "cancelled_answer k = (if tk_queued k then Stopped ''cancelled'' else Raised ''CancelledError'')"

definition cancel_session :: "turn_box \<Rightarrow> turn_box" where
  "cancel_session b =
     b\<lparr>tb_tasks := map (\<lambda>k. if tb_in_flight b = Some (tk_turn k) then k\<lparr>tk_cancelled := True\<rparr> else k) (tb_tasks b),
       tb_answers := tb_answers b @ map (\<lambda>t. (t, Stopped ''cancelled'')) (tb_queue b),
       tb_queue := []\<rparr>"

section \<open>Steps\<close>

text \<open>
  \<open>Opened\<close> and \<open>Announced\<close>: the first write, then the start row and the pending mode changes.
  \<open>Stream_Ends\<close> and \<open>Stream_Raises\<close>: the \<open>try\<close> statement is left. \<open>Closed\<close>: the closing writes are
  done. \<open>Write_Fails\<close>: one outside the \<open>try\<close> fails. \<open>Cancel_Arrives\<close>: the \<open>CancelledError\<close> of a
  cancelled task is raised where it waits; the flag tells whether the orchestrator absorbs it.
\<close>

datatype turn_move =
  Prompt turn
| Gateway turn
| Opened turn
| Announced turn
| Stream_Ends turn
| Stream_Raises turn string
| Closed turn
| Write_Fails turn string
| Cancel_Arrives turn bool
| Cancel

text \<open>What a task not cancelled does, and what a cancelled one does; \<open>None\<close>: not possible.\<close>

fun turn_task_step :: "turn_move \<Rightarrow> turn_stage \<Rightarrow> turn_box \<Rightarrow> turn_box option" where
  "turn_task_step (Opened t) T_Opening b = Some (open_turn t b)"
| "turn_task_step (Announced t) T_Started b = Some (move_task t (T_Streaming ''end_turn'') b)"
| "turn_task_step (Stream_Ends t) (T_Streaming r) b = Some (move_task t (T_Closing (Stopped r)) b)"
| "turn_task_step (Stream_Ends t) T_Cancelling b = Some (move_task t (T_Closing (Stopped ''cancelled'')) b)"
| "turn_task_step (Stream_Raises t e) (T_Streaming r) b = Some (move_task t (T_Closing (Raised e)) b)"
| "turn_task_step (Stream_Raises t e) T_Cancelling b = Some (move_task t (T_Closing (Raised e)) b)"
| "turn_task_step (Closed t) (T_Closing a) b = Some (close_turn t a b)"
| "turn_task_step (Write_Fails t e) T_Opening b = Some (end_task t (Raised e) b)"
| "turn_task_step (Write_Fails t e) T_Started b = Some (end_task t (Raised e) b)"
| "turn_task_step (Write_Fails t e) (T_Closing a) b = Some (end_task t (Raised e) b)"
| "turn_task_step _ _ b = None"

fun cancelled_step :: "bool \<Rightarrow> turn_task \<Rightarrow> turn_stage \<Rightarrow> turn_box \<Rightarrow> turn_box option" where
  "cancelled_step absorbed k T_Started b = Some (end_task (tk_turn k) (cancelled_answer k) b)"
| "cancelled_step absorbed k (T_Streaming r) b =
     Some (move_task (tk_turn k) (if absorbed then T_Streaming ''cancelled'' else T_Cancelling) b)"
| "cancelled_step absorbed k T_Cancelling b = Some (move_task (tk_turn k) (T_Closing (cancelled_answer k)) b)"
| "cancelled_step absorbed k (T_Closing a) b = Some (end_task (tk_turn k) (cancelled_answer k) b)"
| "cancelled_step absorbed k T_Opening b = None"

fun step_turn :: "turn_move \<Rightarrow> turn" where
  "step_turn (Prompt t) = t"
| "step_turn (Gateway t) = t"
| "step_turn (Opened t) = t"
| "step_turn (Announced t) = t"
| "step_turn (Stream_Ends t) = t"
| "step_turn (Stream_Raises t e) = t"
| "step_turn (Closed t) = t"
| "step_turn (Write_Fails t e) = t"
| "step_turn (Cancel_Arrives t a) = t"
| "step_turn Cancel = 0"

definition turn_step :: "nat \<Rightarrow> turn_move \<Rightarrow> turn_box \<Rightarrow> turn_box option" where
  "turn_step max_queue s b =
     (case s of
        Prompt t \<Rightarrow>
          if t \<in> set (tb_accepted b) then None
          else (case prompt_turn max_queue t b of Inl _ \<Rightarrow> Some b | Inr b' \<Rightarrow> Some b')
      | Gateway t \<Rightarrow> if t \<in> set (tb_accepted b) then None else Some (enqueue_turn t b)
      | Cancel \<Rightarrow> Some (cancel_session b)
      | Cancel_Arrives t absorbed \<Rightarrow>
          (case task_of t b of
             None \<Rightarrow> None
           | Some k \<Rightarrow> if tk_cancelled k then cancelled_step absorbed k (tk_stage k) b else None)
      | _ \<Rightarrow>
          (case task_of (step_turn s) b of
             None \<Rightarrow> None
           | Some k \<Rightarrow> if tk_cancelled k then None else turn_task_step s (tk_stage k) b))"

fun turn_run :: "nat \<Rightarrow> turn_move list \<Rightarrow> turn_box \<Rightarrow> turn_box option" where
  "turn_run max_queue [] b = Some b"
| "turn_run max_queue (s # ss) b =
     (case turn_step max_queue s b of None \<Rightarrow> None | Some b' \<Rightarrow> turn_run max_queue ss b')"

lemma run_append:
  "turn_run m (xs @ ys) b = (case turn_run m xs b of None \<Rightarrow> None | Some b' \<Rightarrow> turn_run m ys b')"
  by (induction xs arbitrary: b) (auto split: option.split)

text \<open>A condition on every step of a run, looked at in the state the step is taken in.\<close>

fun each_step :: "(turn_move \<Rightarrow> turn_box \<Rightarrow> bool) \<Rightarrow> nat \<Rightarrow> turn_move list \<Rightarrow> turn_box \<Rightarrow> bool" where
  "each_step P max_queue [] b = True"
| "each_step P max_queue (s # ss) b =
     (P s b \<and> (case turn_step max_queue s b of None \<Rightarrow> True | Some b' \<Rightarrow> each_step P max_queue ss b'))"

lemma turns_keep:
  assumes "\<And>s b b'. I b \<Longrightarrow> P s b \<Longrightarrow> turn_step m s b = Some b' \<Longrightarrow> I b'"
  shows "turn_run m ss b = Some b' \<Longrightarrow> each_step P m ss b \<Longrightarrow> I b \<Longrightarrow> I b'"
  by (induction ss arbitrary: b) (auto split: option.splits intro: assms)

lemma turns_keep_always:
  assumes "\<And>s b b'. I b \<Longrightarrow> turn_step m s b = Some b' \<Longrightarrow> I b'"
  shows "turn_run m ss b = Some b' \<Longrightarrow> I b \<Longrightarrow> I b'"
  by (induction ss arbitrary: b) (auto split: option.splits intro: assms)

end
