(* ===== verification/Turn_Properties.thy ===== *)
theory Turn_Properties
  imports Turn_Queue "HOL-Library.Multiset"
begin

text \<open>
  The properties of the turn queue: no turn is lost, turns start in the order they were accepted, when
  they run one at a time and reach an answer, and when a session stops answering.
\<close>

section \<open>What a step can do\<close>

lemma task_ofD: "task_of t b = Some k \<Longrightarrow> k \<in> set (tb_tasks b) \<and> tk_turn k = t"
  by (auto simp: task_of_def find_Some_iff)

lemma turn_task_step_cases:
  assumes "turn_task_step s (tk_stage k) b = Some b'" "step_turn s = tk_turn k"
  obtains (Open) "tk_stage k = T_Opening" "b' = open_turn (tk_turn k) b"
  | (Move) st where "tk_stage k \<noteq> T_Opening" "st \<noteq> T_Opening" "b' = move_task (tk_turn k) st b"
  | (Kill) t e a where "s = Write_Fails t e" "\<not> (\<exists>r. tk_stage k = T_Streaming r)" "tk_stage k \<noteq> T_Cancelling"
      "b' = end_task (tk_turn k) a b"
  | (Close) a where "tk_stage k = T_Closing a" "b' = close_turn (tk_turn k) a b"
  using assms by (cases s; cases "tk_stage k") auto

lemma cancelled_step_cases:
  assumes "cancelled_step absorbed k (tk_stage k) b = Some b'"
  obtains (Move) st where "tk_stage k \<noteq> T_Opening" "st \<noteq> T_Opening" "b' = move_task (tk_turn k) st b"
  | (Kill) a where "\<not> (\<exists>r. tk_stage k = T_Streaming r)" "tk_stage k \<noteq> T_Cancelling"
      "b' = end_task (tk_turn k) a b"
  using assms by (cases "tk_stage k"; cases absorbed) auto

lemma turn_step_cases:
  assumes "turn_step m s b = Some b'"
  obtains (Same) "b' = b"
  | (Start) t where "s = Prompt t" "t \<notin> set (tb_accepted b)" "tb_in_flight b = None" "tb_queue b = []"
      "b' = start_turn False t (b\<lparr>tb_accepted := tb_accepted b @ [t]\<rparr>)"
  | (Enqueue) t where "s = Prompt t \<or> s = Gateway t" "t \<notin> set (tb_accepted b)" "b' = enqueue_turn t b"
  | (Cancel) "s = Cancel" "b' = cancel_session b"
  | (Open) k where "k \<in> set (tb_tasks b)" "tk_stage k = T_Opening" "b' = open_turn (tk_turn k) b"
  | (Move) k st where "k \<in> set (tb_tasks b)" "tk_stage k \<noteq> T_Opening" "st \<noteq> T_Opening"
      "b' = move_task (tk_turn k) st b"
  | (Kill) k a where "k \<in> set (tb_tasks b)" "(\<exists>t e. s = Write_Fails t e) \<or> tk_cancelled k"
      "\<not> (\<exists>r. tk_stage k = T_Streaming r)" "tk_stage k \<noteq> T_Cancelling" "b' = end_task (tk_turn k) a b"
  | (Close) k a where "k \<in> set (tb_tasks b)" "tk_stage k = T_Closing a" "b' = close_turn (tk_turn k) a b"
proof (cases "\<exists>t. s = Prompt t \<or> s = Gateway t \<or> s = turn_move.Cancel \<or> (\<exists>a. s = Cancel_Arrives t a)")
  case True
  then consider t where "s = Prompt t" | t where "s = Gateway t" | "s = turn_move.Cancel"
    | t a where "s = Cancel_Arrives t a" by blast
  then show thesis
  proof cases
    case 1
    show thesis
    proof (cases "prompt_turn m t b")
      case (Inl e)
      with assms 1 that(1) show thesis by (simp add: turn_step_def split: if_splits)
    next
      case (Inr b1)
      then have "b' = b1" "t \<notin> set (tb_accepted b)" using assms 1 by (simp_all add: turn_step_def split: if_splits)
      with Inr 1 that(2,3) [of t] show thesis by (simp add: prompt_turn_def split: if_splits)
    qed
  next
    case 2
    then show thesis using assms that(3) by (auto simp: turn_step_def split: if_splits)
  next
    case 3
    then show thesis using assms that(4) by (simp add: turn_step_def)
  next
    case 4
    then obtain k where k: "task_of t b = Some k" "tk_cancelled k" "cancelled_step a k (tk_stage k) b = Some b'"
      using assms by (auto simp: turn_step_def split: option.splits if_splits)
    note t = task_ofD [OF k(1)]
    from k(3) show thesis
      by (cases rule: cancelled_step_cases) (use t 4 k(2) that(6,7) in auto)
  qed
next
  case False
  then obtain k where k: "task_of (step_turn s) b = Some k" "turn_task_step s (tk_stage k) b = Some b'"
    using assms by (cases s) (auto simp: turn_step_def split: option.splits if_splits)
  have t: "k \<in> set (tb_tasks b)" "step_turn s = tk_turn k" using task_ofD [OF k(1)] by simp_all
  from k(2) t(2) show thesis
    by (cases rule: turn_task_step_cases) (use t(1) that(5-8) in auto)
qed

section \<open>Every accepted turn is somewhere\<close>

definition box_ok :: "turn_box \<Rightarrow> bool" where
  "box_ok b \<longleftrightarrow> distinct (tb_accepted b)
     \<and> mset (tb_accepted b) = mset (tb_queue b) + mset (map tk_turn (tb_tasks b)) + mset (map fst (tb_answers b))
     \<and> subseq (tb_started b @ tb_queue b) (tb_accepted b)"

lemma box_okD:
  assumes "box_ok b"
  shows "distinct (map tk_turn (tb_tasks b))" "set (tb_queue b) \<inter> tk_turn ` set (tb_tasks b) = {}"
proof -
  have "mset (tb_accepted b) = mset (tb_queue b @ map tk_turn (tb_tasks b) @ map fst (tb_answers b))"
    using assms by (simp add: box_ok_def)
  then have "distinct (tb_queue b @ map tk_turn (tb_tasks b) @ map fst (tb_answers b))"
    using assms mset_eq_imp_distinct_iff unfolding box_ok_def by metis
  then show "distinct (map tk_turn (tb_tasks b))" "set (tb_queue b) \<inter> tk_turn ` set (tb_tasks b) = {}"
    by auto
qed

lemma mset_without:
  "distinct (map f xs) \<Longrightarrow> x \<in> set xs \<Longrightarrow>
     mset (map f xs) = add_mset (f x) (mset (map f (filter (\<lambda>y. f y \<noteq> f x) xs)))"
proof (induction xs)
  case (Cons y ys)
  have "filter (\<lambda>y'. f y' \<noteq> f y) ys = ys"
    using Cons.prems(1) by (auto simp: filter_id_conv) (metis image_eqI)
  with Cons show ?case by (auto simp del: mset_filter)
qed simp

lemma start_ok:
  "box_ok b \<Longrightarrow> tb_queue b = t # q \<Longrightarrow> box_ok (start_turn queued t (b\<lparr>tb_queue := q\<rparr>))"
  by (simp add: box_ok_def start_turn_def)

lemma dispatch_ok: "box_ok b \<Longrightarrow> box_ok (snd (dispatch_next b))"
  using start_ok by (simp add: dispatch_next_def split: list.split)

lemma accept_ok: "box_ok b \<Longrightarrow> t \<notin> set (tb_accepted b) \<Longrightarrow>
    box_ok (b\<lparr>tb_queue := tb_queue b @ [t], tb_accepted := tb_accepted b @ [t]\<rparr>)"
  using list_emb_append_mono [of "(=)" "tb_started b @ tb_queue b" "tb_accepted b" "[t]" "[t]"]
  by (auto simp: box_ok_def)

lemma enqueue_ok: "box_ok b \<Longrightarrow> t \<notin> set (tb_accepted b) \<Longrightarrow> box_ok (enqueue_turn t b)"
  using accept_ok dispatch_ok by (simp add: enqueue_turn_def Let_def)

lemma end_ok: "box_ok b \<Longrightarrow> k \<in> set (tb_tasks b) \<Longrightarrow> box_ok (end_task (tk_turn k) a b)"
  using mset_without [OF box_okD(1)] by (fastforce simp: box_ok_def end_task_def)

lemma move_ok [simp]: "box_ok (move_task t s b) = box_ok b"
  by (simp add: box_ok_def move_task_def comp_def if_distrib cong: if_cong)

lemma move_turns [simp]: "map tk_turn (tb_tasks (move_task t s b)) = map tk_turn (tb_tasks b)"
  by (simp add: move_task_def comp_def if_distrib cong: if_cong)

lemma in_flight_ok [simp]: "box_ok (b\<lparr>tb_in_flight := f\<rparr>) = box_ok b"
  by (simp add: box_ok_def)

lemma dispatch_tasks:
  "tb_tasks (snd (dispatch_next b)) = tb_tasks b @
     (case tb_queue b of [] \<Rightarrow> []
      | t # q \<Rightarrow> [\<lparr>tk_turn = t, tk_stage = T_Opening, tk_cancelled = False, tk_queued = True\<rparr>])"
  by (simp add: dispatch_next_def start_turn_def split: list.split)

lemma close_ok: "box_ok b \<Longrightarrow> k \<in> set (tb_tasks b) \<Longrightarrow> box_ok (close_turn (tk_turn k) a b)"
  unfolding close_turn_def by (intro end_ok dispatch_ok) (auto simp: dispatch_tasks)

lemma cancel_turns: "map tk_turn (tb_tasks (cancel_session b)) = map tk_turn (tb_tasks b)"
  by (simp add: cancel_session_def comp_def if_distrib cong: if_cong)

lemma cancel_ok: "box_ok b \<Longrightarrow> box_ok (cancel_session b)"
proof -
  assume *: "box_ok b"
  note turns = cancel_turns [of b]
  have rest: "tb_queue (cancel_session b) = []" "tb_accepted (cancel_session b) = tb_accepted b"
      "map fst (tb_answers (cancel_session b)) = map fst (tb_answers b) @ tb_queue b"
      "tb_started (cancel_session b) = tb_started b"
    by (simp_all add: cancel_session_def comp_def)
  have "subseq (tb_started b) (tb_accepted b)"
    using * unfolding box_ok_def by (metis prefixI prefix_imp_subseq subseq_order.trans)
  then show ?thesis using * unfolding box_ok_def turns rest by simp
qed

lemma step_ok:
  assumes "box_ok b" "turn_step m s b = Some b'"
  shows "box_ok b'"
  using assms(2)
proof (cases rule: turn_step_cases)
  case (Start t)
  have "subseq (tb_started b @ [t]) (tb_accepted b @ [t])"
    using assms(1) Start(4) by (intro list_emb_append_mono) (auto simp: box_ok_def)
  with assms(1) Start show ?thesis by (auto simp: box_ok_def start_turn_def)
qed (use assms(1) in \<open>simp_all add: enqueue_ok cancel_ok open_turn_def end_ok close_ok\<close>)

lemma idle_ok: "box_ok idle_box"
  by (simp add: box_ok_def idle_box_def)

lemma run_ok: "turn_run m ss idle_box = Some b \<Longrightarrow> box_ok b"
  using turns_keep_always [of box_ok m] step_ok idle_ok by blast

text \<open>
  C9: No turn is lost, run twice or overtaken. Whatever prompts, gateways, writes, streams and
  cancellations do, every accepted turn is in exactly one place - in the queue, run by a task, or
  answered - and turns start in the order in which they were accepted, those that wait after all that
  have started.
\<close>

theorem turns_in_order:
  assumes "turn_run m ss idle_box = Some b"
  shows "distinct (tb_accepted b)
    \<and> mset (tb_accepted b) = mset (tb_queue b) + mset (map tk_turn (tb_tasks b)) + mset (map fst (tb_answers b))
    \<and> subseq (tb_started b @ tb_queue b) (tb_accepted b)"
  using run_ok [OF assms] by (simp_all add: box_ok_def)

text \<open>Two prompts while a first turn runs, and a cancellation after which a third one comes.\<close>

theorem turns_in_order_witness:
  "\<exists>b. turn_run 50 [Prompt 1, Opened 1, Prompt 2, Gateway 3, Announced 1, Stream_Ends 1, Closed 1, Opened 2,
           turn_move.Cancel, Prompt 4] idle_box = Some b
     \<and> tb_started b = [1, 2] \<and> tb_queue b = [4] \<and> tb_accepted b = [1, 2, 3, 4]
     \<and> subseq (tb_started b @ tb_queue b) (tb_accepted b)"
proof -
  let ?ss = "[Prompt 1, Opened 1, Prompt 2, Gateway 3, Announced 1, Stream_Ends 1, Closed 1, Opened 2,
    turn_move.Cancel, Prompt 4]"
  have "map_option (\<lambda>b. (tb_started b, tb_queue b, tb_accepted b)) (turn_run 50 ?ss idle_box) =
      Some ([1, 2], [4], [1, 2, 3, 4])"
    by code_simp
  then obtain b where "turn_run 50 ?ss idle_box = Some b"
      "(tb_started b, tb_queue b, tb_accepted b) = ([1, 2], [4], [1, 2, 3, 4])"
    by (cases "turn_run 50 ?ss idle_box") auto
  with turns_in_order [OF this(1)] show ?thesis by blast
qed

section \<open>One turn at a time\<close>

definition arrives :: "turn_move \<Rightarrow> bool" where
  "arrives s = (case s of Prompt _ \<Rightarrow> True | Gateway _ \<Rightarrow> True | _ \<Rightarrow> False)"

definition being_opened :: "turn_box \<Rightarrow> bool" where
  "being_opened b \<longleftrightarrow> (\<exists>k \<in> set (tb_tasks b). tk_stage k = T_Opening)"

definition serial :: "turn_box \<Rightarrow> bool" where
  "serial b \<longleftrightarrow> length (tb_tasks b) \<le> 1 \<and>
     (\<forall>k \<in> set (tb_tasks b). tk_stage k = T_Opening \<or> tb_in_flight b = Some (tk_turn k))"

lemma single: "length xs \<le> 1 \<Longrightarrow> x \<in> set xs \<Longrightarrow> xs = [x]"
  by (cases xs) auto

lemma idle_tasks: "serial b \<Longrightarrow> tb_in_flight b = None \<Longrightarrow> \<not> being_opened b \<Longrightarrow> tb_tasks b = []"
  by (cases "tb_tasks b") (auto simp: serial_def being_opened_def)

lemma serial_enqueue:
  assumes "serial b" "\<not> being_opened b"
  shows "serial (enqueue_turn t b)"
proof (cases "tb_in_flight b")
  case None
  then have "tb_tasks b = []" using idle_tasks assms by blast
  with None show ?thesis
    by (cases "tb_queue b") (simp_all add: enqueue_turn_def dispatch_next_def start_turn_def serial_def Let_def)
next
  case (Some t')
  with assms(1) show ?thesis by (simp add: enqueue_turn_def serial_def)
qed

lemma serial_close:
  assumes "serial b" "box_ok b" "k \<in> set (tb_tasks b)"
  shows "serial (close_turn (tk_turn k) a b)"
proof -
  have "tb_tasks b = [k]" using single assms(1,3) by (auto simp: serial_def)
  then show ?thesis
    by (cases "tb_queue b") (simp_all add: close_turn_def end_task_def dispatch_next_def start_turn_def serial_def)
qed

lemma serial_step:
  assumes "box_ok b \<and> serial b" "arrives s \<longrightarrow> \<not> being_opened b" "turn_step m s b = Some b'"
  shows "box_ok b' \<and> serial b'"
proof
  show "box_ok b'" using step_ok assms by blast
  show "serial b'"
    using assms(3)
  proof (cases rule: turn_step_cases)
    case (Start t)
    then have "\<not> being_opened b" using assms(2) by (simp add: arrives_def)
    then have "tb_tasks b = []" using idle_tasks Start(3) assms(1) by blast
    with Start show ?thesis by (simp add: start_turn_def serial_def)
  next
    case (Enqueue t)
    then have "\<not> being_opened b" using assms(2) by (auto simp: arrives_def)
    then show ?thesis using Enqueue assms(1) by (simp add: serial_enqueue)
  next
    case (Open k)
    moreover have "tb_tasks b = [k]" using single Open(1) assms(1) by (auto simp: serial_def)
    ultimately show ?thesis by (auto simp: open_turn_def move_task_def serial_def)
  next
    case (Close k a)
    then show ?thesis using assms(1) by (simp add: serial_close)
  next
    case (Move k st)
    moreover have "tb_tasks b = [k]" using single Move(1) assms(1) by (auto simp: serial_def)
    ultimately show ?thesis using assms(1) by (auto simp: move_task_def serial_def)
  next
    case (Kill k a)
    then show ?thesis using assms(1) by (auto simp: end_task_def serial_def intro: order_trans [OF length_filter_le])
  qed (use assms(1) in \<open>auto simp: cancel_session_def serial_def\<close>)
qed

text \<open>
  C10: Turns of a session run one at a time, as the module says, if no prompt or gateway message
  arrives while a turn is still in its first write: a session that looks at \<open>in_flight_turn\<close> alone
  takes such a turn for absent. (\<open>turns_overlap\<close> has the run where one does arrive.)
\<close>

theorem one_turn_at_a_time:
  assumes "turn_run m ss idle_box = Some b" "each_step (\<lambda>s b. arrives s \<longrightarrow> \<not> being_opened b) m ss idle_box"
  shows "length (tb_tasks b) \<le> 1"
proof -
  have "box_ok b \<and> serial b"
  proof (rule turns_keep [OF _ assms])
    show "box_ok idle_box \<and> serial idle_box" using idle_ok by (simp add: idle_box_def serial_def)
  qed (rule serial_step)
  then show ?thesis by (simp add: serial_def)
qed

theorem one_turn_at_a_time_witness:
  "map_option (\<lambda>b. length (tb_tasks b) \<le> 1 \<and> tb_queue b = [3])
     (turn_run 50 [Prompt 1, Opened 1, Prompt 2, Gateway 3, Announced 1, Stream_Ends 1, Closed 1] idle_box) = Some True"
proof -
  let ?ss = "[Prompt 1, Opened 1, Prompt 2, Gateway 3, Announced 1, Stream_Ends 1, Closed 1]"
  have q: "map_option tb_queue (turn_run 50 ?ss idle_box) = Some [3]" by code_simp
  then obtain b where b: "turn_run 50 ?ss idle_box = Some b" by blast
  have "each_step (\<lambda>s b. arrives s \<longrightarrow> \<not> being_opened b) 50 ?ss idle_box" by code_simp
  from one_turn_at_a_time [OF b this] q b show ?thesis by simp
qed

text \<open>Two prompts that both find the session idle stream at the same time.\<close>

lemma turns_overlap:
  "map_option (\<lambda>b. map tk_stage (tb_tasks b))
     (turn_run 50 [Prompt 1, Prompt 2, Opened 1, Announced 1, Opened 2, Announced 2] idle_box) =
   Some [T_Streaming ''end_turn'', T_Streaming ''end_turn'']"
  by code_simp

text \<open>A gateway's messages are queued beyond the length at which prompts are refused.\<close>

lemma gateway_over_limit:
  "map_option (\<lambda>b. tb_queue b) (turn_run 1 [Prompt 1, Opened 1, Gateway 2, Gateway 3, Gateway 4, Prompt 5] idle_box) =
   Some [2, 3, 4]"
  by code_simp

text \<open>
  A queued turn that a cancellation answers is never started; the text its gateway waits for comes from the
  turn's last step, so that wait never ends.
\<close>

definition passed_over :: "turn \<Rightarrow> turn_box \<Rightarrow> bool" where
  "passed_over t b \<longleftrightarrow> t \<in> set (tb_accepted b) \<and> t \<notin> set (tb_queue b) \<and> t \<notin> set (tb_started b)"

lemma dispatch_passed: "passed_over t b \<Longrightarrow> passed_over t (snd (dispatch_next b))"
  by (auto simp: passed_over_def dispatch_next_def start_turn_def split: list.split)

lemma passed_step:
  assumes "passed_over t b" "turn_step m s b = Some b'"
  shows "passed_over t b'"
  using assms(2)
proof (cases rule: turn_step_cases)
  case (Enqueue t')
  then have "passed_over t (b\<lparr>tb_queue := tb_queue b @ [t'], tb_accepted := tb_accepted b @ [t']\<rparr>)"
    using assms(1) by (auto simp: passed_over_def)
  then show ?thesis using Enqueue by (simp add: enqueue_turn_def Let_def dispatch_passed)
next
  case (Close k a)
  have "passed_over t (b\<lparr>tb_in_flight := None\<rparr>)" using assms(1) by (simp add: passed_over_def)
  from dispatch_passed [OF this] Close show ?thesis by (simp add: close_turn_def passed_over_def end_task_def)
qed (use assms(1) in \<open>auto simp: passed_over_def start_turn_def open_turn_def move_task_def end_task_def cancel_session_def\<close>)

lemma subseq_keeps: "subseq xs ys \<Longrightarrow> set xs \<subseteq> set ys \<and> (distinct ys \<longrightarrow> distinct xs)"
  by (induction rule: list_emb.induct) auto

lemma cancelled_never_starts:
  assumes "turn_run m ss idle_box = Some b" "t \<in> set (tb_queue b)" "turn_run m ss' (cancel_session b) = Some b'"
  shows "t \<notin> set (tb_started b')"
proof -
  have "distinct (tb_started b @ tb_queue b)" "t \<in> set (tb_accepted b)"
    using run_ok [OF assms(1)] assms(2) subseq_keeps [of "tb_started b @ tb_queue b"] by (auto simp: box_ok_def)
  with assms(2) have "passed_over t (cancel_session b)" by (auto simp: passed_over_def cancel_session_def)
  then have "passed_over t b'" using turns_keep_always [of "passed_over t" m] passed_step assms(3) by blast
  then show ?thesis by (simp add: passed_over_def)
qed

section \<open>Every turn can be answered\<close>

text \<open>
  \<open>orderly\<close>: no write outside the \<open>try\<close> fails, and a cancellation comes while the turn in flight, if
  any, streams.
\<close>

definition streams :: "turn_task \<Rightarrow> bool" where
  "streams k = (case tk_stage k of T_Streaming _ \<Rightarrow> True | T_Cancelling \<Rightarrow> True | _ \<Rightarrow> False)"

definition orderly :: "turn_move \<Rightarrow> turn_box \<Rightarrow> bool" where
  "orderly s b =
     (case s of
        Write_Fails _ _ \<Rightarrow> False
      | turn_move.Cancel \<Rightarrow> \<forall>k \<in> set (tb_tasks b). tb_in_flight b = Some (tk_turn k) \<longrightarrow> streams k
      | _ \<Rightarrow> True)"

definition lively :: "turn_box \<Rightarrow> bool" where
  "lively b \<longleftrightarrow> (tb_queue b \<noteq> [] \<longrightarrow> tb_tasks b \<noteq> [])
     \<and> (\<forall>t. tb_in_flight b = Some t \<longrightarrow> t \<in> tk_turn ` set (tb_tasks b))
     \<and> (\<forall>k \<in> set (tb_tasks b). tk_cancelled k \<longrightarrow> streams k)"

lemma lively_enqueue: "lively b \<Longrightarrow> lively (enqueue_turn t b)"
  by (cases "tb_in_flight b"; cases "tb_queue b")
    (auto simp: lively_def enqueue_turn_def dispatch_next_def start_turn_def streams_def Let_def)

lemma lively_close:
  assumes "lively b" "box_ok b" "k \<in> set (tb_tasks b)"
  shows "lively (close_turn (tk_turn k) a b)"
proof (cases "tb_queue b")
  case Nil
  with assms(1) show ?thesis by (auto simp: close_turn_def dispatch_next_def end_task_def lively_def)
next
  case (Cons t q)
  then have "t \<noteq> tk_turn k" using box_okD(2) [OF assms(2)] assms(3) by auto
  with Cons assms(1) show ?thesis
    by (auto simp: close_turn_def dispatch_next_def start_turn_def end_task_def lively_def)
qed

lemma lively_move:
  assumes "lively b"
  shows "lively (move_task t st b)" "tk_turn ` set (tb_tasks (move_task t st b)) = tk_turn ` set (tb_tasks b)"
proof -
  show alive: "tk_turn ` set (tb_tasks (move_task t st b)) = tk_turn ` set (tb_tasks b)"
    by (metis move_turns set_map)
  have "\<forall>k \<in> set (tb_tasks (move_task t st b)). tk_cancelled k \<longrightarrow> streams k"
    using assms by (auto simp: move_task_def lively_def streams_def)
  moreover have "tb_in_flight (move_task t st b) = tb_in_flight b" "tb_queue (move_task t st b) = tb_queue b"
      "tb_tasks (move_task t st b) = [] \<longleftrightarrow> tb_tasks b = []"
    by (simp_all add: move_task_def)
  ultimately show "lively (move_task t st b)" using assms alive by (simp add: lively_def)
qed

lemma lively_step:
  assumes "box_ok b \<and> lively b" "orderly s b" "turn_step m s b = Some b'"
  shows "box_ok b' \<and> lively b'"
proof
  show "box_ok b'" using step_ok assms by blast
  show "lively b'"
    using assms(3)
  proof (cases rule: turn_step_cases)
    case (Start t)
    with assms(1) show ?thesis by (auto simp: start_turn_def lively_def)
  next
    case (Enqueue t)
    with assms(1) show ?thesis by (simp add: lively_enqueue)
  next
    case Cancel
    have "tk_turn ` set (tb_tasks (cancel_session b)) = tk_turn ` set (tb_tasks b)"
      using arg_cong [OF cancel_turns, of set b] by simp
    moreover have "\<forall>k \<in> set (tb_tasks (cancel_session b)). tk_cancelled k \<longrightarrow> streams k"
      using assms(1,2) Cancel(1) by (auto simp: cancel_session_def lively_def orderly_def streams_def)
    moreover have "tb_in_flight (cancel_session b) = tb_in_flight b" "tb_queue (cancel_session b) = []"
      by (simp_all add: cancel_session_def)
    ultimately show ?thesis using assms(1) Cancel(2) by (simp add: lively_def)
  next
    case (Open k)
    then show ?thesis
      using assms(1) lively_move [of b "tk_turn k" T_Started] by (auto simp: open_turn_def lively_def)
  next
    case (Move k st)
    with assms(1) show ?thesis by (simp add: lively_move)
  next
    case (Kill k a)
    then have "\<not> streams k" by (simp add: streams_def split: turn_stage.split)
    moreover have "tk_cancelled k" using Kill(2) assms(2) by (auto simp: orderly_def)
    ultimately show ?thesis using Kill(1) assms(1) by (simp add: lively_def)
  next
    case (Close k a)
    with assms(1) show ?thesis by (simp add: lively_close)
  qed (use assms(1) in simp)
qed

text \<open>The steps a turn still takes, at most.\<close>

definition stage_work :: "turn_task \<Rightarrow> nat" where
  "stage_work k =
     (case tk_stage k of T_Opening \<Rightarrow> 4 | T_Started \<Rightarrow> 3 | T_Streaming _ \<Rightarrow> 2 | T_Cancelling \<Rightarrow> 2 | T_Closing _ \<Rightarrow> 1)
     + (if tk_cancelled k then 1 else 0)"

definition work :: "turn_box \<Rightarrow> nat" where
  "work b = 5 * length (tb_queue b) + sum_list (map stage_work (tb_tasks b))"

definition own_step :: "turn_move \<Rightarrow> bool" where
  "own_step s \<longleftrightarrow> \<not> arrives s \<and> s \<noteq> turn_move.Cancel"

lemma first_moves:
  assumes "box_ok b" "tb_tasks b = k # ks"
  shows "tb_tasks (move_task (tk_turn k) st b) = k\<lparr>tk_stage := st, tk_cancelled := False\<rparr> # ks"
    and "tb_tasks (end_task (tk_turn k) a b) = ks"
    and "task_of (tk_turn k) b = Some k"
proof -
  have "\<forall>x \<in> set ks. tk_turn x \<noteq> tk_turn k" using box_okD(1) [OF assms(1)] assms(2) by (auto simp: image_iff)
  with assms(2) show "tb_tasks (move_task (tk_turn k) st b) = k\<lparr>tk_stage := st, tk_cancelled := False\<rparr> # ks"
    "tb_tasks (end_task (tk_turn k) a b) = ks" "task_of (tk_turn k) b = Some k"
    by (simp_all add: move_task_def end_task_def task_of_def map_idI filter_id_conv)
qed

lemma work_move:
  assumes "box_ok b" "tb_tasks b = k # ks"
    and "stage_work (k\<lparr>tk_stage := st, tk_cancelled := False\<rparr>) < stage_work k"
  shows "work (move_task (tk_turn k) st b) < work b" "tb_accepted (move_task (tk_turn k) st b) = tb_accepted b"
  using assms(3) first_moves(1) [OF assms(1,2)] assms(2) by (simp_all add: work_def) (simp_all add: move_task_def)

lemma work_close:
  assumes "box_ok b" "tb_tasks b = k # ks" "tk_stage k = T_Closing a"
  shows "work (close_turn (tk_turn k) a b) < work b \<and> tb_accepted (close_turn (tk_turn k) a b) = tb_accepted b"
proof -
  have ks: "filter (\<lambda>x. tk_turn x \<noteq> tk_turn k) ks = ks"
    using box_okD(1) [OF assms(1)] assms(2) by (auto simp: image_iff filter_id_conv)
  show ?thesis
  proof (cases "tb_queue b")
    case Nil
    with assms ks show ?thesis
      by (simp add: close_turn_def dispatch_next_def end_task_def work_def stage_work_def)
  next
    case (Cons t q)
    then have "t \<noteq> tk_turn k" using box_okD(2) [OF assms(1)] assms(2) by auto
    with Cons assms ks show ?thesis
      by (simp add: close_turn_def dispatch_next_def start_turn_def end_task_def work_def stage_work_def)
  qed
qed

lemma some_step:
  assumes "box_ok b \<and> lively b" "tb_tasks b \<noteq> []"
  shows "\<exists>s b'. turn_step m s b = Some b' \<and> orderly s b \<and> own_step s \<and> work b' < work b
    \<and> tb_accepted b' = tb_accepted b"
proof -
  obtain k ks where ks: "tb_tasks b = k # ks" using assms(2) by (cases "tb_tasks b") auto
  note b = conjunct1 [OF assms(1)]
  note find = first_moves(3) [OF b ks]
  note move = work_move [OF b ks]
  let ?goes = "\<lambda>s b'. turn_step m s b = Some b' \<and> orderly s b \<and> own_step s \<and> work b' < work b
    \<and> tb_accepted b' = tb_accepted b"
  show ?thesis
  proof (cases "tk_cancelled k")
    case True
    then have "streams k" using assms(1) ks by (simp add: lively_def)
    then consider r where "tk_stage k = T_Streaming r" | "tk_stage k = T_Cancelling"
      by (auto simp: streams_def split: turn_stage.splits)
    then have "\<exists>b'. ?goes (Cancel_Arrives (tk_turn k) False) b'"
      using True find move [of T_Cancelling] move [of "T_Closing (cancelled_answer k)"]
      by cases (simp_all add: turn_step_def orderly_def own_step_def arrives_def stage_work_def)
    then show ?thesis by blast
  next
    case False
    have "\<exists>b'. ?goes (case tk_stage k of T_Opening \<Rightarrow> Opened (tk_turn k) | T_Started \<Rightarrow> Announced (tk_turn k)
        | T_Closing _ \<Rightarrow> Closed (tk_turn k) | _ \<Rightarrow> Stream_Ends (tk_turn k)) b'"
    proof (cases "tk_stage k")
      case T_Opening
      have "work (open_turn (tk_turn k) b) = work (move_task (tk_turn k) T_Started b)"
        "tb_accepted (open_turn (tk_turn k) b) = tb_accepted (move_task (tk_turn k) T_Started b)"
        by (simp_all add: open_turn_def work_def)
      with T_Opening False find move [of T_Started] show ?thesis
        by (simp add: turn_step_def orderly_def own_step_def arrives_def stage_work_def)
    next
      case (T_Closing a)
      with False find work_close [OF b ks] show ?thesis
        by (simp add: turn_step_def orderly_def own_step_def arrives_def)
    qed (use False find move in
      \<open>simp_all add: turn_step_def orderly_def own_step_def arrives_def stage_work_def\<close>)
    then show ?thesis by blast
  qed
qed

lemma all_steps:
  "box_ok b \<and> lively b \<Longrightarrow> \<exists>ss b'. turn_run m ss b = Some b' \<and> length ss \<le> work b \<and> (\<forall>s \<in> set ss. own_step s)
     \<and> tb_accepted b' = tb_accepted b \<and> fst ` set (tb_answers b') = set (tb_accepted b)"
proof (induction "work b" arbitrary: b rule: less_induct)
  case less
  show ?case
  proof (cases "tb_tasks b = []")
    case True
    then have "tb_queue b = []" using less.prems by (auto simp: lively_def)
    with True have "mset (tb_accepted b) = mset (map fst (tb_answers b))"
      using less.prems by (simp add: box_ok_def)
    then have "set (tb_accepted b) = fst ` set (tb_answers b)" by (metis mset_eq_setD set_map)
    then show ?thesis by (intro exI [of _ "[]"] exI [of _ b]) simp
  next
    case False
    from some_step [OF less.prems False] obtain s b1 where s: "turn_step m s b = Some b1" "orderly s b"
        "own_step s" "work b1 < work b" "tb_accepted b1 = tb_accepted b"
      by blast
    then obtain ss b' where "turn_run m ss b1 = Some b'" "length ss \<le> work b1" "\<forall>s \<in> set ss. own_step s"
        "tb_accepted b' = tb_accepted b1" "fst ` set (tb_answers b') = set (tb_accepted b1)"
      using less.hyps lively_step [OF less.prems] by blast
    with s show ?thesis by (intro exI [of _ "s # ss"] exI [of _ b']) simp
  qed
qed

text \<open>
  C11: No session stalls while its writes succeed: after any run in which no write outside the \<open>try\<close>
  failed and cancellations met a streaming turn - also one where turns overlapped - the tasks can
  bring every accepted turn to its answer in a bounded number of steps of their own.
\<close>

theorem turns_answered:
  assumes "turn_run m ss idle_box = Some b" "each_step orderly m ss idle_box"
  shows "\<exists>ss' b'. turn_run m ss' b = Some b' \<and> length ss' \<le> work b \<and> (\<forall>s \<in> set ss'. own_step s)
     \<and> tb_accepted b' = tb_accepted b \<and> fst ` set (tb_answers b') = set (tb_accepted b)"
proof -
  have "box_ok b \<and> lively b"
  proof (rule turns_keep [OF _ assms])
    show "box_ok idle_box \<and> lively idle_box" using idle_ok by (simp add: idle_box_def lively_def)
  qed (rule lively_step)
  then show ?thesis by (rule all_steps)
qed

theorem turns_answered_witness:
  "\<exists>ss' b'. turn_run 50 ([Prompt 1, Prompt 2, Opened 1, Prompt 3, Opened 2, Announced 1, Announced 2, Gateway 4,
       turn_move.Cancel, Prompt 5] @ ss') idle_box = Some b' \<and> fst ` set (tb_answers b') = {1, 2, 3, 4, 5}"
proof -
  let ?ss = "[Prompt 1, Prompt 2, Opened 1, Prompt 3, Opened 2, Announced 1, Announced 2, Gateway 4,
       turn_move.Cancel, Prompt 5]"
  have acc: "map_option tb_accepted (turn_run 50 ?ss idle_box) = Some [1, 2, 3, 4, 5]" by code_simp
  then obtain b where b: "turn_run 50 ?ss idle_box = Some b" by blast
  have o: "each_step orderly 50 ?ss idle_box" by code_simp
  from turns_answered [OF b o] obtain ss' b' where "turn_run 50 ss' b = Some b'"
      "fst ` set (tb_answers b') = set (tb_accepted b)" by blast
  moreover from this b have "turn_run 50 (?ss @ ss') idle_box = Some b'" by (simp only: run_append option.case)
  moreover have "set (tb_accepted b) = {1, 2, 3, 4, 5}" using acc b by simp
  ultimately show ?thesis by blast
qed

section \<open>A session that answers nothing any more\<close>

definition wedged :: "turn \<Rightarrow> turn_box \<Rightarrow> turn_box \<Rightarrow> bool" where
  "wedged t b0 b \<longleftrightarrow> tb_tasks b = [] \<and> tb_in_flight b = Some t \<and> tb_started b = tb_started b0
     \<and> (\<exists>ts. tb_answers b = tb_answers b0 @ map (\<lambda>t. (t, Stopped ''cancelled'')) ts)"

lemma wedged_step:
  assumes "wedged t b0 b" "turn_step m s b = Some b'"
  shows "wedged t b0 b'"
  using assms(2)
proof (cases rule: turn_step_cases)
  case (Enqueue t')
  with assms(1) show ?thesis by (simp add: wedged_def enqueue_turn_def)
next
  case Cancel
  from assms(1) obtain ts where "tb_answers b = tb_answers b0 @ map (\<lambda>t. (t, Stopped ''cancelled'')) ts"
    by (auto simp: wedged_def)
  with assms(1) Cancel show ?thesis
    by (auto simp: wedged_def cancel_session_def intro!: exI [of _ "ts @ tb_queue b"])
qed (use assms(1) in \<open>auto simp: wedged_def\<close>)

text \<open>
  C8: One failed write ends a session. When a write of the running turn outside the \<open>try\<close> fails - or a
  cancellation arrives there, in the start row, the closing rows or the mode changes between - the
  turn stays recorded as the one in flight. No later turn ever starts, whatever arrives: prompts and
  gateway messages are queued for good, a cancellation answers those waiting and nothing else, and as
  \<open>in_flight_turn\<close> never clears, the session is not evicted either.
\<close>

theorem session_wedged:
  assumes "tb_tasks b = [k]" "tb_in_flight b = Some (tk_turn k)"
    and "s = Write_Fails (tk_turn k) e \<or> s = Cancel_Arrives (tk_turn k) absorbed \<and> \<not> streams k"
    and "turn_step m s b = Some b1" "turn_run m ss b1 = Some b'"
  shows "tb_started b' = tb_started b \<and> tb_in_flight b' = Some (tk_turn k) \<and>
    (\<exists>a ts. tb_answers b' = tb_answers b @ (tk_turn k, a) # map (\<lambda>t. (t, Stopped ''cancelled'')) ts)"
proof -
  have k: "task_of (tk_turn k) b = Some k" using assms(1) by (simp add: task_of_def)
  have "\<exists>a. b1 = end_task (tk_turn k) a b"
    using assms(3,4) k by (cases "tk_stage k") (auto simp: turn_step_def streams_def split: if_splits)
  then obtain a where a: "b1 = end_task (tk_turn k) a b" by blast
  have "wedged (tk_turn k) b1 b1" using a assms(1,2) by (simp add: wedged_def end_task_def)
  then have "wedged (tk_turn k) b1 b'"
    using turns_keep_always [where I = "wedged (tk_turn k) b1", OF _ assms(5)] wedged_step by blast
  then show ?thesis using a by (auto simp: wedged_def end_task_def)
qed

theorem session_wedged_witness:
  "map_option (\<lambda>b. (tb_started b, tb_queue b, tb_answers b))
     (turn_run 50 [Prompt 1, Opened 1, Announced 1, Stream_Ends 1, Write_Fails 1 ''OperationalError'', Prompt 2,
        turn_move.Cancel, Gateway 3] idle_box) =
   Some ([1], [3], [(1, Raised ''OperationalError''), (2, Stopped ''cancelled'')])"
proof -
  let ?b = "idle_box\<lparr>tb_in_flight := Some 1, tb_accepted := [1], tb_started := [1],
    tb_tasks := [\<lparr>tk_turn = 1, tk_stage = T_Closing (Stopped ''end_turn''), tk_cancelled = False, tk_queued = False\<rparr>]\<rparr>"
  have first: "turn_run 50 ([Prompt 1, Opened 1, Announced 1, Stream_Ends 1] @ ss) idle_box = turn_run 50 ss ?b" for ss
    by (simp add: turn_step_def prompt_turn_def start_turn_def task_of_def open_turn_def move_task_def idle_box_def)
  let ?ss = "[Prompt 2, turn_move.Cancel, Gateway 3]"
  obtain b1 where b1: "turn_step 50 (Write_Fails 1 ''OperationalError'') ?b = Some b1"
    by (simp add: turn_step_def task_of_def)
  have rest: "map_option (\<lambda>b. (tb_queue b, tb_answers b)) (turn_run 50 (Write_Fails 1 ''OperationalError'' # ?ss) ?b) =
      Some ([3], [(1, Raised ''OperationalError''), (2, Stopped ''cancelled'')])"
    by code_simp
  then obtain b' where b': "turn_run 50 ?ss b1 = Some b'" using b1 by (cases "turn_run 50 ?ss b1") auto
  have "tb_started b' = tb_started ?b"
    using session_wedged [OF _ _ _ b1 b', of "hd (tb_tasks ?b)" "''OperationalError''" False] by simp
  then show ?thesis using first [of "Write_Fails 1 ''OperationalError'' # ?ss"] rest b1 b' by simp
qed

end
