(* ===== verification/Session_Pages.thy ===== *)
theory Session_Pages
  imports Session_Log File_Tools "HOL-Library.List_Lexorder" "HOL-Library.Char_ord"
begin

text \<open>
  \<open>session/list\<close>: the cursor of \<open>session/runtime/helpers.py\<close> and the paging of
  \<open>session/api/handlers.py\<close>. What paging relies on is the locale \<open>cursor_codec\<close>, which the cursor of the
  code interprets. A modification time is the ISO string the database holds.
\<close>

section \<open>The cursor\<close>

text \<open>\<open>base64.urlsafe_b64encode\<close>.\<close>

definition url_char :: "char \<Rightarrow> char" where
  "url_char c = (if c = CHR ''+'' then CHR ''-'' else if c = CHR ''/'' then CHR ''_'' else c)"

definition encode_cursor :: "string \<Rightarrow> string \<Rightarrow> string" where
  "encode_cursor modified sid = map url_char (b64encode (utf8 (modified @ ''|'' @ sid)))"

text \<open>
  \<open>base64.urlsafe_b64decode\<close>: the decoder of \<open>binascii\<close>, which passes over characters outside the
  alphabet and stops at a complete padding.
\<close>

definition std_char :: "char \<Rightarrow> char" where
  "std_char c = (if c = CHR ''-'' then CHR ''+'' else if c = CHR ''_'' then CHR ''/'' else c)"

definition b64_value :: "char \<Rightarrow> nat option" where
  "b64_value c =
     (let n = of_char c in
      if 65 \<le> n \<and> n \<le> 90 then Some (n - 65) else if 97 \<le> n \<and> n \<le> 122 then Some (n - 71)
      else if 48 \<le> n \<and> n \<le> 57 then Some (n + 4)
      else if c = CHR ''+'' then Some 62 else if c = CHR ''/'' then Some 63 else None)"

fun a2b_base64 :: "nat \<Rightarrow> nat \<Rightarrow> nat \<Rightarrow> string \<Rightarrow> string result" where
  "a2b_base64 quad left pads [] = (if quad = 0 then Inr [] else Inl ''binascii.Error'')"
| "a2b_base64 quad left pads (c # s) =
     (if c = CHR ''='' then
        (if 2 \<le> quad \<and> 4 \<le> quad + pads + 1 then Inr []
         else a2b_base64 quad left (if 2 \<le> quad then pads + 1 else pads) s)
      else case b64_value c of
        None \<Rightarrow> a2b_base64 quad left pads s
      | Some v \<Rightarrow>
          (if quad = 0 then a2b_base64 1 v 0 s
           else if quad = 1 then mapR ((#) (char_of (left * 4 + v div 16))) (a2b_base64 2 (v mod 16) 0 s)
           else if quad = 2 then mapR ((#) (char_of (left * 16 + v div 4))) (a2b_base64 3 (v mod 4) 0 s)
           else mapR ((#) (char_of (left * 64 + v))) (a2b_base64 0 0 0 s)))"

text \<open>UTF-8, of the characters a string of the model can hold.\<close>

fun decode_utf8 :: "string \<Rightarrow> string result" where
  "decode_utf8 [] = Inr []"
| "decode_utf8 [c] = (if of_char c < (128 :: nat) then Inr [c] else Inl ''UnicodeDecodeError'')"
| "decode_utf8 (c # d # s) =
     (if of_char c < (128 :: nat) then mapR ((#) c) (decode_utf8 (d # s))
      else if of_char c \<in> {194 :: nat, 195} \<and> 128 \<le> (of_char d :: nat) \<and> (of_char d :: nat) < 192
      then mapR ((#) (char_of ((of_char c - 192) * 64 + (of_char d - 128) :: nat))) (decode_utf8 s)
      else Inl ''UnicodeDecodeError'')"

text \<open>\<open>modified, session_id = raw.split("|", 1)\<close>.\<close>

definition decode_cursor :: "string \<Rightarrow> (string \<times> string) result" where
  "decode_cursor token =
     bindR (a2b_base64 0 0 0 (map std_char token)) (\<lambda>bytes. bindR (decode_utf8 bytes) (\<lambda>raw.
       if CHR ''|'' \<in> set raw
       then Inr (takeWhile (\<lambda>c. c \<noteq> CHR ''|'') raw, tl (dropWhile (\<lambda>c. c \<noteq> CHR ''|'') raw))
       else Inl ''ValueError''))"

subsection \<open>Decoding what was encoded\<close>

lemma url_id: "(of_char c :: nat) \<notin> {43, 47, 45, 95, 61} \<Longrightarrow> std_char (url_char c) = c \<and> c \<noteq> CHR ''=''"
  by (auto simp: url_char_def std_char_def)

lemma b64_round:
  assumes "n < 64"
  shows "b64_value (std_char (url_char (b64_char n))) = Some n \<and> std_char (url_char (b64_char n)) \<noteq> CHR ''=''"
proof (cases "n < 62")
  case True
  define k where "k = (if n < 26 then 65 + n else if n < 52 then 71 + n else n - 4)"
  have k: "b64_char n = char_of k" "k < 256"
    using True by (auto simp: k_def b64_char_def digit_def)
  then have "(of_char (b64_char n) :: nat) = k" by simp
  moreover have "k \<notin> {43, 47, 45, 95, 61}" using True by (auto simp: k_def split: if_splits)
  ultimately have "std_char (url_char (b64_char n)) = b64_char n \<and> b64_char n \<noteq> CHR ''=''"
    using url_id by metis
  moreover have "b64_value (b64_char n) = Some n"
    using \<open>of_char (b64_char n) = k\<close> True by (auto simp: b64_value_def k_def Let_def split: if_splits)
  ultimately show ?thesis by simp
next
  case False
  with assms have "n = 62 \<or> n = 63" by auto
  then show ?thesis by (auto simp: b64_char_def url_char_def std_char_def b64_value_def)
qed

lemma of_char_less [simp]: "(of_char (c :: char) :: nat) < 256"
  by (rule nat_of_char_less_256)

lemma sextets2:
  fixes a b :: nat
  assumes "b < 256"
  shows "(a * 256 + b) div 1024 = a div 4" "(a * 256 + b) div 16 mod 64 = a mod 4 * 16 + b div 16"
    "(a * 256 + b) mod 16 = b mod 16"
proof -
  have "(a * 256 + b) div 256 = a" using assms by simp
  then show "(a * 256 + b) div 1024 = a div 4" using div_mult2_eq [of "a * 256 + b" 256 4] by simp
  have "(a * 256 + b) div 16 = a * 16 + b div 16" by (simp add: div_add1_eq)
  also have "\<dots> = a div 4 * 64 + (a mod 4 * 16 + b div 16)"
    using div_mult_mod_eq [of a 4] by linarith
  finally have "(a * 256 + b) div 16 mod 64 = (a mod 4 * 16 + b div 16) mod 64" by simp
  moreover have "a mod 4 < 4" "b div 16 < 16" using assms by auto
  ultimately show "(a * 256 + b) div 16 mod 64 = a mod 4 * 16 + b div 16" by simp
  show "(a * 256 + b) mod 16 = b mod 16" using mod_mult_self3 [of "a * 16" 16 b] by (simp add: algebra_simps)
qed

lemma sextets:
  fixes a b c :: nat
  assumes "b < 256" "c < 256"
  defines "n \<equiv> (a * 256 + b) * 256 + c"
  shows "n div 262144 = a div 4" "n div 4096 mod 64 = a mod 4 * 16 + b div 16"
    "n div 64 mod 64 = b mod 16 * 4 + c div 64" "n mod 64 = c mod 64"
proof -
  have d: "n div 256 = a * 256 + b" using assms(2) by (simp add: n_def)
  show "n div 262144 = a div 4"
    using d sextets2(1) [OF assms(1), of a] div_mult2_eq [of n 256 1024] by simp
  show "n div 4096 mod 64 = a mod 4 * 16 + b div 16"
    using d sextets2(2) [OF assms(1), of a] div_mult2_eq [of n 256 16] by simp
  have e: "n = (a * 1024 + b * 4) * 64 + c" by (simp add: n_def)
  then have "n div 64 = a * 1024 + b * 4 + c div 64" by simp
  also have "\<dots> = (a * 16 + b div 16) * 64 + (b mod 16 * 4 + c div 64)"
    by (simp add: algebra_simps) presburger
  finally have "n div 64 mod 64 = (b mod 16 * 4 + c div 64) mod 64" by (simp only: mod_mult_self3)
  moreover have "b mod 16 < 16" "c div 64 < 4" using assms(2) by auto
  ultimately show "n div 64 mod 64 = b mod 16 * 4 + c div 64" by simp
  show "n mod 64 = c mod 64" unfolding e by (rule mod_mult_self3)
qed

lemma b64encode_sextets:
  "b64encode (a # b # c # s) =
     [b64_char (of_char a div 4), b64_char (of_char a mod 4 * 16 + of_char b div 16),
      b64_char (of_char b mod 16 * 4 + of_char c div 64), b64_char (of_char c mod 64)] @ b64encode s"
  "b64encode [a, b] =
     [b64_char (of_char a div 4), b64_char (of_char a mod 4 * 16 + of_char b div 16),
      b64_char (of_char b mod 16 * 4), CHR ''='']"
  by (simp_all only: b64encode.simps Let_def sextets [OF of_char_less of_char_less]
    sextets2 [OF of_char_less])

declare a2b_base64.simps(2) [simp del]

definition url_b64 :: "nat \<Rightarrow> char" where
  "url_b64 n = std_char (url_char (b64_char n))"

lemma a2b_step:
  assumes "n < 64"
  shows "a2b_base64 0 left pads (url_b64 n # s) = a2b_base64 1 n 0 s"
    and "a2b_base64 1 left pads (url_b64 n # s) = mapR ((#) (char_of (left * 4 + n div 16))) (a2b_base64 2 (n mod 16) 0 s)"
    and "a2b_base64 2 left pads (url_b64 n # s) = mapR ((#) (char_of (left * 16 + n div 4))) (a2b_base64 3 (n mod 4) 0 s)"
    and "a2b_base64 3 left pads (url_b64 n # s) = mapR ((#) (char_of (left * 64 + n))) (a2b_base64 0 0 0 s)"
  using b64_round [OF assms] by (simp_all add: url_b64_def a2b_base64.simps)

lemma a2b_pad: "a2b_base64 2 left 0 ''=='' = Inr []" "a2b_base64 3 left 0 ''='' = Inr []"
  by (simp_all add: a2b_base64.simps)

lemma group_bounds:
  fixes a b c :: nat
  assumes "a < 256" "b < 256" "c < 256"
  shows "a div 4 < 64" "a mod 4 * 16 + b div 16 < 64" "b mod 16 * 4 + c div 64 < 64" "c mod 64 < 64"
    and "a mod 4 * 16 < 64" "b mod 16 * 4 < 64"
proof -
  have "a mod 4 < 4" "b div 16 < 16" "b mod 16 < 16" "c div 64 < 4" using assms by auto
  then show "a mod 4 * 16 + b div 16 < 64" "b mod 16 * 4 + c div 64 < 64" "a mod 4 * 16 < 64" "b mod 16 * 4 < 64"
    by linarith+
qed (use assms in simp_all)

lemma groups:
  fixes a b c :: char
  defines "x \<equiv> of_char a" and "y \<equiv> of_char b" and "z \<equiv> of_char c"
  shows "a2b_base64 0 0 0 (url_b64 (x div 4) # url_b64 (x mod 4 * 16 + y div 16)
       # url_b64 (y mod 16 * 4 + z div 64) # url_b64 (z mod 64) # s) =
     mapR (\<lambda>s. a # b # c # s) (a2b_base64 0 0 0 s)"
    and "a2b_base64 0 0 0 (url_b64 (x div 4) # url_b64 (x mod 4 * 16 + y div 16)
       # url_b64 (y mod 16 * 4) # ''='') = Inr [a, b]"
    and "a2b_base64 0 0 0 (url_b64 (x div 4) # url_b64 (x mod 4 * 16) # ''=='') = Inr [a]"
proof -
  have x: "x < 256" "y < 256" "z < 256" by (simp_all add: x_def y_def z_def)
  have small: "y div 16 div 16 = 0" "y div 16 mod 16 = y div 16" "z div 64 div 4 = 0" "z div 64 mod 4 = z div 64"
    using x by simp_all
  have chars: "char_of x = a" "char_of y = b" "char_of z = c" by (simp_all add: x_def y_def z_def)
  show "a2b_base64 0 0 0 (url_b64 (x div 4) # url_b64 (x mod 4 * 16 + y div 16)
       # url_b64 (y mod 16 * 4 + z div 64) # url_b64 (z mod 64) # s) =
     mapR (\<lambda>s. a # b # c # s) (a2b_base64 0 0 0 s)"
    by (cases "a2b_base64 0 0 0 s") (simp_all add: chars group_bounds [OF x] small a2b_step del: One_nat_def)
  show "a2b_base64 0 0 0 (url_b64 (x div 4) # url_b64 (x mod 4 * 16 + y div 16)
       # url_b64 (y mod 16 * 4) # ''='') = Inr [a, b]"
    by (simp add: chars group_bounds [OF x] small a2b_step a2b_pad del: One_nat_def)
  show "a2b_base64 0 0 0 (url_b64 (x div 4) # url_b64 (x mod 4 * 16) # ''=='') = Inr [a]"
    by (simp add: chars group_bounds [OF x] small a2b_step a2b_pad del: One_nat_def)
qed

lemma url_pad: "std_char (url_char (CHR ''='')) = CHR ''=''"
  by (simp add: url_char_def std_char_def)

lemma b64_roundtrip: "a2b_base64 0 0 0 (map std_char (map url_char (b64encode s))) = Inr s"
proof (induction s rule: b64encode.induct)
  case (1 a b c s)
  then show ?case
    using groups(1) [of a b c] by (simp add: b64encode_sextets url_b64_def [symmetric] del: b64encode.simps)
next
  case (2 a b)
  show ?case
    using groups(2) [of a b] by (simp add: b64encode_sextets url_b64_def [symmetric] url_pad del: b64encode.simps)
next
  case (3 a)
  show ?case using groups(3) [of a] by (simp add: Let_def url_b64_def [symmetric] url_pad)
qed simp

lemma decode_ascii: "of_char c < (128 :: nat) \<Longrightarrow> decode_utf8 (c # s) = mapR ((#) c) (decode_utf8 s)"
  by (cases s) simp_all

lemma utf8_decoded: "decode_utf8 (utf8 s) = Inr s"
proof (induction s)
  case (Cons c s)
  let ?n = "of_char c :: nat"
  show ?case
  proof (cases "?n < 128")
    case True
    with Cons show ?thesis by (simp add: utf8_def utf8_char_def decode_ascii)
  next
    case False
    have "?n < 256" by simp
    then have "?n div 64 < 4" "2 \<le> ?n div 64" using False div_le_mono [of 128 ?n 64] less_mult_imp_div_less [of ?n 4 64]
      by simp_all
    then have "?n div 64 \<in> {2, 3}" by auto
    moreover have "(?n div 64) * 64 + ?n mod 64 = ?n" by simp
    ultimately have *: "192 + ?n div 64 \<in> {194, 195}" "?n mod 64 < 64" "192 + ?n div 64 < 256" "128 + ?n mod 64 < 192"
      "char_of ((?n div 64) * 64 + ?n mod 64) = c" by auto
    then have "decode_utf8 (utf8 (c # s)) = mapR ((#) c) (decode_utf8 (utf8 s))"
      using False by (auto simp: utf8_def utf8_char_def Let_def)
    with Cons show ?thesis by simp
  qed
qed (simp add: utf8_def)

lemma split_bar: "CHR ''|'' \<notin> set m \<Longrightarrow> takeWhile (\<lambda>c. c \<noteq> CHR ''|'') (m @ CHR ''|'' # s) = m
    \<and> dropWhile (\<lambda>c. c \<noteq> CHR ''|'') (m @ CHR ''|'' # s) = CHR ''|'' # s"
  by (induction m) auto

lemma cursor_decodes: "CHR ''|'' \<notin> set m \<Longrightarrow> decode_cursor (encode_cursor m sid) = Inr (m, sid)"
  using split_bar [of m sid] b64_roundtrip by (simp add: decode_cursor_def encode_cursor_def utf8_decoded)

section \<open>Pages\<close>

text \<open>\<open>stamp\<close>: the string of a modification time. A record is after a cursor in the order of the list.\<close>

definition after_cursor :: "(time \<Rightarrow> string) \<Rightarrow> string \<times> string \<Rightarrow> conversation_record \<Rightarrow> bool" where
  "after_cursor stamp c r \<longleftrightarrow> stamp (cv_modified r) < fst c \<or> stamp (cv_modified r) = fst c \<and> cv_session_id r < snd c"

fun first_after :: "(time \<Rightarrow> string) \<Rightarrow> string \<times> string \<Rightarrow> nat \<Rightarrow> conversation_record list \<Rightarrow> nat" where
  "first_after stamp c i [] = 0"
| "first_after stamp c i (r # rs) = (if after_cursor stamp c r then i else first_after stamp c (Suc i) rs)"

definition cursor_start_index ::
    "(string \<Rightarrow> (string \<times> string) result) \<Rightarrow> (time \<Rightarrow> string) \<Rightarrow> conversation_record list \<Rightarrow> string option
       \<Rightarrow> nat result" where
  "cursor_start_index decode stamp records cursor =
     (case cursor of
        None \<Rightarrow> Inr 0
      | Some t \<Rightarrow>
          (case decode t of
             Inl _ \<Rightarrow> Inl ''Invalid session/list cursor'' | Inr c \<Rightarrow> Inr (first_after stamp c 0 records)))"

text \<open>\<open>session/list\<close> uses it with the cursor of the code.\<close>

definition list_page ::
    "(string \<Rightarrow> string \<Rightarrow> string) \<Rightarrow> (string \<Rightarrow> (string \<times> string) result) \<Rightarrow> (time \<Rightarrow> string) \<Rightarrow> nat
       \<Rightarrow> conversation_record list \<Rightarrow> string option \<Rightarrow> (conversation_record list \<times> string option) result" where
  "list_page encode decode stamp per_page records cursor =
     mapR (\<lambda>start.
       let page = take per_page (drop start records) in
       if length records \<le> start + per_page then (page, None)
       else (page, Some (encode (stamp (cv_modified (last page))) (cv_session_id (last page)))))
     (cursor_start_index decode stamp records cursor)"

definition list_sessions ::
    "(time \<Rightarrow> string) \<Rightarrow> nat \<Rightarrow> string option \<Rightarrow> bool \<Rightarrow> bool \<Rightarrow> string option \<Rightarrow> session_store
       \<Rightarrow> (conversation_record list \<times> string option) result" where
  "list_sessions stamp per_page cwd include_archived archived_only cursor st =
     (if (case cwd of Some c \<Rightarrow> \<not> is_absolute (path_of c) | None \<Rightarrow> False) then Inl ''cwd must be an absolute path''
      else list_page encode_cursor decode_cursor stamp per_page
        (let rs = store_list_sessions include_archived archived_only st in
         case cwd of Some c \<Rightarrow> if c = [] then rs else filter (\<lambda>r. cv_cwd r = c) rs | None \<Rightarrow> rs)
        cursor)"

text \<open>What a client collects by following the cursors, for at most \<open>n\<close> requests.\<close>

fun follow :: "(string option \<Rightarrow> (conversation_record list \<times> string option) result) \<Rightarrow> nat \<Rightarrow> string option
    \<Rightarrow> conversation_record list" where
  "follow req 0 cursor = []"
| "follow req (Suc n) cursor =
     (case req cursor of
        Inl _ \<Rightarrow> []
      | Inr (page, None) \<Rightarrow> page
      | Inr (page, Some c) \<Rightarrow> page @ follow req n (Some c))"

text \<open>The order the cursor assumes: later ones first, and by descending id among equally old ones.\<close>

definition listed :: "(time \<Rightarrow> string) \<Rightarrow> conversation_record list \<Rightarrow> bool" where
  "listed stamp rs = sorted_wrt (\<lambda>r r'. after_cursor stamp (stamp (cv_modified r), cv_session_id r) r') rs"

locale cursor_codec =
  fixes encode :: "string \<Rightarrow> string \<Rightarrow> string"
    and decode :: "string \<Rightarrow> (string \<times> string) result"
    and fits :: "string \<Rightarrow> bool"
  assumes decode_encode: "fits m \<Longrightarrow> decode (encode m s) = Inr (m, s)"
begin

lemma after_irrefl: "\<not> after_cursor stamp (stamp (cv_modified r), cv_session_id r) r"
  by (simp add: after_cursor_def)

lemma after_asym:
  "after_cursor stamp (stamp (cv_modified r), cv_session_id r) r' \<Longrightarrow>
     \<not> after_cursor stamp (stamp (cv_modified r'), cv_session_id r') r"
  by (auto simp: after_cursor_def)

lemma first_after_prefix:
  "\<forall>r \<in> set xs. \<not> after_cursor stamp c r \<Longrightarrow> after_cursor stamp c y \<Longrightarrow> first_after stamp c i (xs @ y # ys) = i + length xs"
  by (induction xs arbitrary: i) auto

lemma next_start:
  assumes "listed stamp records" "0 < k" "k < length records"
  shows "first_after stamp (stamp (cv_modified (records ! (k - 1))), cv_session_id (records ! (k - 1))) 0 records = k"
proof -
  let ?c = "(stamp (cv_modified (records ! (k - 1))), cv_session_id (records ! (k - 1)))"
  have "records = take k records @ records ! k # drop (Suc k) records" using assms(3) by (rule id_take_nth_drop)
  moreover have "after_cursor stamp ?c (records ! k)"
    using assms by (auto simp: listed_def sorted_wrt_iff_nth_less)
  moreover have "\<not> after_cursor stamp ?c r" if r: "r \<in> set (take k records)" for r
  proof -
    obtain i where i: "i < k" "r = records ! i" using r assms(3) by (fastforce simp: in_set_conv_nth)
    show ?thesis
    proof (cases "i = k - 1")
      case False
      then have "after_cursor stamp (stamp (cv_modified r), cv_session_id r) (records ! (k - 1))"
        using i assms by (auto simp: listed_def sorted_wrt_iff_nth_less)
      then show ?thesis by (rule after_asym)
    qed (use i after_irrefl in simp)
  qed
  ultimately show ?thesis
    using first_after_prefix [of "take k records" stamp ?c "records ! k" 0 "drop (Suc k) records"] assms(3) by simp
qed

lemma page_from:
  assumes "listed stamp records" "0 < per_page" "\<forall>r \<in> set records. fits (stamp (cv_modified r))"
    and "k < length records" "cursor_start_index decode stamp records cursor = Inr k"
  shows "length records - k \<le> n * per_page \<Longrightarrow>
    follow (list_page encode decode stamp per_page records) n cursor = drop k records"
  using assms(4,5)
proof (induction n arbitrary: k cursor)
  case (Suc n)
  show ?case
  proof (cases "length records \<le> k + per_page")
    case True
    with Suc.prems show ?thesis by (simp add: list_page_def)
  next
    case False
    let ?last = "records ! (k + per_page - 1)"
    have "last (take per_page (drop k records)) = ?last"
      using False assms(2) by (simp add: last_conv_nth)
    then have "list_page encode decode stamp per_page records cursor = Inr (take per_page (drop k records),
        Some (encode (stamp (cv_modified ?last)) (cv_session_id ?last)))"
      using Suc.prems False by (simp add: list_page_def Let_def)
    moreover have "cursor_start_index decode stamp records
        (Some (encode (stamp (cv_modified ?last)) (cv_session_id ?last))) = Inr (k + per_page)"
      using next_start [OF assms(1), of "k + per_page"] assms(2,3) False decode_encode by (simp add: cursor_start_index_def)
    moreover have "take per_page (drop k records) @ drop (k + per_page) records = drop k records"
      by (metis append_take_drop_id drop_drop add.commute)
    ultimately show ?thesis using Suc.IH [of "k + per_page"] Suc.prems False by simp
  qed
qed simp

lemma all_pages:
  assumes "listed stamp records" "0 < per_page" "\<forall>r \<in> set records. fits (stamp (cv_modified r))" "length records \<le> n"
  shows "follow (list_page encode decode stamp per_page records) (Suc n) None = records"
proof (cases "records = []")
  case False
  have "length records \<le> Suc n * 1" using assms(4) by simp
  also have "\<dots> \<le> Suc n * per_page" using assms(2) by (intro mult_le_mono2) simp
  finally have "length records \<le> Suc n * per_page" .
  then show ?thesis
    using page_from [OF assms(1-3), of 0 None "Suc n"] False by (simp add: cursor_start_index_def)
qed (simp add: list_page_def cursor_start_index_def)

end

text \<open>ISO times hold no bar.\<close>

interpretation cc: cursor_codec encode_cursor decode_cursor "\<lambda>m. CHR ''|'' \<notin> set m"
  by unfold_locales (rule cursor_decodes)

end
