(* ===== verification/Session_Manager.thy ===== *)
theory Session_Manager
  imports Session_Stream Turn_Queue Session_Pages Subagents
begin

text \<open>
  The sessions in memory and the requests on them: \<open>session/api/handlers.py\<close>, \<open>api/gateway.py\<close>,
  \<open>lifecycle/runtime.py\<close> and the mode closure of \<open>orchestration/factory.py\<close>. A handler runs as one step
  here; what another task can do between its awaits is in \<open>Turn_Queue\<close>. Closing a runtime (the
  orchestrator, its tasks and worker) changes nothing that is kept here.
\<close>

section \<open>State\<close>

record live_session =
  lv_session :: session
  lv_turns :: turn_box

record manager =
  mg_sessions :: "(string \<times> live_session) list"
  mg_store :: session_store
  mg_tick :: nat
  mg_sent :: "(string \<times> update) list"
  mg_bound :: "string \<rightharpoonup> string"

text \<open>
  What the manager is configured with and asks: the queue limit, the str of a dictionary, the working
  directory of the process and the home, the worktree path of a session, the branch of a directory.
\<close>

record manager_env = stream_env +
  me_max_queue :: nat
  me_str_dict :: "dict \<Rightarrow> string"
  me_pcwd :: string
  me_home :: string
  me_worktree :: "string \<Rightarrow> string option"
  me_branch :: "string \<Rightarrow> string option"

text \<open>An operation on the stream state of a live session, and writing it back.\<close>

definition focus :: "live_session \<Rightarrow> manager \<Rightarrow> stream_state" where
  "focus lv m = \<lparr>lg_session = lv_session lv, lg_store = mg_store m, lg_tick = mg_tick m, sm_sent = mg_sent m\<rparr>"

definition unfocus :: "string \<Rightarrow> live_session \<Rightarrow> stream_state \<Rightarrow> manager \<Rightarrow> manager" where
  "unfocus sid lv st m =
     m\<lparr>mg_sessions := AList.update sid (lv\<lparr>lv_session := lg_session st\<rparr>) (mg_sessions m),
       mg_store := lg_store st, mg_tick := lg_tick st, mg_sent := sm_sent st\<rparr>"

definition session_of :: "string \<Rightarrow> manager \<Rightarrow> live_session option" where
  "session_of sid m = map_of (mg_sessions m) sid"

definition on_session :: "string \<Rightarrow> (stream_state \<Rightarrow> stream_state) \<Rightarrow> manager \<Rightarrow> manager" where
  "on_session sid f m = (case session_of sid m of None \<Rightarrow> m | Some lv \<Rightarrow> unfocus sid lv (f (focus lv m)) m)"

definition on_turns :: "string \<Rightarrow> (turn_box \<Rightarrow> turn_box) \<Rightarrow> manager \<Rightarrow> manager" where
  "on_turns sid f m =
     (case session_of sid m of None \<Rightarrow> m
      | Some lv \<Rightarrow> m\<lparr>mg_sessions := AList.update sid (lv\<lparr>lv_turns := f (lv_turns lv)\<rparr>) (mg_sessions m)\<rparr>)"

section \<open>Modes\<close>

text \<open>
  \<open>_set_mode\<close>, called by a tool. The flags stand for their copies on the orchestrator too. An unknown
  mode raises after the session's own mode has been set.
\<close>

definition set_mode_closure :: "string \<Rightarrow> session \<Rightarrow> unit result \<times> session" where
  "set_mode_closure mode s0 =
     (let old = ss_mode s0;
          (m, s1) = (if mode = ''restore''
                     then ((case ss_pre_plan s0 of Some p \<Rightarrow> if p = [] then ''default'' else p
                            | None \<Rightarrow> ''default''), s0\<lparr>ss_pre_plan := None\<rparr>)
                     else (mode, s0));
          s2 = (if m = ''plan'' \<and> old \<noteq> Some ''plan''
                then s1\<lparr>ss_pre_plan := old, ss_needs_exit_note := False\<rparr>
                else if old = Some ''plan'' \<and> m \<noteq> ''plan''
                then s1\<lparr>ss_exited_plan := True, ss_needs_exit_note := True\<rparr> else s1);
          s3 = s2\<lparr>ss_mode := Some m\<rparr>
      in if m \<notin> mode_name ` set VALID_PERMISSION_MODES then (Inl ''ValueError'', s3)
         else (Inr (), s3\<lparr>ss_orch_mode := m, ss_pending_modes := ss_pending_modes s3 @ [(old, m)]\<rparr>))"

definition json_config :: "(string \<times> string) list \<Rightarrow> dict" where
  "json_config c = map (\<lambda>(k, v). (k, JStr v)) c"

text \<open>\<open>_apply_mode_change\<close>, for \<open>session/set_mode\<close> and \<open>session/set_config_option\<close>.\<close>

definition apply_mode_change :: "stream_env \<Rightarrow> string \<Rightarrow> stream_state \<Rightarrow> unit result \<times> stream_state" where
  "apply_mode_change env mode st =
     (case validate_mode_id mode of
        Inl _ \<Rightarrow> (Inl ''Unsupported session mode'', st)
      | Inr m \<Rightarrow>
          (let s = lg_session st; old = normalise_mode_id (ss_mode s);
               s' = s\<lparr>ss_mode := Some m, ss_config := AList.update MODE_CONFIG_ID m (ss_config s), ss_orch_mode := m\<rparr>;
               full = json_config (ss_config s');
               st1 = put_event env (Mode_Changed_Row m (Some old)) (st\<lparr>lg_session := s'\<rparr>);
               st2 = put_event env (Config_Changed_Row MODE_CONFIG_ID m full) st1
           in (Inr (), broadcast env (Config_Update (shown_mode (map_of full) (se_str env) None))
                         (broadcast env (Mode_Update m) st2))))"

section \<open>Looking up, loading and leaving\<close>

definition get_or_raise :: "string \<Rightarrow> manager \<Rightarrow> live_session result" where
  "get_or_raise sid m = (case session_of sid m of Some lv \<Rightarrow> Inr lv | None \<Rightarrow> Inl ''Session not active'')"

definition load_session_from_disk :: "manager_env \<Rightarrow> string \<Rightarrow> manager \<Rightarrow> manager" where
  "load_session_from_disk env sid m =
     (let s = load_from_disk (me_str_dict env) (me_pcwd env) (se_now env (mg_tick m)) (me_worktree env sid) sid (mg_store m)
      in m\<lparr>mg_sessions := AList.update sid \<lparr>lv_session = s, lv_turns = idle_box\<rparr> (mg_sessions m)\<rparr>)"

definition get_or_load :: "manager_env \<Rightarrow> string \<Rightarrow> manager \<Rightarrow> unit result \<times> manager" where
  "get_or_load env sid m =
     (if session_of sid m \<noteq> None then (Inr (), m)
      else if store_get_session sid (mg_store m) = None then (Inl ''Session not found'', m)
      else (Inr (), load_session_from_disk env sid m))"

definition bind_connection :: "string \<Rightarrow> string \<Rightarrow> manager \<Rightarrow> manager" where
  "bind_connection c sid m =
     on_session sid (\<lambda>st. let s = lg_session st in
         st\<lparr>lg_session := s\<lparr>ss_senders := (if c \<in> set (ss_senders s) then ss_senders s else ss_senders s @ [c])\<rparr>\<rparr>)
       (m\<lparr>mg_bound := (mg_bound m)(c \<mapsto> sid)\<rparr>)"

definition maybe_evict :: "string \<Rightarrow> manager \<Rightarrow> manager" where
  "maybe_evict sid m =
     (case session_of sid m of
        None \<Rightarrow> m
      | Some lv \<Rightarrow>
          if ss_senders (lv_session lv) = [] \<and> tb_in_flight (lv_turns lv) = None \<and> tb_queue (lv_turns lv) = []
          then m\<lparr>mg_sessions := AList.delete sid (mg_sessions m)\<rparr> else m)"

definition leave_session :: "string \<Rightarrow> string \<Rightarrow> manager \<Rightarrow> manager" where
  "leave_session c sid m =
     (case session_of sid m of
        None \<Rightarrow> m
      | Some lv \<Rightarrow>
          if c \<in> set (ss_senders (lv_session lv))
          then maybe_evict sid (on_session sid (\<lambda>st. let s = lg_session st in
                 st\<lparr>lg_session := s\<lparr>ss_senders := remove1 c (ss_senders s)\<rparr>\<rparr>) m)
          else m)"

definition on_disconnect :: "string \<Rightarrow> manager \<Rightarrow> manager" where
  "on_disconnect c m = fold (leave_session c) (map fst (mg_sessions m)) m"

definition active :: "live_session \<Rightarrow> bool" where
  "active lv \<longleftrightarrow> ss_senders (lv_session lv) \<noteq> [] \<or> tb_in_flight (lv_turns lv) \<noteq> None \<or> tb_queue (lv_turns lv) \<noteq> []"

definition delete_session_by_id ::
    "string \<Rightarrow> bool \<Rightarrow> string option \<Rightarrow> manager \<Rightarrow> bool result \<times> manager" where
  "delete_session_by_id sid force conn_sid m =
     (if (case session_of sid m of None \<Rightarrow> False | Some lv \<Rightarrow> (active lv \<or> conn_sid = Some sid) \<and> \<not> force)
      then (Inl ''session/delete requires force=true for active sessions'', m)
      else (let (deleted, st) = store_delete sid (mg_store m);
                st' = (if deleted then st\<lparr>st_spilled := (\<lambda>(i, h). if i = sid then None else st_spilled st (i, h))\<rparr> else st)
            in (Inr deleted, m\<lparr>mg_sessions := AList.delete sid (mg_sessions m), mg_store := st'\<rparr>)))"

section \<open>Requests\<close>

text \<open>
  \<open>_create_session\<close>: the live session first, then its record and first row. The ids come from the
  environment; a second record of one id would raise with the live session already in the map.
\<close>

definition create_session ::
    "manager_env \<Rightarrow> string \<Rightarrow> string \<Rightarrow> string option \<Rightarrow> dict list \<Rightarrow> manager \<Rightarrow> unit result \<times> manager" where
  "create_session env sid cwd branch mcp m =
     (let n = mg_tick m; now = se_now env n; eid = ''ev_'' @ se_uuid env n;
          s = \<lparr>ss_id = sid, ss_cwd = cwd, ss_created = now, ss_updated = now, ss_title = None, ss_branch = branch,
               ss_mode = None, ss_config = [], ss_mcp = mcp, ss_orch_mode = ''default'', ss_history = [],
               ss_senders = [], ss_last_event = None, ss_pre_plan = None, ss_exited_plan = False,
               ss_needs_exit_note = False, ss_pending_modes = [], ss_reminders = [], ss_depth = 0\<rparr>;
          r = \<lparr>cv_session_id = sid, cv_cwd = cwd, cv_title = None, cv_title_source = None, cv_archived_at = None,
               cv_created = now, cv_modified = now, cv_input_tokens = 0, cv_output_tokens = 0\<rparr>;
          e = \<lparr>ev_id = eid, ev_parent = None, ev_time = now, ev_session = sid, ev_depth = 0, ev_cwd = cwd,
               ev_branch = branch, ev_body = Session_Created mcp\<rparr>;
          put = (\<lambda>last. m\<lparr>mg_tick := Suc n, mg_sessions := AList.update sid
                   \<lparr>lv_session = s\<lparr>ss_last_event := last\<rparr>, lv_turns = idle_box\<rparr> (mg_sessions m)\<rparr>)
      in case create_session_with_events r [e] (mg_store m) of
           (Inl x, _) \<Rightarrow> (Inl x, put None)
         | (Inr _, st) \<Rightarrow> (Inr (), (put (Some eid))\<lparr>mg_store := st\<rparr>))"

text \<open>
  \<open>session/new\<close>. \<open>worktree\<close> is the path \<open>_maybe_create_worktree_session\<close> answers with, which is the given
  one unless a worktree was asked for and made.
\<close>

definition new_session ::
    "manager_env \<Rightarrow> string \<Rightarrow> string \<Rightarrow> string \<Rightarrow> dict list \<Rightarrow> (string \<Rightarrow> string) \<Rightarrow> manager \<Rightarrow> string result \<times> manager" where
  "new_session env c sid cwd mcp worktree m =
     (if mcp \<noteq> [] then (Inl ''session-scoped mcpServers are not supported yet'', m)
      else if \<not> is_absolute (path_of cwd) then (Inl ''cwd must be an absolute path'', m)
      else (let dir = worktree (path_str (path_of cwd)) in
            case create_session env sid dir (me_branch env dir) mcp m of
              (Inl x, m') \<Rightarrow> (Inl x, m')
            | (Inr _, m') \<Rightarrow> (Inr sid, bind_connection c sid m')))"

definition create_for_gateway :: "manager_env \<Rightarrow> string \<Rightarrow> manager \<Rightarrow> unit result \<times> manager" where
  "create_for_gateway env sid m = create_session env sid (me_home env) None [] m"

text \<open>\<open>session/load\<close>: the updates replayed to the joining connection alone, then the marker row.\<close>

definition load_session ::
    "manager_env \<Rightarrow> string \<Rightarrow> string \<Rightarrow> string option \<Rightarrow> dict list \<Rightarrow> manager \<Rightarrow> update list result \<times> manager" where
  "load_session env c sid cwd mcp m =
     (if mcp \<noteq> [] then (Inl ''session-scoped mcpServers are not supported yet'', m)
      else if (case cwd of Some d \<Rightarrow> \<not> is_absolute (path_of d) | None \<Rightarrow> False)
      then (Inl ''cwd must be an absolute path'', m)
      else if store_get_session sid (mg_store m) = None then (Inl ''Session not found'', m)
      else (let m1 = (if session_of sid m = None then load_session_from_disk env sid m else m);
                m2 = bind_connection c sid m1;
                senv = stream_env.truncate env
            in (Inr (replay_log (se_str env) sid (mg_store m2)),
                on_session sid (put_event senv Session_Loaded) m2)))"

definition prompt_request :: "manager_env \<Rightarrow> string \<Rightarrow> turn \<Rightarrow> manager \<Rightarrow> unit result \<times> manager" where
  "prompt_request env sid t m =
     (case get_or_raise sid m of
        Inl e \<Rightarrow> (Inl e, m)
      | Inr lv \<Rightarrow>
          (case prompt_turn (me_max_queue env) t (lv_turns lv) of
             Inl e \<Rightarrow> (Inl e, m)
           | Inr b \<Rightarrow> (Inr (), on_turns sid (\<lambda>_. b) m)))"

definition run_turn_for_gateway :: "manager_env \<Rightarrow> string \<Rightarrow> turn \<Rightarrow> manager \<Rightarrow> unit result \<times> manager" where
  "run_turn_for_gateway env sid t m =
     (case get_or_load env sid m of
        (Inl e, m') \<Rightarrow> (Inl e, m')
      | (Inr _, m') \<Rightarrow> (Inr (), on_turns sid (enqueue_turn t) m'))"

text \<open>\<open>session/cancel\<close>; the eviction it schedules finds the session as it is left.\<close>

definition cancel_request :: "string \<Rightarrow> manager \<Rightarrow> manager" where
  "cancel_request sid m = (if session_of sid m = None then m else maybe_evict sid (on_turns sid cancel_session m))"

definition set_mode_request :: "manager_env \<Rightarrow> string \<Rightarrow> string \<Rightarrow> manager \<Rightarrow> unit result \<times> manager" where
  "set_mode_request env sid mode m =
     (case get_or_raise sid m of
        Inl e \<Rightarrow> (Inl e, m)
      | Inr lv \<Rightarrow>
          (let (r, st) = apply_mode_change (stream_env.truncate env) mode (focus lv m) in (r, unfocus sid lv st m)))"

definition set_config_option ::
    "manager_env \<Rightarrow> string \<Rightarrow> string \<Rightarrow> string \<Rightarrow> manager \<Rightarrow> unit result \<times> manager" where
  "set_config_option env sid key v m =
     (if key \<noteq> MODE_CONFIG_ID then (Inl ''Unsupported session config option'', m) else set_mode_request env sid v m)"

definition apply_title :: "stream_env \<Rightarrow> string \<Rightarrow> stream_state \<Rightarrow> stream_state" where
  "apply_title env title st =
     (let s = lg_session st;
          st1 = st\<lparr>lg_session := s\<lparr>ss_title := Some title\<rparr>,
                   lg_store := update_title (se_now env (lg_tick st)) (ss_id s) title (Some ''user'') (lg_store st)\<rparr>;
          st2 = put_event env (Info_Changed_Row (Some title)) st1
      in broadcast env (Info_Update (Some title) (se_now env (lg_tick st2))) st2)"

definition rename_session :: "manager_env \<Rightarrow> string \<Rightarrow> string \<Rightarrow> manager \<Rightarrow> conversation_record result \<times> manager" where
  "rename_session env sid new_title m =
     (let title = take 200 (strip new_title) in
      if title = [] then (Inl ''session title must not be empty'', m)
      else case get_or_load env sid m of
             (Inl e, m1) \<Rightarrow> (Inl e, m1)
           | (Inr _, m1) \<Rightarrow>
               (let m2 = on_session sid (apply_title (stream_env.truncate env) title) m1
                in (case store_get_session sid (mg_store m2) of
                      None \<Rightarrow> Inl ''Session not found'' | Some r \<Rightarrow> Inr r, m2)))"

definition archive_session :: "manager_env \<Rightarrow> string \<Rightarrow> bool \<Rightarrow> manager \<Rightarrow> conversation_record result \<times> manager" where
  "archive_session env sid archived m =
     (if store_get_session sid (mg_store m) = None then (Inl ''Session not found'', m)
      else (let now = se_now env (mg_tick m);
                (found, st) = store_archive now sid (if archived then Some now else None) (mg_store m);
                m1 = m\<lparr>mg_store := st\<rparr>
            in if \<not> found then (Inl ''Session not found'', m1)
               else (let m2 = on_session sid (\<lambda>st. broadcast (stream_env.truncate env)
                                (Info_Update None (se_now env (lg_tick st))) st) m1
                     in (case store_get_session sid (mg_store m2) of
                           None \<Rightarrow> Inl ''Session not found'' | Some r \<Rightarrow> Inr r, m2))))"

text \<open>A message of another session rides into the next turn as a reminder; \<open>None\<close> hides the sender.\<close>

definition cross_session_text :: "string option \<Rightarrow> string \<Rightarrow> string" where
  "cross_session_text sender msg =
     ''Cross-session message'' @
     (case sender of Some s \<Rightarrow> if s = [] then [] else '' (from session '' @ s @ '')'' | None \<Rightarrow> [])
     @ '':'' @ [CHR 0x0A] @ msg"

definition deliver_message :: "string \<Rightarrow> string \<Rightarrow> string option \<Rightarrow> manager \<Rightarrow> bool \<times> manager" where
  "deliver_message sid msg sender m =
     (if session_of sid m = None then (False, m)
      else (True, on_session sid (\<lambda>st. let s = lg_session st in
              st\<lparr>lg_session := s\<lparr>ss_reminders := ss_reminders s @ [cross_session_text sender msg]\<rparr>\<rparr>) m))"

text \<open>The reminders a turn takes, and those the executor's hooks leave for the next one.\<close>

definition queue_session_reminders :: "string \<Rightarrow> string list \<Rightarrow> manager \<Rightarrow> manager" where
  "queue_session_reminders sid rs m =
     on_session sid (\<lambda>st. let s = lg_session st in st\<lparr>lg_session := s\<lparr>ss_reminders := ss_reminders s @ rs\<rparr>\<rparr>) m"

definition drain_session_reminders :: "string \<Rightarrow> manager \<Rightarrow> string list \<times> manager" where
  "drain_session_reminders sid m =
     (case session_of sid m of
        None \<Rightarrow> ([], m)
      | Some lv \<Rightarrow>
          (ss_reminders (lv_session lv),
           on_session sid (\<lambda>st. st\<lparr>lg_session := (lg_session st)\<lparr>ss_reminders := []\<rparr>\<rparr>) m))"

definition session_avoids_prompts :: "string \<Rightarrow> manager \<Rightarrow> bool" where
  "session_avoids_prompts sid m =
     (case session_of sid m of None \<Rightarrow> True | Some lv \<Rightarrow> ss_senders (lv_session lv) = [])"

end
