(* ===== verification/User_Repl.thy ===== *)
theory User_Repl
  imports Session_Manager Resume
begin

text \<open>
  Shell commands and Python code a user runs in a session (\<open>session/user_repl/service.py\<close>). The tool is
  called directly, without the authorizer; its frames and how the call ends are given. The output is
  appended to the orchestrator's history and to the rows of the session.
\<close>

section \<open>Texts\<close>

definition shell_tool_names :: "string \<Rightarrow> string list" where
  "shell_tool_names shell =
     (if shell \<in> {''bash'', ''sh''} then [''Bash'']
      else if shell \<in> {''pwsh'', ''powershell''} then [''PowerShell'']
      else if shell = ''cmd'' then [''Cmd'']
      else [''Bash'', ''PowerShell'', ''Cmd''])"

definition nl_text :: string where "nl_text = [CHR 0x0A]"

definition context_text :: "string \<Rightarrow> string \<Rightarrow> string \<Rightarrow> string \<Rightarrow> int \<Rightarrow> bool \<Rightarrow> string" where
  "context_text kind inp out err exit_code cancelled =
     (let label = (if kind = ''shell'' then ''shell'' else ''python'');
          block = (\<lambda>tag s. ''<'' @ tag @ ''>'' @ nl_text @ s @ nl_text @ ''</'' @ tag @ ''>'');
          status = (if cancelled then ''cancelled'' else ''exit_code='' @ show_int exit_code)
      in join nl_text ([''<user_'' @ label @ ''_execution>'', block ''input'' inp]
           @ (if out \<noteq> [] then [block ''stdout'' (rstrip out)] else [])
           @ (if err \<noteq> [] then [block ''stderr'' (rstrip err)] else [])
           @ [''<status>'' @ status @ ''</status>'', ''</user_'' @ label @ ''_execution>'']))"

section \<open>The call\<close>

text \<open>
  A frame of the tool: the \<open>text\<close> attributes of a progress frame's blocks (\<open>None\<close>: no string), the
  data of a result, or another frame. The call ends by itself, by a rejected input, by a cancellation
  of the request's task, or by another exception.
\<close>

datatype repl_frame = Repl_Progress "string option list" | Repl_Result json | Repl_Other

datatype repl_end = Repl_Done | Repl_Rejected string | Repl_Cancelled | Repl_Raised string

record repl_state =
  rp_exit :: int
  rp_progress :: bool
  rp_out :: "string list"
  rp_err :: "string list"
  rp_stream :: stream_state

fun progress_text :: "string option list \<Rightarrow> string" where
  "progress_text [] = []"
| "progress_text (Some s # bs) = s @ progress_text bs"
| "progress_text (None # bs) = progress_text bs"

definition str_or_empty :: "(json \<Rightarrow> string) \<Rightarrow> dict \<Rightarrow> string \<Rightarrow> string" where
  "str_or_empty str d k =
     (case map_of d k of
        Some j \<Rightarrow> if json_truthy j then (case j of JStr s \<Rightarrow> s | _ \<Rightarrow> str j) else []
      | None \<Rightarrow> [])"

definition put_out :: "stream_env \<Rightarrow> string \<Rightarrow> string \<Rightarrow> string \<Rightarrow> repl_state \<Rightarrow> repl_state" where
  "put_out env kind i s st =
     st\<lparr>rp_out := rp_out st @ [s], rp_stream := broadcast env (User_Output_Update kind i ''stdout'' s) (rp_stream st)\<rparr>"

definition put_err :: "stream_env \<Rightarrow> string \<Rightarrow> string \<Rightarrow> string \<Rightarrow> repl_state \<Rightarrow> repl_state" where
  "put_err env kind i s st =
     st\<lparr>rp_err := rp_err st @ [s], rp_stream := broadcast env (User_Output_Update kind i ''stderr'' s) (rp_stream st)\<rparr>"

fun repl_frame_step :: "stream_env \<Rightarrow> string \<Rightarrow> string \<Rightarrow> repl_frame \<Rightarrow> repl_state \<Rightarrow> string option \<times> repl_state" where
  "repl_frame_step env kind i (Repl_Progress bs) st =
     (None, let s = progress_text bs in if s = [] then st else put_out env kind i s (st\<lparr>rp_progress := True\<rparr>))"
| "repl_frame_step env kind i (Repl_Result data) st =
     (let d = (case data of JObj d \<Rightarrow> d | _ \<Rightarrow> []) in
      case int_or d ''exit_code'' 0 of
        Inl e \<Rightarrow> (Some e, st)
      | Inr n \<Rightarrow>
          (let out = str_or_empty (se_str env) d ''stdout''; err = str_or_empty (se_str env) d ''stderr'';
               st1 = st\<lparr>rp_exit := n\<rparr>;
               st2 = (if out \<noteq> [] \<and> \<not> rp_progress st then put_out env kind i out st1 else st1)
           in (None, if err \<noteq> [] \<and> \<not> rp_progress st then put_err env kind i err st2 else st2)))"
| "repl_frame_step env kind i Repl_Other st = (None, st)"

text \<open>The frames up to the first that raises.\<close>

fun repl_frames :: "stream_env \<Rightarrow> string \<Rightarrow> string \<Rightarrow> repl_frame list \<Rightarrow> repl_state \<Rightarrow> string option \<times> repl_state" where
  "repl_frames env kind i [] st = (None, st)"
| "repl_frames env kind i (f # fs) st =
     (case repl_frame_step env kind i f st of
        (Some e, st') \<Rightarrow> (Some e, st')
      | (None, st') \<Rightarrow> repl_frames env kind i fs st')"

text \<open>\<open>_append_user_execution_context\<close>: the message goes into the history and a row.\<close>

definition append_user_execution_context ::
    "stream_env \<Rightarrow> (dict \<Rightarrow> nat) \<Rightarrow> string \<Rightarrow> history \<times> stream_state \<Rightarrow> history \<times> stream_state" where
  "append_user_execution_context env len_input s hs =
     (append_user len_input [s] (fst hs),
      put_event env (Conversation_Message_Row (serialize_message (User_Message [User_Text s]))) (snd hs))"

text \<open>
  \<open>_execute_user_tool\<close>: the exit code and whether the call was cancelled, or the exception; the history
  of the orchestrator and the session after it.
\<close>

definition execute_user_tool ::
    "stream_env \<Rightarrow> (dict \<Rightarrow> nat) \<Rightarrow> string \<Rightarrow> string \<Rightarrow> string \<Rightarrow> string option \<Rightarrow> bool \<Rightarrow> repl_frame list \<Rightarrow> repl_end
       \<Rightarrow> history \<times> stream_state \<Rightarrow> (int \<times> bool) result \<times> history \<times> stream_state" where
  "execute_user_tool env len_input kind i inp shell exclude frames ending hs =
     (let st0 = \<lparr>rp_exit = 0, rp_progress = False, rp_out = [], rp_err = [],
                 rp_stream = broadcast env (User_Start_Update kind i inp shell exclude) (snd hs)\<rparr>;
          (raised, st1) = repl_frames env kind i frames st0;
          how = (case raised of Some e \<Rightarrow> Repl_Raised e | None \<Rightarrow> ending);
          st2 = (case how of
                   Repl_Rejected e \<Rightarrow> put_err env kind i (''Input validation failed: '' @ e) (st1\<lparr>rp_exit := 1\<rparr>)
                 | Repl_Cancelled \<Rightarrow> st1\<lparr>rp_exit := - 1\<rparr>
                 | _ \<Rightarrow> st1);
          cancelled = (how = Repl_Cancelled);
          hs1 = (fst hs, rp_stream st2);
          hs2 = (if exclude then hs1
                 else append_user_execution_context env len_input
                        (context_text kind inp (concat (rp_out st2)) (concat (rp_err st2)) (rp_exit st2) cancelled) hs1);
          hs3 = (fst hs2, broadcast env (User_End_Update kind i (rp_exit st2) cancelled) (snd hs2))
      in (case how of Repl_Raised e \<Rightarrow> Inl e | _ \<Rightarrow> Inr (rp_exit st2, cancelled), hs3))"

text \<open>
  \<open>execute_shell\<close> and \<open>execute_python\<close>: the first registered tool of the names, with the input it is given.
\<close>

definition pick_tool :: "(string \<Rightarrow> 'a option) \<Rightarrow> string list \<Rightarrow> 'a option" where
  "pick_tool look names = (case filter (\<lambda>n. look n \<noteq> None) names of [] \<Rightarrow> None | n # _ \<Rightarrow> look n)"

definition execute_user ::
    "stream_env \<Rightarrow> (dict \<Rightarrow> nat) \<Rightarrow> (string \<Rightarrow> (dict \<Rightarrow> repl_frame list \<times> repl_end) option) \<Rightarrow> string \<Rightarrow> string
       \<Rightarrow> string option \<Rightarrow> string list \<Rightarrow> dict \<Rightarrow> string \<Rightarrow> bool \<Rightarrow> history \<times> stream_state
       \<Rightarrow> (int \<times> bool) result \<times> history \<times> stream_state" where
  "execute_user env len_input look kind uuid shell names tool_input inp exclude hs =
     (case pick_tool look names of
        None \<Rightarrow> (Inl (''no tool registered for user '' @ kind @ '' execution''), hs)
      | Some call \<Rightarrow>
          (let (frames, ending) = call tool_input
           in execute_user_tool env len_input kind (kind @ '':'' @ uuid) inp shell exclude frames ending hs))"

definition execute_shell ::
    "stream_env \<Rightarrow> (dict \<Rightarrow> nat) \<Rightarrow> (string \<Rightarrow> (dict \<Rightarrow> repl_frame list \<times> repl_end) option) \<Rightarrow> string \<Rightarrow> string
       \<Rightarrow> string \<Rightarrow> bool \<Rightarrow> history \<times> stream_state \<Rightarrow> (int \<times> bool) result \<times> history \<times> stream_state" where
  "execute_shell env len_input look uuid shell command exclude hs =
     execute_user env len_input look ''shell'' uuid (Some shell) (shell_tool_names shell)
       [(''command'', JStr command)] command exclude hs"

definition execute_python ::
    "stream_env \<Rightarrow> (dict \<Rightarrow> nat) \<Rightarrow> (string \<Rightarrow> (dict \<Rightarrow> repl_frame list \<times> repl_end) option) \<Rightarrow> string \<Rightarrow> string
       \<Rightarrow> bool \<Rightarrow> history \<times> stream_state \<Rightarrow> (int \<times> bool) result \<times> history \<times> stream_state" where
  "execute_python env len_input look uuid code exclude hs =
     execute_user env len_input look ''python'' uuid None [''Python''] [(''code'', JStr code)] code exclude hs"

section \<open>What a call changes\<close>

lemma put_out_told: "told conversation env cs st (rp_stream r) \<Longrightarrow> told conversation env cs st (rp_stream (put_out env k i s r))"
  by (simp add: put_out_def told_then_broadcast)

lemma put_err_told: "told conversation env cs st (rp_stream r) \<Longrightarrow> told conversation env cs st (rp_stream (put_err env k i s r))"
  by (simp add: put_err_def told_then_broadcast)

lemma frame_told:
  "told conversation env cs st (rp_stream r) \<Longrightarrow> told conversation env cs st (rp_stream (snd (repl_frame_step env k i f r)))"
  by (cases f) (auto simp: Let_def intro!: put_out_told put_err_told split: sum.split)

lemma frames_told:
  "told conversation env cs st (rp_stream r) \<Longrightarrow> told conversation env cs st (rp_stream (snd (repl_frames env k i fs r)))"
proof (induction fs arbitrary: r)
  case (Cons f fs)
  then show ?case using frame_told [of env cs st r k i f] by (auto split: prod.split option.split)
qed simp

text \<open>A call adds one user message to history and log, or nothing to either.\<close>

lemma execute_user_tool_adds:
  fixes hs :: "history \<times> stream_state"
  shows "\<exists>s. snd (execute_user_tool env li k i inp shell exclude frames ending hs) =
      (if exclude then fst hs else append_user li [s] (fst hs),
       snd (snd (execute_user_tool env li k i inp shell exclude frames ending hs)))
    \<and> told conversation env (if exclude then [] else [Conversation_Message_Row (serialize_message (User_Message [User_Text s]))])
        (snd hs) (snd (snd (execute_user_tool env li k i inp shell exclude frames ending hs)))"
proof -
  let ?r0 = "\<lparr>rp_exit = 0, rp_progress = False, rp_out = [], rp_err = [],
    rp_stream = broadcast env (User_Start_Update k i inp shell exclude) (snd hs)\<rparr>"
  obtain raised r1 where f: "repl_frames env k i frames ?r0 = (raised, r1)" by (rule prod.exhaust)
  define how where "how = (case raised of Some e \<Rightarrow> Repl_Raised e | None \<Rightarrow> ending)"
  define r2 where "r2 = (case how of
      Repl_Rejected e \<Rightarrow> put_err env k i (''Input validation failed: '' @ e) (r1\<lparr>rp_exit := 1\<rparr>)
    | Repl_Cancelled \<Rightarrow> r1\<lparr>rp_exit := - 1\<rparr> | _ \<Rightarrow> r1)"
  have "told conversation env [] (snd hs) (rp_stream r1)"
    using frames_told [of env "[]" "snd hs" ?r0 k i frames] f told_broadcast by simp
  then have r2: "told conversation env [] (snd hs) (rp_stream r2)"
    by (auto simp: r2_def intro: put_err_told split: repl_end.split)
  let ?s = "context_text k inp (concat (rp_out r2)) (concat (rp_err r2)) (rp_exit r2) (how = Repl_Cancelled)"
  let ?row = "Conversation_Message_Row (serialize_message (User_Message [User_Text ?s]))"
  let ?t = "if exclude then rp_stream r2 else put_event env ?row (rp_stream r2)"
  have "snd (execute_user_tool env li k i inp shell exclude frames ending hs) =
      (if exclude then fst hs else append_user li [?s] (fst hs),
       broadcast env (User_End_Update k i (rp_exit r2) (how = Repl_Cancelled)) ?t)"
    using f by (simp add: execute_user_tool_def how_def r2_def
        append_user_execution_context_def Let_def)
  moreover have "told conversation env (if exclude then [] else [?row]) (snd hs) ?t"
    using r2 told_trans [OF r2 told_put [of conversation env ?row "rp_stream r2"]] by simp
  ultimately show ?thesis using told_then_broadcast by (intro exI [of _ ?s]) auto
qed

end
