(* ===== verification/Manager_Properties.thy ===== *)
theory Manager_Properties
  imports User_Repl Session_Properties
begin

text \<open>
  The properties of the session manager: titles, modes, paging, deletion, and the user's own executions.
\<close>

section \<open>A user's title\<close>

text \<open>\<open>titled t\<close>: the user gave the session the title \<open>t\<close>. \<open>titling\<close>: a row that sets a title.\<close>

definition titled :: "string \<Rightarrow> stream_state \<Rightarrow> bool" where
  "titled t st \<longleftrightarrow> ss_title (lg_session st) = Some t \<and>
     (\<exists>r. store_get_session (ss_id (lg_session st)) (lg_store st) = Some r
          \<and> cv_title r = Some t \<and> cv_title_source r = Some ''user'')"

fun titling :: "event_body \<Rightarrow> bool" where
  "titling (Info_Changed_Row (Some s)) = True"
| "titling _ = False"

lemma titled_cong:
  assumes "ss_title (lg_session st') = ss_title (lg_session st)" "ss_id (lg_session st') = ss_id (lg_session st)"
    and "st_records (lg_store st') = st_records (lg_store st)"
  shows "titled t st' = titled t st"
  using assms by (simp add: titled_def store_get_session_def)

lemma titled_put [simp]: "titled t (put_event env b st) = titled t st"
  by (rule titled_cong) (simp_all add: put_event_def write_event_def append_event_def Let_def)

lemma titled_broadcast [simp]: "titled t (broadcast env u st) = titled t st"
  by (rule titled_cong) (simp_all add: broadcast_def Let_def split: prod.split)

lemma find_update:
  "find (\<lambda>r. cv_session_id r = sid) (map (\<lambda>r. if cv_session_id r = sid then f r else r) rs) =
     map_option f (find (\<lambda>r. cv_session_id r = sid) rs)"
  if "\<And>r. cv_session_id (f r) = cv_session_id r"
  by (induction rs) (auto simp: that)

lemma titled_write: "titled t st \<Longrightarrow> titled t (write_event env b tokens st)"
  by (auto simp: titled_def write_event_def append_event_def update_record_def store_get_session_def find_update
      Let_def split: option.split prod.split)

lemma titled_spill: "maybe_spill env c st = (p, st') \<Longrightarrow> titled t st' = titled t st"
  by (rule titled_cong) (auto simp: maybe_spill_def write_spilled_def Let_def split: if_splits)

lemma handle_info_titled:
  "titled t st \<Longrightarrow> titled t (handle_info env x st) \<and> told titling env [] st (handle_info env x st)"
  by (auto simp: handle_info_def Let_def titled_def [of t st] intro: told_refl
      intro!: told_then_broadcast told_then_put split: option.splits)

lemma handle_event_titled:
  assumes "titled t st" "handle_event env ev (acc, st) = (acc', st')"
  shows "titled t st' \<and> told titling env [] st st'"
proof -
  obtain ts hs where acc: "acc = (ts, hs)" by (rule prod.exhaust)
  have same: "titled t (st\<lparr>lg_session := s\<rparr>)" if "ss_title s = ss_title (lg_session st)" "ss_id s = ss_id (lg_session st)" for s
    using assms(1) titled_cong [of "st\<lparr>lg_session := s\<rparr>" st t] that by simp
  note told_intros = told_then_broadcast told_then_put told_refl emit_told told_session [OF _ told_refl]
  show ?thesis
  proof (cases ev)
    case (Ev_Tool_Result i bs)
    obtain p st1 where "maybe_spill (session_env.truncate env) (blocks_to_raw bs) st = (p, st1)" by (rule prod.exhaust)
    with Ev_Tool_Result show ?thesis
      using assms handle_tool_result_told [of titling env st i bs] titled_spill
      by (auto simp: handle_tool_result_def emit_tool_update_def)
  next
    case (Ev_Info x)
    then show ?thesis using assms handle_info_titled by auto
  qed (use assms acc same in \<open>auto simp: emit_tool_update_def handle_config_options_def handle_mode_def
      handle_sub_start_def handle_sub_end_def Let_def intro!: told_intros\<close>)
qed

lemma fold_titled:
  "titled t st \<Longrightarrow> fold (handle_event env) evs (acc, st) = (acc', st') \<Longrightarrow> titled t st' \<and> told titling env [] st st'"
proof (induction evs arbitrary: acc st)
  case (Cons ev evs)
  obtain acc1 st1 where h: "handle_event env ev (acc, st) = (acc1, st1)" by (rule prod.exhaust)
  note first = handle_event_titled [OF Cons.prems(1) h]
  with Cons.IH [of st1 acc1] Cons.prems(2) h have "titled t st'" "told titling env [] st1 st'" by simp_all
  then show ?case using told_trans [of titling env "[]" st st1 "[]" st'] first by simp
qed (simp add: told_refl)

lemma drain_titled: "titled t (drain_modes env ms st) = titled t st"
  by (induction env ms st rule: drain_modes.induct) simp_all

lemma drain_untitled: "told titling env cs st0 st \<Longrightarrow> told titling env cs st0 (drain_modes env ms st)"
  by (induction env ms st rule: drain_modes.induct) (simp_all add: told_then_broadcast told_then_put)

lemma opening_titled:
  assumes "titled t st"
  shows "titled t (drain_pending_mode_changes env
       (put_event env (Turn_Started_Row rid) (write_first_user_message env prompt rid st)))
    \<and> told titling env [] st (drain_pending_mode_changes env
       (put_event env (Turn_Started_Row rid) (write_first_user_message env prompt rid st)))"
proof -
  obtain r where w: "write_first_user_message env prompt rid st =
      maybe_set_title env prompt (put_event env (User_Message_Row prompt r) st)"
    by (simp add: write_first_user_message_def)
  have "titled t (put_event env (User_Message_Row prompt r) st)" using assms by simp
  then have "ss_title (lg_session (put_event env (User_Message_Row prompt r) st)) = Some t" by (simp add: titled_def)
  then have w: "write_first_user_message env prompt rid st = put_event env (User_Message_Row prompt r) st"
    unfolding w by (simp add: maybe_set_title_def)
  let ?st1 = "put_event env (Turn_Started_Row rid) (put_event env (User_Message_Row prompt r) st)"
  let ?st2 = "?st1\<lparr>lg_session := (lg_session ?st1)\<lparr>ss_pending_modes := []\<rparr>\<rparr>"
  have "told titling env [] st ?st1" by (intro told_then_put told_refl) simp_all
  then have "told titling env [] st ?st2"
    using told_trans [OF _ told_quiet [of ?st2 ?st1]] by fastforce
  moreover have "titled t ?st2 = titled t ?st1" by (rule titled_cong) simp_all
  then have "titled t ?st2" using assms by simp
  ultimately show ?thesis
    unfolding w drain_pending_mode_changes_def Let_def by (simp add: drain_titled drain_untitled)
qed

lemma finish_titled:
  assumes "titled t st" "told titling env [] st0 st"
  shows "titled t (finish_turn env rid ending usage duration acc st)
    \<and> told titling env [] st0 (finish_turn env rid ending usage duration acc st)"
proof -
  obtain ts hs where acc: "acc = (ts, hs)" by (rule prod.exhaust)
  let ?s1 = "if ts \<noteq> [] then put_event env (Agent_Message_Row (text_row ts)) st else st"
  let ?s2 = "if hs \<noteq> [] then put_event env (Agent_Thought_Row (text_row hs)) ?s1 else ?s1"
  let ?b = "Turn_Completed_Row rid (turn_stop_reason ending) duration (fst usage) (snd usage)"
  let ?s3 = "write_event (session_env.truncate env) ?b (turn_token_update usage) ?s2"
  let ?s4 = "?s3\<lparr>lg_session := (lg_session ?s3)\<lparr>ss_depth := 0\<rparr>\<rparr>"
  have 2: "titled t ?s2" "told titling env [] st0 ?s2" using assms by (auto intro!: told_then_put)
  then have "titled t ?s3" "told titling env [] st0 ?s3"
    using titled_write told_trans [OF 2(2) told_write [of titling env ?b ?s2 "turn_token_update usage"]] by simp_all
  moreover have "titled t ?s4 = titled t ?s3" by (rule titled_cong) simp_all
  moreover have "told titling env [] ?s3 ?s4" by (rule told_quiet) simp_all
  ultimately show ?thesis using told_trans by (fastforce simp: finish_turn_def acc Let_def)
qed

lemma run_turn_titled:
  assumes "titled t st"
  shows "titled t (snd (run_turn env prompt rid evs ending usage duration st))
    \<and> told titling env [] st (snd (run_turn env prompt rid evs ending usage duration st))"
proof -
  let ?st2 = "drain_pending_mode_changes env
     (put_event env (Turn_Started_Row rid) (write_first_user_message env prompt rid st))"
  obtain acc st3 where f: "fold (handle_event env) evs (([], []), ?st2) = (acc, st3)" by (rule prod.exhaust)
  note opened = opening_titled [OF assms, of env rid prompt]
  with fold_titled [OF _ f] have 3: "titled t st3" "told titling env [] ?st2 st3" by blast+
  then have "told titling env [] st st3" using told_trans [OF conjunct2 [OF opened] 3(2)] by simp
  then show ?thesis
    using f 3(1) by (auto simp: run_turn_def stream_turn_def Let_def intro!: finish_titled told_then_put)
qed

type_synonym turn_input = "dict list \<times> json \<times> turn_event list \<times> stream_end \<times> (int \<times> int) \<times> int"

definition turns_after :: "stream_env \<Rightarrow> turn_input list \<Rightarrow> stream_state \<Rightarrow> stream_state" where
  "turns_after env = fold (\<lambda>(p, rid, evs, e, u, d) st. snd (run_turn env p rid evs e u d st))"

lemma turns_titled:
  "titled t st \<Longrightarrow> titled t (turns_after env ts st) \<and> told titling env [] st (turns_after env ts st)"
proof (induction ts arbitrary: st)
  case (Cons x ts)
  obtain p rid evs e u d where x: "x = (p, rid, evs, e, u, d)" by (cases x)
  let ?st1 = "snd (run_turn env p rid evs e u d st)"
  note first = run_turn_titled [OF Cons.prems, of env p rid evs e u d]
  with Cons.IH [of ?st1] have "titled t (turns_after env ts ?st1)" "told titling env [] ?st1 (turns_after env ts ?st1)"
    by blast+
  moreover have "turns_after env (x # ts) st = turns_after env ts ?st1" by (simp add: turns_after_def x)
  ultimately show ?case using told_trans [of titling env "[]" st ?st1 "[]"] first by simp
qed (simp add: turns_after_def told_refl)

lemma apply_title_titled:
  assumes "store_get_session (ss_id (lg_session st)) (lg_store st) \<noteq> None"
  shows "titled t (apply_title env t st) \<and> told titling env [Info_Changed_Row (Some t)] st (apply_title env t st)"
proof -
  let ?s = "lg_session st"
  let ?st1 = "st\<lparr>lg_session := ?s\<lparr>ss_title := Some t\<rparr>,
    lg_store := update_title (se_now env (lg_tick st)) (ss_id ?s) t (Some ''user'') (lg_store st)\<rparr>"
  have 1: "titled t ?st1"
    using assms by (auto simp: titled_def store_get_session_def update_title_def update_record_def find_update)
  have "told titling env [] st ?st1" by (rule told_quiet) (simp_all add: update_title_def update_record_def)
  then have "told titling env [Info_Changed_Row (Some t)] st (put_event env (Info_Changed_Row (Some t)) ?st1)"
    using told_trans [OF _ told_put [of titling env "Info_Changed_Row (Some t)" ?st1]] by fastforce
  with 1 show ?thesis by (simp add: apply_title_def Let_def told_then_broadcast)
qed

lemma fold_title:
  "ld_title (fold (apply_event sd) es ld) =
     fold (\<lambda>b x. case b of Info_Changed_Row (Some s) \<Rightarrow> if s = [] then x else Some s | _ \<Rightarrow> x)
       (filter titling (map ev_body es)) (ld_title ld)"
proof (induction es arbitrary: ld)
  case (Cons e es)
  then show ?case by (cases "ev_body e") (auto simp: apply_event_def Let_def split: option.split)
qed simp

text \<open>
  C12: A title the user gave stays. After a rename, whatever turns follow - with titles their own events
  suggest, first messages that would seed one, sub-agents, cancellations - the session and its record
  keep the user's title, and so does the session a later process loads from the rows.
\<close>

theorem user_title_kept:
  fixes st :: stream_state
  defines "sid \<equiv> ss_id (lg_session st)"
  assumes "t \<noteq> []" "store_get_session sid (lg_store st) \<noteq> None"
    and "timely (session_env.truncate env) (log_state.truncate st)"
    and "st' = turns_after env ts (apply_title env t st)"
  shows "ss_title (lg_session st') = Some t
    \<and> map_option cv_title (store_get_session sid (lg_store st')) = Some (Some t)
    \<and> ss_title (load_from_disk sd pcwd now worktree sid (lg_store st')) = Some t"
proof -
  note renamed = apply_title_titled [OF assms(3) [unfolded sid_def], of t env]
  with turns_titled [of t "apply_title env t st" env ts] assms(5)
  have kept: "titled t st'" "told titling env [] (apply_title env t st) st'" by blast+
  then have told: "told titling env [Info_Changed_Row (Some t)] st st'"
    using told_trans [OF conjunct2 [OF renamed] kept(2)] by simp
  then have same: "ss_id (lg_session st') = sid" by (simp add: told_def sid_def)
  obtain es where "read_events sid (lg_store st') = read_events sid (lg_store st) @ es"
      "filter titling (map ev_body es) = [Info_Changed_Row (Some t)]"
    using told assms(4) by (auto simp: told_def sid_def)
  then have "ld_title (reconstruct_state sd (read_events sid (lg_store st'))) = Some t"
    using assms(2) by (simp add: reconstruct_state_def fold_title)
  then show ?thesis using kept(1) same by (auto simp: load_from_disk_def titled_def Let_def)
qed

text \<open>A renamed session, and a turn whose stream suggests another title.\<close>

definition recorded_state :: stream_state where
  "recorded_state = sample_stream_state\<lparr>lg_store := \<lparr>st_records = [\<lparr>cv_session_id = ''s'', cv_cwd = ''/w'',
     cv_title = None, cv_title_source = None, cv_archived_at = None, cv_created = 0, cv_modified = 0,
     cv_input_tokens = 0, cv_output_tokens = 0\<rparr>], st_rows = [], st_spilled = Map.empty\<rparr>\<rparr>"

lemma recorded_timely: "timely (session_env.truncate sample_stream_env) (log_state.truncate recorded_state)"
  by (simp add: timely_def sample_stream_env_def recorded_state_def sample_stream_state_def log_state.defs
      session_env.defs rows_of_def)

theorem user_title_kept_witness:
  "ss_title (load_from_disk (\<lambda>_. []) ''/w'' 9 None ''s'' (lg_store (turns_after sample_stream_env
     [([[(''type'', JStr ''text''), (''text'', JStr ''hi'')]], JInt 1, [Ev_Info (Some ''other''), Ev_Text ''x''],
       Stream_Done, (1, 1), 5)]
     (apply_title sample_stream_env ''mine'' recorded_state)))) = Some ''mine''"
  using user_title_kept [of "''mine''" recorded_state sample_stream_env _ "[([[(''type'', JStr ''text''), (''text'', JStr ''hi'')]], JInt 1, [Ev_Info (Some ''other''), Ev_Text ''x''],
       Stream_Done, (1, 1), 5)]" "\<lambda>_. []" "''/w''" 9 None, OF _ _ recorded_timely refl]
  by (simp add: recorded_state_def sample_stream_state_def sample_session_def store_get_session_def)

section \<open>Modes\<close>

fun moding :: "event_body \<Rightarrow> bool" where
  "moding (Mode_Changed_Row m f) = True"
| "moding _ = False"

lemma fold_mode:
  "ld_mode (fold (apply_event sd) es ld) =
     fold (\<lambda>b x. case b of Mode_Changed_Row m _ \<Rightarrow> Some m | _ \<Rightarrow> x) (filter moding (map ev_body es)) (ld_mode ld)"
proof (induction es arbitrary: ld)
  case (Cons e es)
  then show ?case by (cases "ev_body e") (auto simp: apply_event_def Let_def split: option.split)
qed simp

lemma put_orch_mode [simp]: "ss_orch_mode (lg_session (put_event env b st)) = ss_orch_mode (lg_session st)"
  by (simp add: put_event_def write_event_def Let_def)

lemma broadcast_orch_mode [simp]: "ss_orch_mode (lg_session (broadcast env u st)) = ss_orch_mode (lg_session st)"
  by (simp add: broadcast_def Let_def split: prod.split)

lemma apply_mode_told:
  assumes "apply_mode_change env mode st = (Inr (), st')"
  shows "told moding env [Mode_Changed_Row mode (Some (normalise_mode_id (ss_mode (lg_session st))))] st st'"
    and "ss_orch_mode (lg_session st') = mode"
proof -
  let ?s = "lg_session st"
  let ?s' = "?s\<lparr>ss_mode := Some mode, ss_config := AList.update MODE_CONFIG_ID mode (ss_config ?s), ss_orch_mode := mode\<rparr>"
  let ?b = "Mode_Changed_Row mode (Some (normalise_mode_id (ss_mode ?s)))"
  have valid: "validate_mode_id mode = Inr mode"
    using assms by (auto simp: apply_mode_change_def validate_mode_id_def split: if_splits)
  have "told moding env [?b] (st\<lparr>lg_session := ?s'\<rparr>) (put_event env ?b (st\<lparr>lg_session := ?s'\<rparr>))"
    using told_put [of moding env ?b "st\<lparr>lg_session := ?s'\<rparr>"] by simp
  then have "told moding env [?b] st (put_event env ?b (st\<lparr>lg_session := ?s'\<rparr>))"
    by (rule told_session [rotated]) simp
  then show "told moding env [?b] st st'"
    using assms valid by (auto simp: apply_mode_change_def Let_def intro!: told_then_broadcast told_then_put)
  show "ss_orch_mode (lg_session st') = mode" using assms valid by (auto simp: apply_mode_change_def Let_def)
qed

text \<open>
  C13: A session in plan mode is resumed without it. After \<open>session/set_mode\<close> to plan and a reload - the
  eviction of an idle session is enough - the session says plan, and shows it to the client, but its
  orchestrator is in default mode: the write protection the user switched on is gone.
\<close>

theorem reload_drops_plan_mode:
  assumes "timely (session_env.truncate env) (log_state.truncate st)"
    and "apply_mode_change env ''plan'' st = (Inr (), st')"
  shows "ss_orch_mode (lg_session st') = ''plan'' \<and>
    (let s = load_from_disk sd pcwd now worktree (ss_id (lg_session st)) (lg_store st')
     in ss_mode s = Some ''plan'' \<and> ss_orch_mode s = ''default'')"
proof -
  note told = apply_mode_told(1) [OF assms(2)]
  obtain es where "read_events (ss_id (lg_session st)) (lg_store st') = read_events (ss_id (lg_session st)) (lg_store st) @ es"
      "filter moding (map ev_body es) = [Mode_Changed_Row ''plan'' (Some (normalise_mode_id (ss_mode (lg_session st))))]"
    using told assms(1) by (auto simp: told_def)
  then have "ld_mode (reconstruct_state sd (read_events (ss_id (lg_session st)) (lg_store st'))) = Some ''plan''"
    by (simp add: reconstruct_state_def fold_mode)
  then show ?thesis using apply_mode_told(2) [OF assms(2)] by (simp add: load_from_disk_def Let_def)
qed

theorem reload_drops_plan_mode_witness:
  "ss_orch_mode (load_from_disk (\<lambda>_. []) ''/w'' 9 None ''s''
     (lg_store (snd (apply_mode_change sample_stream_env ''plan'' recorded_state)))) = ''default''"
proof -
  have "apply_mode_change sample_stream_env ''plan'' recorded_state =
      (Inr (), snd (apply_mode_change sample_stream_env ''plan'' recorded_state))"
    by (simp add: apply_mode_change_def validate_mode_id_def PLAN_MODE_ID_def Let_def)
  from reload_drops_plan_mode [OF recorded_timely this, of "\<lambda>_. []" "''/w''" 9 None]
  show ?thesis by (simp add: Let_def recorded_state_def sample_stream_state_def sample_session_def)
qed

text \<open>Leaving plan mode from a tool returns to the mode it was entered from.\<close>

lemma valid_modes: "''plan'' \<in> mode_name ` set VALID_PERMISSION_MODES" "''default'' \<in> mode_name ` set VALID_PERMISSION_MODES"
  by (simp_all add: VALID_PERMISSION_MODES_def)

lemma enter_plan:
  assumes "ss_mode s \<noteq> Some ''plan''"
  shows "set_mode_closure ''plan'' s = (Inr (), s\<lparr>ss_pre_plan := ss_mode s, ss_needs_exit_note := False, ss_mode := Some ''plan'',
    ss_orch_mode := ''plan'', ss_pending_modes := ss_pending_modes s @ [(ss_mode s, ''plan'')]\<rparr>)"
  using assms valid_modes(1) by (simp add: set_mode_closure_def Let_def)

lemma leave_plan:
  assumes "ss_mode s = Some ''plan''" "m = (case ss_pre_plan s of Some p \<Rightarrow> if p = [] then ''default'' else p | None \<Rightarrow> ''default'')"
    and "m \<noteq> ''plan''" "m \<in> mode_name ` set VALID_PERMISSION_MODES"
  shows "set_mode_closure ''restore'' s = (Inr (), s\<lparr>ss_pre_plan := None, ss_exited_plan := True, ss_needs_exit_note := True,
    ss_mode := Some m, ss_orch_mode := m, ss_pending_modes := ss_pending_modes s @ [(Some ''plan'', m)]\<rparr>)"
  using assms by (simp add: set_mode_closure_def Let_def)

lemma plan_mode_restored:
  assumes "ss_mode s \<noteq> Some ''plan''" "normalise_mode_id (ss_mode s) \<in> mode_name ` set VALID_PERMISSION_MODES"
    and "set_mode_closure ''plan'' s = (Inr (), s1)"
  shows "\<exists>s2. set_mode_closure ''restore'' s1 = (Inr (), s2) \<and> ss_mode s2 = Some (normalise_mode_id (ss_mode s))
    \<and> ss_orch_mode s2 = normalise_mode_id (ss_mode s) \<and> ss_needs_exit_note s2
    \<and> ss_pending_modes s2 = ss_pending_modes s @ [(ss_mode s, ''plan''), (Some ''plan'', normalise_mode_id (ss_mode s))]"
proof -
  have s1: "ss_mode s1 = Some ''plan''" "ss_pre_plan s1 = ss_mode s"
      "ss_pending_modes s1 = ss_pending_modes s @ [(ss_mode s, ''plan'')]"
    using assms(3) enter_plan [OF assms(1)] by auto
  have "normalise_mode_id (ss_mode s) = (case ss_pre_plan s1 of Some p \<Rightarrow> if p = [] then ''default'' else p | None \<Rightarrow> ''default'')"
    by (simp add: s1 normalise_mode_id_def DEFAULT_MODE_ID_def split: option.split)
  moreover have "normalise_mode_id (ss_mode s) \<noteq> ''plan''"
    using assms(1) by (auto simp: normalise_mode_id_def DEFAULT_MODE_ID_def split: option.split)
  ultimately show ?thesis using leave_plan [OF s1(1) _ _ assms(2)] s1(3) by simp
qed

text \<open>
  The option a client is shown is stale after that: the closure changes the mode, not the options, and
  the options win.
\<close>

lemma option_stale:
  assumes "map_of (ss_config s) MODE_CONFIG_ID = Some ''plan''" "ss_mode s = Some ''plan''" "ss_pre_plan s = None"
    and "set_mode_closure ''restore'' s = (r, s')"
  shows "ss_mode s' = Some ''default'' \<and> shown_mode (map_of (json_config (ss_config s'))) str (ss_mode s') = ''plan''"
proof -
  have json: "map_of (json_config c) k = map_option JStr (map_of c k)" for c k
    by (induction c) (auto simp: json_config_def)
  have "set_mode_closure ''restore'' s = (Inr (), s\<lparr>ss_pre_plan := None, ss_exited_plan := True, ss_needs_exit_note := True,
      ss_mode := Some ''default'', ss_orch_mode := ''default'', ss_pending_modes := ss_pending_modes s @ [(Some ''plan'', ''default'')]\<rparr>)"
    using assms(2,3) valid_modes(2) by (intro leave_plan) simp_all
  then have "ss_config s' = ss_config s" "ss_mode s' = Some ''default''" using assms(4) by auto
  then show ?thesis using assms(1) by (simp add: json shown_mode_def)
qed

section \<open>Paging\<close>

text \<open>The list a request pages through.\<close>

definition listing :: "string option \<Rightarrow> bool \<Rightarrow> bool \<Rightarrow> session_store \<Rightarrow> conversation_record list" where
  "listing cwd include_archived archived_only st =
     (let rs = store_list_sessions include_archived archived_only st in
      case cwd of Some c \<Rightarrow> if c = [] then rs else filter (\<lambda>r. cv_cwd r = c) rs | None \<Rightarrow> rs)"

text \<open>
  C14: Following the cursors of \<open>session/list\<close> visits every session exactly once and then ends, whatever
  the page size, if the store does not change meanwhile and its list is in the order the cursor
  assumes - by time, and by descending id where times are equal.
\<close>

theorem pages_complete:
  assumes "listed stamp (listing cwd ia ao st)" "0 < per_page"
    and "\<forall>r \<in> set (listing cwd ia ao st). CHR ''|'' \<notin> set (stamp (cv_modified r))"
    and "case cwd of Some c \<Rightarrow> is_absolute (path_of c) | None \<Rightarrow> True" "length (listing cwd ia ao st) \<le> n"
  shows "follow (\<lambda>c. list_sessions stamp per_page cwd ia ao c st) (Suc n) None = listing cwd ia ao st"
proof -
  have "(\<lambda>c. list_sessions stamp per_page cwd ia ao c st) =
      list_page encode_cursor decode_cursor stamp per_page (listing cwd ia ao st)"
    using assms(4) by (cases cwd) (simp_all add: list_sessions_def listing_def Let_def)
  then show ?thesis using cc.all_pages [OF assms(1-3,5)] by simp
qed

definition aged :: "string \<Rightarrow> rat \<Rightarrow> conversation_record" where
  "aged sid t = \<lparr>cv_session_id = sid, cv_cwd = ''/w'', cv_title = None, cv_title_source = None,
     cv_archived_at = None, cv_created = 0, cv_modified = t, cv_input_tokens = 0, cv_output_tokens = 0\<rparr>"

definition stamp2 :: "rat \<Rightarrow> string" where
  "stamp2 t = (if t = 1 then ''1'' else if t = 2 then ''2'' else ''3'')"

definition three_sessions :: session_store where
  "three_sessions = \<lparr>st_records = [aged ''a'' 1, aged ''b'' 3, aged ''c'' 2], st_rows = [], st_spilled = Map.empty\<rparr>"

lemma three_listing: "listing None False False three_sessions = [aged ''b'' 3, aged ''c'' 2, aged ''a'' 1]"
  by (simp add: listing_def three_sessions_def store_list_sessions_def aged_def)

theorem pages_complete_witness:
  "follow (\<lambda>c. list_sessions stamp2 1 None False False c three_sessions) 4 None =
     [aged ''b'' 3, aged ''c'' 2, aged ''a'' 1]"
proof -
  have "listed stamp2 (listing None False False three_sessions)"
    by (simp add: three_listing listed_def after_cursor_def aged_def stamp2_def)
  moreover have "\<forall>r \<in> set (listing None False False three_sessions). CHR ''|'' \<notin> set (stamp2 (cv_modified r))"
    by (simp add: stamp2_def)
  ultimately have "follow (\<lambda>c. list_sessions stamp2 1 None False False c three_sessions) (Suc 3) None =
      listing None False False three_sessions"
    by (intro pages_complete) (simp_all add: three_listing)
  then show ?thesis by (simp only: three_listing) (simp add: eval_nat_numeral)
qed

text \<open>
  A cursor that nothing comes after - the sessions behind it were deleted, or used and so moved to the
  front - gives the first page again, with a cursor to go on from.
\<close>

lemma first_after_none: "\<forall>r \<in> set rs. \<not> after_cursor stamp c r \<Longrightarrow> first_after stamp c i rs = 0"
  by (induction rs arbitrary: i) auto

lemma page_restarts:
  assumes "decode t = Inr c" "\<forall>r \<in> set rs. \<not> after_cursor stamp c r"
  shows "list_page encode decode stamp per_page rs (Some t) = list_page encode decode stamp per_page rs None"
  using assms by (simp add: list_page_def cursor_start_index_def first_after_none)

text \<open>Two sessions of one time, listed by ascending id: the second is on no page.\<close>

lemma tied_session_skipped:
  "follow (list_page (\<lambda>m s. m @ ''|'' @ s) (\<lambda>t. Inr ([hd t], tl (tl t))) stamp2 1
     [aged ''a'' 2, aged ''b'' 2, aged ''c'' 1]) 5 None = [aged ''a'' 2, aged ''c'' 1]"
  by (simp add: eval_nat_numeral list_page_def cursor_start_index_def after_cursor_def aged_def stamp2_def)

section \<open>The user's own executions\<close>

text \<open>
  C15: What the user ran stays in the conversation: the output of an execution is in the orchestrator's
  history and in the rows, so a session whose conversation was resumable is so after it - with the same
  messages - however the tool behaved, and an execution excluded from the context changes neither.
\<close>

theorem user_execution_resumes:
  assumes "timely (session_env.truncate env) (log_state.truncate st)" "stored_history sd st = h_messages h"
    and "execute_user_tool env li kind i inp shell exclude frames ending (h, st) = (r, h', st')"
  shows "stored_history sd st' = h_messages h' \<and> (exclude \<longrightarrow> h' = h)"
proof -
  have "\<exists>s. h' = (if exclude then h else append_user li [s] h) \<and> told conversation env (if exclude then []
         else [Conversation_Message_Row (serialize_message (User_Message [User_Text s]))]) st st'"
    using execute_user_tool_adds [of env li kind i inp shell exclude frames ending "(h, st)"] assms(3)
    by (cases exclude) simp_all
  then obtain s where "h' = (if exclude then h else append_user li [s] h)"
      "told conversation env (if exclude then []
         else [Conversation_Message_Row (serialize_message (User_Message [User_Text s]))]) st st'"
    by blast
  then show ?thesis
    using told_history [OF _ assms(1), of _ st'] assms(2)
    by (auto simp: append_history_message_def message_roundtrip append_history_def append_user_def
        push_message_def is_user_def simp del: serialize_message.simps split: if_splits)
qed

theorem user_execution_resumes_witness:
  "let (r, h, st) = execute_user_tool sample_stream_env (\<lambda>_. 0) ''shell'' ''shell:1'' ''ls'' (Some ''bash'') False
        [Repl_Result (JObj [(''stdout'', JStr ''f'')])] Repl_Done (new_history (\<lambda>_. 0) None, recorded_state)
   in stored_history (\<lambda>_. []) st = h_messages h"
proof -
  let ?x = "execute_user_tool sample_stream_env (\<lambda>_. 0) ''shell'' ''shell:1'' ''ls'' (Some ''bash'') False
        [Repl_Result (JObj [(''stdout'', JStr ''f'')])] Repl_Done (new_history (\<lambda>_. 0) None, recorded_state)"
  obtain r h st where x: "?x = (r, h, st)" by (metis prod_cases3)
  have "stored_history (\<lambda>_. []) recorded_state = h_messages (new_history (\<lambda>_. 0) None)"
    by (simp add: stored_history_def recorded_state_def read_events_def reconstruct_state_def fresh_loaded_def new_history_def)
  from user_execution_resumes [OF recorded_timely this x] x show ?thesis by simp
qed

text \<open>
  An execution during a turn spoils the conversation. If the model's tool calls are still open - the
  tools run - the execution's message lands between them and their results: from then on no
  continuation of the history, the results included, is one a provider accepts, each tool use being
  answered by the next message. A settled conversation stays settled.
\<close>

lemma execution_breaks_pairing:
  assumes "paired (h_messages h)"
    and "execute_user_tool env li kind i inp shell False frames ending (h, st) = (r, h', st')"
  shows "if still_open [] (h_messages h) = [] then settled (h_messages h')
     else \<not> paired (h_messages h' @ ms)"
proof -
  obtain s where h': "h_messages h' = h_messages h @ [User_Message [User_Text s]]"
    using execute_user_tool_adds [of env li kind i inp shell False frames ending "(h, st)"] assms(2)
    by (auto simp: append_user_def push_message_def)
  show ?thesis
    using assms(1) by (auto simp: h' settled_def uses_of_def)
qed

lemma execution_breaks_pairing_witness:
  "\<not> paired (h_messages (fst (snd (execute_user_tool sample_stream_env (\<lambda>_. 0) ''shell'' ''shell:1'' ''ls'' None False [] Repl_Done
        ((new_history (\<lambda>_. 0) None)\<lparr>h_messages := [Assistant_Message [Assistant_Tool_Use ''t'' ''Read'' []]]\<rparr>, recorded_state))))
      @ [User_Message [User_Result \<lparr>rb_tool_use_id = ''t'', rb_content = Content_Text ''x'', rb_is_error = False\<rparr>]])"
proof -
  let ?h = "(new_history (\<lambda>_. 0) None)\<lparr>h_messages := [Assistant_Message [Assistant_Tool_Use ''t'' ''Read'' []]]\<rparr>"
  let ?x = "execute_user_tool sample_stream_env (\<lambda>_. 0) ''shell'' ''shell:1'' ''ls'' None False [] Repl_Done (?h, recorded_state)"
  obtain r h st where x: "?x = (r, h, st)" by (metis prod_cases3)
  have "paired (h_messages ?h)" "still_open [] (h_messages ?h) = [''t'']" by (simp_all add: uses_of_def)
  then show ?thesis
    using execution_breaks_pairing [OF _ x, of
        "[User_Message [User_Result \<lparr>rb_tool_use_id = ''t'', rb_content = Content_Text ''x'', rb_is_error = False\<rparr>]]"]
    by (simp only: x fst_conv snd_conv) simp
qed

section \<open>Leaving and deleting\<close>

text \<open>
  Deleting takes a session's record, its rows and its sidecars, and nothing of another session. It is
  refused for an active session unless forced.
\<close>

lemma delete_complete:
  assumes "delete_session_by_id sid force conn m = (Inr True, m')"
  shows "session_of sid m' = None \<and> store_get_session sid (mg_store m') = None \<and> read_events sid (mg_store m') = []
    \<and> (\<forall>h. st_spilled (mg_store m') (sid, h) = None)
    \<and> (\<forall>sid'. sid' \<noteq> sid \<longrightarrow> session_of sid' m' = session_of sid' m
         \<and> read_events sid' (mg_store m') = read_events sid' (mg_store m)
         \<and> (\<forall>h. st_spilled (mg_store m') (sid', h) = st_spilled (mg_store m) (sid', h)))"
proof -
  have m': "mg_sessions m' = AList.delete sid (mg_sessions m)"
      "st_records (mg_store m') = filter (\<lambda>r. cv_session_id r \<noteq> sid) (st_records (mg_store m))"
      "st_rows (mg_store m') = filter (\<lambda>r. er_session r \<noteq> sid) (st_rows (mg_store m))"
      "st_spilled (mg_store m') = (\<lambda>(i, h). if i = sid then None else st_spilled (mg_store m) (i, h))"
    using assms by (auto simp: delete_session_by_id_def store_delete_def Let_def fun_eq_iff split: if_splits)
  have "filter (\<lambda>r. er_session r = i) (st_rows (mg_store m')) =
      (if i = sid then [] else filter (\<lambda>r. er_session r = i) (st_rows (mg_store m)))" for i
    by (auto simp: m' filter_empty_conv intro: filter_cong)
  then show ?thesis
    by (auto simp: m' session_of_def delete_conv store_get_session_def read_events_def find_None_iff)
qed

text \<open>
  The last client leaves: the session is dropped from memory although its turn is running, if that turn
  is still in its first write, and with whatever another session has left for it.
\<close>

lemma last_client_leaves:
  assumes "session_of sid m = Some lv" "ss_senders (lv_session lv) = [c]"
    and "tb_in_flight (lv_turns lv) = None" "tb_queue (lv_turns lv) = []"
  shows "session_of sid (leave_session c sid m) = None"
  using assms by (simp add: leave_session_def on_session_def maybe_evict_def unfocus_def focus_def session_of_def
      update_conv' delete_conv)

lemma delivered_message_lost:
  assumes "session_of sid m = Some lv" "ss_senders (lv_session lv) = [c]"
    and "tb_in_flight (lv_turns lv) = None" "tb_queue (lv_turns lv) = []"
    and "deliver_message sid msg sender m = (d, m1)"
  shows "d \<and> session_of sid (leave_session c sid m1) = None
    \<and> ss_reminders (load_from_disk sd pcwd now worktree sid (mg_store (leave_session c sid m1))) = []"
proof -
  have d: "d" "m1 = snd (deliver_message sid msg sender m)" using assms(1,5) by (auto simp: deliver_message_def)
  obtain lv1 where "session_of sid m1 = Some lv1" "ss_senders (lv_session lv1) = [c]" "lv_turns lv1 = lv_turns lv"
    using assms(1,2) d(2) by (simp add: deliver_message_def on_session_def unfocus_def focus_def session_of_def update_conv' Let_def)
  then show ?thesis using last_client_leaves [of sid m1 lv1 c] assms(3,4) d(1) by (simp add: load_from_disk_def Let_def)
qed

end
