(* ===== verification/Gateways.thy ===== *)
theory Gateways
  imports Session_Manager
begin

text \<open>
  Messaging platforms (\<open>gateways/base.py\<close>, \<open>gateways/manager.py\<close>, \<open>gateways/discord/\<close>) and the catalog
  of slash commands (\<open>commands/\<close>): which session a channel talks to, how a permission is asked for there,
  what a command answers, how a reply is cut into messages. The platform's own API is a parameter.
\<close>

section \<open>Slash commands\<close>

record command_def =
  cd_name :: string
  cd_description :: string
  cd_usage :: string
  cd_acp_method :: "string option"
  cd_subcommands :: "string list"

type_synonym command_registry = "(string \<times> command_def) list"

definition command :: "string \<Rightarrow> string \<Rightarrow> string \<Rightarrow> string option \<Rightarrow> string list \<Rightarrow> command_def" where
  "command n d u m subs =
     \<lparr>cd_name = n, cd_description = d, cd_usage = u, cd_acp_method = m, cd_subcommands = subs\<rparr>"

definition BUILTIN_COMMANDS :: "command_def list" where
  "BUILTIN_COMMANDS =
     [command ''help'' ''Show available commands'' ''/help'' None [],
      command ''model'' ''List or switch the active LLM model'' ''/model [list | switch <name>]''
        (Some ''model/profile_list'') [''list'', ''switch''],
      command ''plan'' ''Enter, exit, or query plan mode'' ''/plan [enter | exit | status]''
        (Some ''session/set_mode'') [''enter'', ''exit'', ''status''],
      command ''compact'' ''Summarise conversation history to free context'' ''/compact''
        (Some ''session/compact'') [],
      command ''session'' ''Manage sessions: list, resume, or delete'' ''/session [list | resume <id> | delete <id>]''
        (Some ''session/list'') [''list'', ''resume'', ''delete''],
      command ''cost'' ''Show token usage for the current session'' ''/cost'' (Some ''session/get_usage'') [],
      command ''memory'' ''View or manage long-term memories'' ''/memory [list | show <id> | delete <id>]'' None
        [''list'', ''show'', ''delete''],
      command ''cron'' ''Manage scheduled cron jobs'' ''/cron [list | delete <id> | pause <id> | resume <id>]'' None
        [''list'', ''delete'', ''pause'', ''resume''],
      command ''auth'' ''Manage stored credentials'' ''/auth set|get|list|delete|import-env ...''
        (Some ''secrets/auth'') [''set'', ''get'', ''list'', ''delete'', ''import-env'']]"

definition register_command :: "command_def \<Rightarrow> command_registry \<Rightarrow> command_registry result" where
  "register_command c r =
     (if map_of r (cd_name c) \<noteq> None then Inl ''Command already registered''
      else Inr (r @ [(cd_name c, c)]))"

definition lookup_command :: "string \<Rightarrow> command_registry \<Rightarrow> command_def option" where
  "lookup_command n r = map_of r n"

definition list_commands :: "command_registry \<Rightarrow> command_def list" where
  "list_commands r = map snd r"

fun register_builtins :: "command_def list \<Rightarrow> command_registry \<Rightarrow> command_registry result" where
  "register_builtins [] r = Inr r"
| "register_builtins (c # cs) r = bindR (register_command c r) (register_builtins cs)"

text \<open>A user-invocable skill: its name, description and argument hint.\<close>

type_synonym skill_entry = "string \<times> string \<times> string option"

fun register_skill_commands :: "skill_entry list \<Rightarrow> command_registry \<Rightarrow> command_registry result" where
  "register_skill_commands [] r = Inr r"
| "register_skill_commands ((name, desc, hint) # ss) r =
     (if lookup_command name r \<noteq> None then register_skill_commands ss r
      else bindR (register_command
                    (command name desc
                       (strip (''/'' @ name @ '' '' @ (case hint of Some h \<Rightarrow> h | None \<Rightarrow> []))) None []) r)
             (register_skill_commands ss))"

definition commands_startup :: "skill_entry list \<Rightarrow> command_registry result" where
  "commands_startup skills = bindR (register_builtins BUILTIN_COMMANDS []) (register_skill_commands skills)"

section \<open>Commands on a channel\<close>

text \<open>
  \<open>_execute_for_channel\<close>: the reply, or the exception. \<open>/plan enter\<close> sets the orchestrator only. The
  \<open>LLMManager\<close> has no \<open>_model_configs\<close>, so \<open>/model\<close> raises.
\<close>

definition first_word :: "string \<Rightarrow> string \<Rightarrow> string" where
  "first_word dflt args = (if args = [] then dflt else lower (hd (split_ws args)))"

definition put_plan_mode :: "bool \<Rightarrow> string \<Rightarrow> manager \<Rightarrow> manager" where
  "put_plan_mode on sid =
     on_session sid (\<lambda>st. st\<lparr>lg_session := (lg_session st)\<lparr>ss_orch_mode := (if on then ''plan'' else ''default'')\<rparr>\<rparr>)"

definition session_line :: "conversation_record \<Rightarrow> string" where
  "session_line r =
     ''  '' @ take 8 (cv_session_id r) @ [CHR 0x99] @ '' ''
     @ (case cv_title r of Some t \<Rightarrow> if t = [] then ''(untitled)'' else t | None \<Rightarrow> ''(untitled)'')"

definition not_in_gateway :: "string \<Rightarrow> string" where
  "not_in_gateway name = ''/'' @ name @ '' is not yet available in gateway context. Use the TUI or CLI.''"

definition execute_for_channel :: "string \<Rightarrow> string \<Rightarrow> string \<Rightarrow> manager \<Rightarrow> string result \<times> manager" where
  "execute_for_channel name args sid m =
     (if name = ''plan'' then
        (case get_or_raise sid m of
           Inl e \<Rightarrow> (Inl e, m)
         | Inr lv \<Rightarrow>
             (let sub = first_word ''status'' args in
              if sub = ''enter'' then (Inr ''Plan mode enabled.'', put_plan_mode True sid m)
              else if sub = ''exit'' then (Inr ''Plan mode disabled.'', put_plan_mode False sid m)
              else (Inr (''Plan mode is currently **''
                         @ (if ss_mode (lv_session lv) = Some ''plan'' then ''on'' else ''off'') @ ''**.''), m)))
      else if name = ''model'' then (Inl ''AttributeError'', m)
      else if name = ''session'' \<and> first_word ''list'' args = ''list'' then
        (let records = store_list_sessions False False (mg_store m) in
         (Inr (if records = [] then ''No sessions found.''
               else join [CHR 0x0A] (''**Sessions:**'' # map session_line (take 10 records))), m))
      else if name = ''auth'' then (Inr ''/auth is only available via local ACP connection.'', m)
      else (Inr (not_in_gateway name), m))"

definition partition_at :: "char \<Rightarrow> string \<Rightarrow> string \<times> string" where
  "partition_at c s = (takeWhile (\<lambda>x. x \<noteq> c) s, drop 1 (dropWhile (\<lambda>x. x \<noteq> c) s))"

definition dispatch_command :: "command_registry \<Rightarrow> string \<Rightarrow> string \<Rightarrow> manager \<Rightarrow> string result \<times> manager" where
  "dispatch_command r msg sid m =
     (let (n, args) = partition_at (CHR '' '') (drop 1 msg); name = lower (strip n) in
      if lookup_command name r = None then (Inr (''Unknown command: /'' @ name), m)
      else if name = ''help'' then
        (Inr (join [CHR 0x0A] (''**Available commands:**''
           # map (\<lambda>c. ''  '' @ cd_usage c @ '' '' @ [CHR 0x97] @ '' '' @ cd_description c) (list_commands r))), m)
      else execute_for_channel name (strip args) sid m)"

section \<open>Sending\<close>

text \<open>\<open>_chunk_text\<close>. A line longer than the limit (which is positive) is cut; the rest of it
  begins the next chunk.\<close>

function cut_line :: "nat \<Rightarrow> string \<Rightarrow> string list \<times> string" where
  "cut_line n line =
     (if n < length line \<and> 0 < n
      then (let (cs, rest) = cut_line n (drop n line) in (take n line # cs, rest)) else ([], line))"
  by auto
termination by (relation "measure (\<lambda>(n, line). length line)") auto

declare cut_line.simps [simp del]

fun chunk_lines :: "nat \<Rightarrow> string \<Rightarrow> string list \<Rightarrow> string list" where
  "chunk_lines n current [] = (if current = [] then [] else [current])"
| "chunk_lines n current (line # ls) =
     (if n < length current + length line
      then (let (cs, rest) = cut_line n line
            in (if current = [] then [] else [current]) @ cs @ chunk_lines n rest ls)
      else chunk_lines n (current @ line) ls)"

definition chunk_text :: "string \<Rightarrow> nat \<Rightarrow> string list" where
  "chunk_text txt n =
     (if length txt \<le> n then [txt]
      else (let cs = chunk_lines n [] (splitlines txt) in if cs = [] then [take n txt] else cs))"

definition MAX_MESSAGE_LEN :: nat where
  "MAX_MESSAGE_LEN = 2000"

text \<open>
  \<open>DiscordAdapter.send\<close>: the messages that were posted. \<open>post i c\<close>: the i-th request succeeds. A failure
  is logged and ends the sending; the caller is not told.
\<close>

fun post_chunks :: "(nat \<Rightarrow> string \<Rightarrow> bool) \<Rightarrow> nat \<Rightarrow> string list \<Rightarrow> string list" where
  "post_chunks post i [] = []"
| "post_chunks post i (c # cs) = (if post i c then c # post_chunks post (Suc i) cs else [])"

definition discord_send :: "(nat \<Rightarrow> string \<Rightarrow> bool) \<Rightarrow> string option \<Rightarrow> string \<Rightarrow> string list" where
  "discord_send post thread txt =
     (case thread of
        None \<Rightarrow> []
      | Some t \<Rightarrow> if t = [] then [] else post_chunks post 0 (chunk_text txt MAX_MESSAGE_LEN))"

text \<open>
  \<open>_on_discord_event\<close>: the message it hands to \<open>_handle\<close>, if any. Author, guild and channel are the texts
  the code makes of the payload's ids, empty where an id is missing.
\<close>

definition discord_event ::
    "string \<Rightarrow> string list \<Rightarrow> string \<Rightarrow> string \<Rightarrow> string \<Rightarrow> string \<Rightarrow> string \<Rightarrow> ((string \<times> string option) \<times> string) option" where
  "discord_event me allow_guilds name author guild channel_id content =
     (if name \<noteq> ''MESSAGE_CREATE'' then None
      else if author = me then None
      else if allow_guilds \<noteq> [] \<and> guild \<noteq> [] \<and> guild \<notin> set allow_guilds then None
      else Some ((author, if channel_id = [] then None else Some channel_id), content))"

section \<open>Channels and their sessions\<close>

type_synonym channel = "string \<times> string option"

text \<open>\<open>_persist_peer_sessions\<close> and \<open>_load_peer_sessions\<close>: the keys of the JSON object.\<close>

definition channel_key :: "channel \<Rightarrow> string" where
  "channel_key c = (case snd c of Some t \<Rightarrow> fst c @ ''|'' @ t | None \<Rightarrow> fst c)"

definition key_channel :: "string \<Rightarrow> channel" where
  "key_channel k =
     (let (peer, rest) = partition_at (CHR ''|'') k
      in (peer, if CHR ''|'' \<in> set k then Some rest else None))"

definition persist_peers :: "(channel \<times> string) list \<Rightarrow> (string \<times> string) list" where
  "persist_peers peers = fold (\<lambda>(c, sid). AList.update (channel_key c) sid) peers []"

definition load_peers :: "(string \<times> string) list \<Rightarrow> (channel \<times> string) list" where
  "load_peers raw = fold (\<lambda>(k, v). AList.update (key_channel k) v) raw []"

text \<open>
  An adapter at work. \<open>_handle\<close> runs as a task per message; the lock of its channel is held while a
  session is created. \<open>gb_pending\<close> has the future (by number) that waits for the channel's next
  message; the callback of a finished or cancelled request removes whatever is there.
\<close>

datatype gw_stage = G_Waiting | G_Creating | G_Running string

record gw_task =
  gt_id :: nat
  gt_channel :: channel
  gt_stage :: gw_stage

record gw_box =
  gb_peers :: "(channel \<times> string) list"
  gb_file :: "(string \<times> string) list"
  gb_tasks :: "gw_task list"
  gb_seen :: "nat list"
  gb_lost :: "nat list"
  gb_made :: "(channel \<times> string) list"
  gb_pending :: "(channel \<times> nat) list"
  gb_asked :: "channel list"
  gb_answers :: "(nat \<times> answer) list"
  gb_ended :: "nat list"

definition YES_WORDS :: "string list" where
  "YES_WORDS = [''yes'', ''y'', ''ok'', ''allow'', ''approve'']"

definition reply_answer :: "string \<Rightarrow> answer" where
  "reply_answer msg = (if lower (strip msg) \<in> set YES_WORDS then Answer_Allow_Once else Answer_Reject)"

definition started_adapter :: "(string \<times> string) list \<Rightarrow> gw_box" where
  "started_adapter file =
     \<lparr>gb_peers = load_peers file, gb_file = file, gb_tasks = [], gb_seen = [], gb_lost = [], gb_made = [],
      gb_pending = [], gb_asked = [], gb_answers = [], gb_ended = []\<rparr>"

datatype gw_move =
  Message nat channel string
| Locked nat
| Made nat string bool
| Make_Fails nat
| Handled nat
| Asks channel
| Ask_Ends nat
| Stop_Adapter

definition gw_task_of :: "nat \<Rightarrow> gw_box \<Rightarrow> gw_task option" where
  "gw_task_of i b = find (\<lambda>k. gt_id k = i) (gb_tasks b)"

definition gw_move_task :: "nat \<Rightarrow> gw_stage \<Rightarrow> gw_box \<Rightarrow> gw_box" where
  "gw_move_task i s b = b\<lparr>gb_tasks := map (\<lambda>k. if gt_id k = i then k\<lparr>gt_stage := s\<rparr> else k) (gb_tasks b)\<rparr>"

definition gw_drop_task :: "nat \<Rightarrow> gw_box \<Rightarrow> gw_box" where
  "gw_drop_task i b = b\<lparr>gb_tasks := filter (\<lambda>k. gt_id k \<noteq> i) (gb_tasks b)\<rparr>"

text \<open>The first part of \<open>_handle\<close>: a waiting permission request takes the message.\<close>

definition receive :: "nat \<Rightarrow> channel \<Rightarrow> string \<Rightarrow> gw_box \<Rightarrow> gw_box" where
  "receive i c msg b0 =
     (let b = b0\<lparr>gb_seen := gb_seen b0 @ [i]\<rparr> in
      case map_of (gb_pending b) c of
        Some n \<Rightarrow> b\<lparr>gb_pending := AList.delete c (gb_pending b), gb_answers := gb_answers b @ [(n, reply_answer msg)]\<rparr>
      | None \<Rightarrow> b\<lparr>gb_tasks := gb_tasks b @ [\<lparr>gt_id = i, gt_channel = c, gt_stage = G_Waiting\<rparr>]\<rparr>)"

definition lock_free :: "channel \<Rightarrow> gw_box \<Rightarrow> bool" where
  "lock_free c b \<longleftrightarrow> (\<forall>k \<in> set (gb_tasks b). gt_channel k = c \<longrightarrow> gt_stage k \<noteq> G_Creating)"

text \<open>With the lock: a known session is used at once, otherwise one is made.\<close>

definition lock_taken :: "gw_task \<Rightarrow> gw_box \<Rightarrow> gw_box" where
  "lock_taken k b =
     gw_move_task (gt_id k)
       (case map_of (gb_peers b) (gt_channel k) of Some sid \<Rightarrow> G_Running sid | None \<Rightarrow> G_Creating) b"

text \<open>The session is there; if the mapping cannot be written the exception ends the task.\<close>

definition session_made :: "gw_task \<Rightarrow> string \<Rightarrow> bool \<Rightarrow> gw_box \<Rightarrow> gw_box" where
  "session_made k sid written b0 =
     (let b = b0\<lparr>gb_peers := AList.update (gt_channel k) sid (gb_peers b0), gb_made := gb_made b0 @ [(gt_channel k, sid)]\<rparr>
      in if written then gw_move_task (gt_id k) (G_Running sid) (b\<lparr>gb_file := persist_peers (gb_peers b)\<rparr>)
         else (gw_drop_task (gt_id k) b)\<lparr>gb_lost := gb_lost b @ [gt_id k]\<rparr>)"

definition ask_channel :: "channel \<Rightarrow> gw_box \<Rightarrow> gw_box" where
  "ask_channel c b =
     b\<lparr>gb_pending := AList.update c (length (gb_asked b)) (gb_pending b), gb_asked := gb_asked b @ [c]\<rparr>"

definition ask_ends :: "nat \<Rightarrow> gw_box \<Rightarrow> gw_box" where
  "ask_ends n b = b\<lparr>gb_pending := AList.delete (gb_asked b ! n) (gb_pending b), gb_ended := gb_ended b @ [n]\<rparr>"

definition stop_adapter :: "gw_box \<Rightarrow> gw_box" where
  "stop_adapter b =
     b\<lparr>gb_answers := gb_answers b @ map (\<lambda>(c, n). (n, Answer_Reject)) (gb_pending b), gb_pending := []\<rparr>"

text \<open>
  \<open>Ask_Ends n\<close>: the callback of request n returns its answer, or is cancelled. \<open>None\<close>: not possible.
\<close>

definition gw_step :: "gw_move \<Rightarrow> gw_box \<Rightarrow> gw_box option" where
  "gw_step s b =
     (case s of
        Message i c msg \<Rightarrow> if i \<in> set (gb_seen b) then None else Some (receive i c msg b)
      | Locked i \<Rightarrow>
          (case gw_task_of i b of
             Some k \<Rightarrow> if gt_stage k = G_Waiting \<and> lock_free (gt_channel k) b then Some (lock_taken k b) else None
           | None \<Rightarrow> None)
      | Made i sid written \<Rightarrow>
          (case gw_task_of i b of
             Some k \<Rightarrow> if gt_stage k = G_Creating then Some (session_made k sid written b) else None
           | None \<Rightarrow> None)
      | Make_Fails i \<Rightarrow>
          (case gw_task_of i b of
             Some k \<Rightarrow> if gt_stage k = G_Creating
                       then Some ((gw_drop_task i b)\<lparr>gb_lost := gb_lost b @ [i]\<rparr>) else None
           | None \<Rightarrow> None)
      | Handled i \<Rightarrow>
          (case gw_task_of i b of
             Some k \<Rightarrow> (case gt_stage k of G_Running sid \<Rightarrow> Some (gw_drop_task i b) | _ \<Rightarrow> None)
           | None \<Rightarrow> None)
      | Asks c \<Rightarrow> Some (ask_channel c b)
      | Ask_Ends n \<Rightarrow> if n < length (gb_asked b) \<and> n \<notin> set (gb_ended b) then Some (ask_ends n b) else None
      | Stop_Adapter \<Rightarrow> Some (stop_adapter b))"

fun gw_run :: "gw_move list \<Rightarrow> gw_box \<Rightarrow> gw_box option" where
  "gw_run [] b = Some b"
| "gw_run (s # ss) b = (case gw_step s b of None \<Rightarrow> None | Some b' \<Rightarrow> gw_run ss b')"

lemma gw_run_keeps:
  assumes "\<And>s b b'. I b \<Longrightarrow> gw_step s b = Some b' \<Longrightarrow> I b'"
  shows "gw_run ss b = Some b' \<Longrightarrow> I b \<Longrightarrow> I b'"
  by (induction ss arbitrary: b) (auto split: option.splits intro: assms)

section \<open>Running a message\<close>

text \<open>
  The last part of \<open>_handle\<close> without the wait: a command is answered; any other text is enqueued as a
  turn, whose reply is sent when it comes. An exception is answered with a fixed text.
\<close>

definition error_reply :: string where
  "error_reply = ''An error occurred. Please try again.''"

definition handle_text ::
    "manager_env \<Rightarrow> command_registry \<Rightarrow> turn \<Rightarrow> string \<Rightarrow> string \<Rightarrow> manager \<Rightarrow> string option \<times> manager" where
  "handle_text env r t sid msg m =
     (if prefix ''/'' msg then
        (let (reply, m') = dispatch_command r msg sid m
         in (Some (case reply of Inl _ \<Rightarrow> error_reply | Inr txt \<Rightarrow> txt), m'))
      else (case run_turn_for_gateway env sid t m of
              (Inl _, m') \<Rightarrow> (Some error_reply, m') | (Inr _, m') \<Rightarrow> (None, m')))"

definition turn_reply :: "string result \<Rightarrow> string option" where
  "turn_reply r = (case r of Inl _ \<Rightarrow> Some error_reply | Inr txt \<Rightarrow> if txt = [] then None else Some txt)"

section \<open>The manager of the adapters\<close>

text \<open>
  The running adapters are Discord's. \<open>startup\<close> takes the entries in order with their type; \<open>works\<close> is
  whether the construction and start of an entry's adapter succeed.
\<close>

definition gateway_startup :: "(string \<Rightarrow> bool) \<Rightarrow> (string \<times> string) list \<Rightarrow> string list" where
  "gateway_startup works entries =
     map fst (filter (\<lambda>(i, ty). ty = ''discord'' \<and> works i) entries)"

definition no_adapter :: "string \<Rightarrow> string" where
  "no_adapter a = py_repr (''No running gateway adapter: '' @ py_repr a)"

definition send_to_channel ::
    "(nat \<Rightarrow> string \<Rightarrow> bool) \<Rightarrow> string list \<Rightarrow> string \<Rightarrow> string \<Rightarrow> string \<Rightarrow> string list result" where
  "send_to_channel post adapters adapter ch txt =
     (if adapter \<notin> set adapters then Inl (no_adapter adapter)
      else Inr (discord_send post (Some ch) txt))"

end
