(* ===== verification/Gateway_Properties.thy ===== *)
theory Gateway_Properties
  imports Gateways
begin

text \<open>
  Replies cut into messages, the mapping of channels to sessions and its file, and permission requests
  on a channel.
\<close>

section \<open>Messages\<close>

lemma cut_line_ok:
  assumes "0 < n" "cut_line n line = (cs, rest)"
  shows "concat cs @ rest = line \<and> length rest \<le> n \<and> (line \<noteq> [] \<longrightarrow> rest \<noteq> []) \<and>
    (\<forall>c \<in> set cs. c \<noteq> [] \<and> length c \<le> n)"
  using assms
proof (induction n line arbitrary: cs rest rule: cut_line.induct)
  case (1 n line)
  show ?case
  proof (cases "n < length line")
    case True
    then obtain cs' where r: "cut_line n (drop n line) = (cs', rest)" "cs = take n line # cs'"
      using 1(2,3) by (simp add: cut_line.simps [of n line] split: prod.splits)
    have "drop n line \<noteq> []" "take n line \<noteq> []" using True 1(2) by auto
    with 1(1) [OF _ 1(2) r(1)] True 1(2) r(2) show ?thesis
      by simp
  next
    case False
    then show ?thesis using 1(3) by (simp add: cut_line.simps [of n line])
  qed
qed

lemma chunk_lines_ok:
  assumes "0 < n" "length current \<le> n"
  shows "concat (chunk_lines n current ls) = current @ concat ls \<and>
    (\<forall>c \<in> set (chunk_lines n current ls). c \<noteq> [] \<and> length c \<le> n)"
  using assms(2)
proof (induction ls arbitrary: current)
  case (Cons l ls)
  show ?case
  proof (cases "n < length current + length l")
    case True
    obtain cs rest where r: "cut_line n l = (cs, rest)" by (rule prod.exhaust)
    note c = cut_line_ok [OF assms(1) r]
    have "concat (chunk_lines n rest ls) = rest @ concat ls \<and>
        (\<forall>c \<in> set (chunk_lines n rest ls). c \<noteq> [] \<and> length c \<le> n)"
      using c by (intro Cons.IH) simp
    moreover have "concat cs @ rest @ concat ls = l @ concat ls" using c by (simp flip: append_assoc)
    ultimately show ?thesis using True r c Cons.prems by auto
  next
    case False
    then show ?thesis using Cons.IH [of "current @ l"] by simp
  qed
qed simp

text \<open>
  C22: A reply is sent whole and within the platform's limit: the messages it is cut into are at most the
  limit long, none of them is empty unless the reply is, and together they are the reply.
\<close>

theorem chunks_exact:
  assumes "0 < n"
  shows "concat (chunk_text msg n) = msg
    \<and> (\<forall>c \<in> set (chunk_text msg n). length c \<le> n \<and> (c = [] \<longrightarrow> msg = []))"
proof (cases "length msg \<le> n")
  case False
  note c = chunk_lines_ok [OF assms, of "[]" "splitlines msg"]
  have "chunk_lines n [] (splitlines msg) \<noteq> []"
    using c False by (cases "chunk_lines n [] (splitlines msg)") (auto simp: concat_splitlines)
  with c False show ?thesis by (auto simp: chunk_text_def concat_splitlines)
qed (simp add: chunk_text_def)

theorem chunks_exact_witness:
  "chunk_text (''abc'' @ [CHR 0x0A] @ ''defghijk'') 5 = [''abc'' @ [CHR 0x0A], ''defgh'', ''ijk''] \<and>
   concat [''abc'' @ [CHR 0x0A], ''defgh'', ''ijk''] = ''abc'' @ [CHR 0x0A] @ ''defghijk''"
proof -
  have "chunk_text (''abc'' @ [CHR 0x0A] @ ''defghijk'') 5 = [''abc'' @ [CHR 0x0A], ''defgh'', ''ijk'']"
    by (simp add: chunk_text_def cut_line.simps line_break_def numeral_eq_Suc)
  with chunks_exact [of 5 "''abc'' @ [CHR 0x0A] @ ''defghijk''"] show ?thesis by simp
qed

text \<open>The adapter never answers itself; a direct message passes whatever guilds are allowed.\<close>

lemma own_message_ignored: "discord_event me gs name me g c msg = None"
  by (simp add: discord_event_def)

lemma direct_message_passes:
  "author \<noteq> me \<Longrightarrow> discord_event me gs ''MESSAGE_CREATE'' author [] ''d'' msg = Some ((author, Some ''d''), msg)"
  by (simp add: discord_event_def)

section \<open>Channels in the file\<close>

lemma partition_at_append: "c \<notin> set xs \<Longrightarrow> partition_at c (xs @ c # ys) = (xs, ys)"
  by (induction xs) (auto simp: partition_at_def)

lemma partition_at_none: "c \<notin> set xs \<Longrightarrow> partition_at c xs = (xs, [])"
  by (induction xs) (auto simp: partition_at_def)

lemma key_channel_key: "CHR ''|'' \<notin> set (fst c) \<Longrightarrow> key_channel (channel_key c) = c"
  by (cases c) (auto simp: key_channel_def channel_key_def partition_at_append partition_at_none split: option.split)

lemma fold_update_fresh:
  "distinct (map (f \<circ> fst) al @ map fst acc) \<Longrightarrow>
     fold (\<lambda>(k, v). AList.update (f k) v) al acc = acc @ map (\<lambda>(k, v). (f k, v)) al"
proof (induction al arbitrary: acc)
  case (Cons kv al)
  obtain k v where kv: "kv = (k, v)" by (rule prod.exhaust)
  have "f k \<notin> fst ` set acc" using Cons.prems kv by auto
  with Cons.IH [of "acc @ [(f k, v)]"] Cons.prems kv show ?case by (auto simp: update_fresh map_of_eq_None_iff)
qed simp

text \<open>
  Conversations survive a restart: the file an adapter writes is read back to the same mapping of
  channels to sessions, as long as no user id of the platform contains the separator.
\<close>

lemma peers_roundtrip:
  assumes "distinct (map fst peers)" "\<forall>c \<in> fst ` set peers. CHR ''|'' \<notin> set (fst c)"
  shows "load_peers (persist_peers peers) = peers"
proof -
  have inj: "inj_on channel_key (fst ` set peers)"
    by (rule inj_on_inverseI [of _ key_channel]) (use assms(2) in \<open>metis key_channel_key\<close>)
  have "distinct (map (channel_key \<circ> fst) peers)"
    using inj assms(1) by (simp flip: map_map add: distinct_map)
  then have p: "persist_peers peers = map (\<lambda>(c, sid). (channel_key c, sid)) peers"
    using fold_update_fresh [of channel_key peers "[]"] by (simp add: persist_peers_def)
  have ks: "map (\<lambda>kv. key_channel (fst kv)) (persist_peers peers) = map fst peers"
    unfolding p using assms(2) by (auto simp: key_channel_key)
  then have "load_peers (persist_peers peers) = map (\<lambda>(k, v). (key_channel k, v)) (persist_peers peers)"
    using fold_update_fresh [of key_channel "persist_peers peers" "[]"] assms(1) by (simp add: load_peers_def comp_def)
  also have "\<dots> = peers"
    unfolding p using assms(2) by (auto simp: key_channel_key intro!: map_idI)
  finally show ?thesis .
qed

lemma peers_roundtrip_witness:
  "load_peers (persist_peers [((''u1'', Some ''c|d''), ''s1''), ((''u1'', None), ''s2'')]) =
     [((''u1'', Some ''c|d''), ''s1''), ((''u1'', None), ''s2'')]"
  by (rule peers_roundtrip) simp_all

text \<open>With a separator in a user id the message of one channel goes to the session of another.\<close>

lemma separator_confuses:
  "load_peers (persist_peers [((''a|b'', None), ''s1''), ((''a'', Some ''b''), ''s2'')]) = [((''a'', Some ''b''), ''s2'')]"
  by (simp add: load_peers_def persist_peers_def channel_key_def key_channel_def partition_at_def)

section \<open>One session per channel\<close>

lemma gw_task_ofD: "gw_task_of i b = Some k \<Longrightarrow> k \<in> set (gb_tasks b) \<and> gt_id k = i"
  by (auto simp: gw_task_of_def find_Some_iff)

definition channels_ok :: "(string \<times> string) list \<Rightarrow> gw_box \<Rightarrow> bool" where
  "channels_ok fl b \<longleftrightarrow>
     distinct (map gt_id (gb_tasks b)) \<and> gt_id ` set (gb_tasks b) \<subseteq> set (gb_seen b)
     \<and> distinct (map fst (gb_made b))
     \<and> map_of (gb_peers b) = map_of (load_peers fl) ++ map_of (gb_made b)
     \<and> (\<forall>c \<in> fst ` set (gb_made b). map_of (load_peers fl) c = None)
     \<and> (\<forall>k \<in> set (gb_tasks b). \<forall>sid. gt_stage k = G_Running sid \<longrightarrow> map_of (gb_peers b) (gt_channel k) = Some sid)
     \<and> (\<forall>k \<in> set (gb_tasks b). gt_stage k = G_Creating \<longrightarrow> map_of (gb_peers b) (gt_channel k) = None)
     \<and> (\<forall>k \<in> set (gb_tasks b). \<forall>k' \<in> set (gb_tasks b). gt_stage k = G_Creating \<longrightarrow> gt_stage k' = G_Creating
          \<longrightarrow> gt_channel k = gt_channel k' \<longrightarrow> k = k')"

lemma map_add_last: "c \<notin> fst ` set xs \<Longrightarrow> map_of (xs @ [(c, v)]) = (map_of xs)(c \<mapsto> v)"
  by (induction xs) (auto simp: fun_eq_iff)

lemma drop_ok: "channels_ok fl b \<Longrightarrow> channels_ok fl (gw_drop_task i b)"
  by (auto simp: channels_ok_def gw_drop_task_def distinct_map_filter)

lemma channels_ok_parts:
  assumes "channels_ok fl b"
  shows "distinct (map gt_id (gb_tasks b))" "gt_id ` set (gb_tasks b) \<subseteq> set (gb_seen b)"
    "distinct (map fst (gb_made b))" "map_of (gb_peers b) = map_of (load_peers fl) ++ map_of (gb_made b)"
    "\<forall>c \<in> fst ` set (gb_made b). map_of (load_peers fl) c = None"
    "\<forall>k \<in> set (gb_tasks b). \<forall>sid. gt_stage k = G_Running sid \<longrightarrow> map_of (gb_peers b) (gt_channel k) = Some sid"
    "\<forall>k \<in> set (gb_tasks b). gt_stage k = G_Creating \<longrightarrow> map_of (gb_peers b) (gt_channel k) = None"
    "\<forall>k \<in> set (gb_tasks b). \<forall>k' \<in> set (gb_tasks b). gt_stage k = G_Creating \<longrightarrow> gt_stage k' = G_Creating
       \<longrightarrow> gt_channel k = gt_channel k' \<longrightarrow> k = k'"
  using assms unfolding channels_ok_def by - (elim conjE, assumption)+

lemma channels_okD:
  assumes ok: "channels_ok fl b"
  shows "c \<in> fst ` set (gb_made b) \<Longrightarrow> map_of (load_peers fl) c = None"
    and "k \<in> set (gb_tasks b) \<Longrightarrow> gt_stage k = G_Running sid \<Longrightarrow> map_of (gb_peers b) (gt_channel k) = Some sid"
    and "k \<in> set (gb_tasks b) \<Longrightarrow> gt_stage k = G_Creating \<Longrightarrow> map_of (gb_peers b) (gt_channel k) = None"
    and "k \<in> set (gb_tasks b) \<Longrightarrow> k' \<in> set (gb_tasks b) \<Longrightarrow> gt_stage k = G_Creating \<Longrightarrow> gt_stage k' = G_Creating
       \<Longrightarrow> gt_channel k = gt_channel k' \<Longrightarrow> k = k'"
  using channels_ok_parts(5) [OF ok] channels_ok_parts(6) [OF ok] channels_ok_parts(7) [OF ok]
    channels_ok_parts(8) [OF ok] by - (meson | simp)+

lemma channels_ok_cong:
  "gb_tasks b' = gb_tasks b \<Longrightarrow> gb_seen b' = gb_seen b \<Longrightarrow> gb_made b' = gb_made b \<Longrightarrow> gb_peers b' = gb_peers b
     \<Longrightarrow> channels_ok fl b' = channels_ok fl b"
  by (simp only: channels_ok_def)

lemma same_task:
  "distinct (map gt_id ts) \<Longrightarrow> k \<in> set ts \<Longrightarrow> k' \<in> set ts \<Longrightarrow> gt_id k = gt_id k' \<Longrightarrow> k = k'"
  by (metis distinct_map inj_onD)

lemma receive_ok: "channels_ok fl b \<Longrightarrow> i \<notin> set (gb_seen b) \<Longrightarrow> channels_ok fl (receive i c msg b)"
  by (auto simp: channels_ok_def receive_def Let_def split: option.split)

lemma moved_tasks:
  assumes "channels_ok fl b" "k \<in> set (gb_tasks b)"
  shows "set (gb_tasks (gw_move_task (gt_id k) s b)) = insert (k\<lparr>gt_stage := s\<rparr>) (set (gb_tasks b) - {k})"
    "set (gb_tasks (gw_drop_task (gt_id k) b)) = set (gb_tasks b) - {k}"
proof -
  have id: "gt_id k' = gt_id k \<longleftrightarrow> k' = k" if "k' \<in> set (gb_tasks b)" for k'
    using same_task [OF channels_ok_parts(1) [OF assms(1)] that assms(2)] by blast
  have "gb_tasks (gw_move_task (gt_id k) s b) = map (\<lambda>k'. if k' = k then k\<lparr>gt_stage := s\<rparr> else k') (gb_tasks b)"
    by (simp add: gw_move_task_def id cong: map_cong)
  then show "set (gb_tasks (gw_move_task (gt_id k) s b)) = insert (k\<lparr>gt_stage := s\<rparr>) (set (gb_tasks b) - {k})"
    using assms(2) by (auto simp: image_iff)
  have "gb_tasks (gw_drop_task (gt_id k) b) = filter (\<lambda>k'. k' \<noteq> k) (gb_tasks b)"
    by (simp add: gw_drop_task_def id cong: filter_cong)
  then show "set (gb_tasks (gw_drop_task (gt_id k) b)) = set (gb_tasks b) - {k}" by auto
qed

lemma task_changes [simp]:
  "map gt_id (gb_tasks (gw_move_task i s b)) = map gt_id (gb_tasks b)"
  "gb_peers (gw_move_task i s b) = gb_peers b" "gb_made (gw_move_task i s b) = gb_made b"
  "gb_seen (gw_move_task i s b) = gb_seen b"
  "gb_peers (gw_drop_task i b) = gb_peers b" "gb_made (gw_drop_task i b) = gb_made b"
  "gb_seen (gw_drop_task i b) = gb_seen b"
  "gw_move_task i s (b\<lparr>gb_file := f\<rparr>) = (gw_move_task i s b)\<lparr>gb_file := f\<rparr>"
  "gw_move_task i s (b\<lparr>gb_peers := p, gb_made := m\<rparr>) = (gw_move_task i s b)\<lparr>gb_peers := p, gb_made := m\<rparr>"
  "gw_drop_task i (b\<lparr>gb_peers := p, gb_made := m\<rparr>) = (gw_drop_task i b)\<lparr>gb_peers := p, gb_made := m\<rparr>"
  by (simp_all add: gw_move_task_def gw_drop_task_def)

lemma locked_ok:
  assumes ok: "channels_ok fl b" and k: "k \<in> set (gb_tasks b)" "lock_free (gt_channel k) b"
  shows "channels_ok fl (lock_taken k b)"
proof -
  define st where "st = (case map_of (gb_peers b) (gt_channel k) of Some sid \<Rightarrow> G_Running sid | None \<Rightarrow> G_Creating)"
  have st: "st = G_Running sid \<longleftrightarrow> map_of (gb_peers b) (gt_channel k) = Some sid"
      "st = G_Creating \<longleftrightarrow> map_of (gb_peers b) (gt_channel k) = None" for sid
    by (auto simp: st_def split: option.split)
  have free: "gt_channel k' \<noteq> gt_channel k" if "k' \<in> set (gb_tasks b)" "gt_stage k' = G_Creating" for k'
    using k(2) that by (auto simp: lock_free_def)
  have all: "set (gb_tasks (lock_taken k b)) = insert (k\<lparr>gt_stage := st\<rparr>) (set (gb_tasks b) - {k})"
    unfolding lock_taken_def st_def by (rule moved_tasks [OF ok k(1)])
  show ?thesis
    unfolding channels_ok_def all
  proof (intro conjI ballI allI impI)
    fix k1 k2
    assume "k1 \<in> insert (k\<lparr>gt_stage := st\<rparr>) (set (gb_tasks b) - {k})"
      "k2 \<in> insert (k\<lparr>gt_stage := st\<rparr>) (set (gb_tasks b) - {k})"
      "gt_stage k1 = G_Creating" "gt_stage k2 = G_Creating" "gt_channel k1 = gt_channel k2"
    then show "k1 = k2" using free channels_okD(4) [OF ok] by (elim insertE DiffE) (simp_all, metis+)
  qed (use channels_ok_parts [OF ok] k(1) st in \<open>auto simp: lock_taken_def\<close>)
qed

lemma made_ok:
  assumes ok: "channels_ok fl b" and k: "k \<in> set (gb_tasks b)" "gt_stage k = G_Creating"
  shows "channels_ok fl (session_made k sid written b)"
proof -
  note new = channels_okD(3) [OF ok k]
  have made: "gt_channel k \<notin> fst ` set (gb_made b)" "map_of (load_peers fl) (gt_channel k) = None"
    using new unfolding channels_ok_parts(4) [OF ok] by (simp_all add: map_of_eq_None_iff)
  let ?p = "AList.update (gt_channel k) sid (gb_peers b)"
  let ?m = "gb_made b @ [(gt_channel k, sid)]"
  have maps: "map_of ?p = map_of (load_peers fl) ++ map_of ?m"
    using made(1) by (simp add: update_conv' channels_ok_parts(4) [OF ok] map_add_last del: map_of_append)
  have others: "gt_stage k' = G_Running s' \<Longrightarrow> map_of ?p (gt_channel k') = Some s'"
      "gt_stage k' = G_Creating \<Longrightarrow> map_of ?p (gt_channel k') = None"
    if "k' \<in> set (gb_tasks b) - {k}" for k' s'
    using channels_okD(2,3) [OF ok, of k'] channels_okD(4) [OF ok, of k k'] that new k by (auto simp: update_conv')
  define st where "st = G_Running sid"
  define b' where "b' = session_made k sid written b"
  have tasks: "set (gb_tasks b') \<subseteq> insert (k\<lparr>gt_stage := st\<rparr>) (set (gb_tasks b) - {k})"
    using moved_tasks [OF ok k(1)] by (auto simp: b'_def session_made_def Let_def st_def)
  have rest: "gb_peers b' = ?p" "gb_made b' = ?m" "gb_seen b' = gb_seen b" "distinct (map gt_id (gb_tasks b'))"
    using channels_ok_parts(1) [OF ok]
    by (simp_all add: b'_def session_made_def Let_def) (simp add: gw_drop_task_def distinct_map_filter)
  have creating: "k' \<in> set (gb_tasks b) - {k}" if "k' \<in> set (gb_tasks b')" "gt_stage k' = G_Creating" for k'
  proof -
    have "k' = k\<lparr>gt_stage := st\<rparr> \<or> k' \<in> set (gb_tasks b) - {k}" using that(1) tasks by blast
    then show ?thesis using that(2) by (elim disjE) (simp_all add: st_def)
  qed
  show ?thesis
    unfolding channels_ok_def b'_def [symmetric] rest maps [symmetric]
  proof (intro conjI ballI allI impI)
    show "gt_id ` set (gb_tasks b') \<subseteq> set (gb_seen b)" using tasks channels_ok_parts(2) [OF ok] k(1) by fastforce
    show "distinct (map fst ?m)" using channels_ok_parts(3) [OF ok] made(1) by auto
    fix c assume "c \<in> fst ` set ?m"
    then show "map_of (load_peers fl) c = None" using channels_okD(1) [OF ok, of c] made(2) by auto
  next
    fix k' s' assume k': "k' \<in> set (gb_tasks b')" "gt_stage k' = G_Running s'"
    then consider "k' = k\<lparr>gt_stage := st\<rparr>" | "k' \<in> set (gb_tasks b) - {k}" using tasks by blast
    then show "map_of ?p (gt_channel k') = Some s'"
      by cases (use k'(2) in \<open>simp add: st_def update_conv'\<close>, rule others(1) [OF _ k'(2)])
  next
    fix k' assume "k' \<in> set (gb_tasks b')" "gt_stage k' = G_Creating"
    then show "map_of ?p (gt_channel k') = None" using creating others(2) by blast
  next
    fix k1 k2
    assume "k1 \<in> set (gb_tasks b')" "k2 \<in> set (gb_tasks b')" "gt_stage k1 = G_Creating" "gt_stage k2 = G_Creating"
      and "gt_channel k1 = gt_channel k2"
    then show "k1 = k2" using creating channels_okD(4) [OF ok, of k1 k2] by blast
  qed (rule rest(4) refl)+
qed

lemma channels_step:
  assumes ok: "channels_ok fl b" and step: "gw_step s b = Some b'"
  shows "channels_ok fl b'"
proof (cases s)
  case (Message i c msg)
  then show ?thesis using assms by (auto simp: gw_step_def receive_ok split: if_splits)
next
  case (Locked i)
  with step obtain k where "gw_task_of i b = Some k" "lock_free (gt_channel k) b" "b' = lock_taken k b"
    by (auto simp: gw_step_def split: option.splits if_splits)
  then show ?thesis using locked_ok [OF ok] gw_task_ofD by simp
next
  case (Made i sid w)
  with step obtain k where "gw_task_of i b = Some k" "gt_stage k = G_Creating" "b' = session_made k sid w b"
    by (auto simp: gw_step_def split: option.splits if_splits)
  then show ?thesis using made_ok [OF ok] gw_task_ofD by simp
next
  case (Make_Fails i)
  with step have b': "b' = (gw_drop_task i b)\<lparr>gb_lost := gb_lost b @ [i]\<rparr>"
    by (auto simp: gw_step_def split: option.splits if_splits)
  have "channels_ok fl b' = channels_ok fl (gw_drop_task i b)" unfolding b' by (rule channels_ok_cong) simp_all
  then show ?thesis using drop_ok [OF ok] by simp
next
  case (Handled i)
  with step have "b' = gw_drop_task i b" by (auto simp: gw_step_def split: option.splits gw_stage.splits)
  then show ?thesis using drop_ok [OF ok] by simp
next
  case (Asks c)
  with step have b': "b' = ask_channel c b" by (simp add: gw_step_def)
  have "channels_ok fl b' = channels_ok fl b" unfolding b' by (rule channels_ok_cong) (simp_all add: ask_channel_def)
  then show ?thesis using ok by simp
next
  case (Ask_Ends n)
  with step have b': "b' = ask_ends n b" by (simp add: gw_step_def split: if_splits)
  have "channels_ok fl b' = channels_ok fl b" unfolding b' by (rule channels_ok_cong) (simp_all add: ask_ends_def)
  then show ?thesis using ok by simp
next
  case Stop_Adapter
  with step have b': "b' = stop_adapter b" by (simp add: gw_step_def)
  have "channels_ok fl b' = channels_ok fl b" unfolding b' by (rule channels_ok_cong) (simp_all add: stop_adapter_def)
  then show ?thesis using ok by simp
qed

lemma started_ok: "channels_ok file (started_adapter file)"
  by (simp add: channels_ok_def started_adapter_def)

text \<open>
  C20: A channel is one conversation: however the tasks of an adapter interleave, no channel gets two
  sessions made for it, one that has a session in the file gets none, and every message runs in its
  channel's session.
\<close>

theorem one_session_per_channel:
  assumes "gw_run ss (started_adapter file) = Some b"
  shows "distinct (map fst (gb_made b))
    \<and> (\<forall>c \<in> fst ` set (gb_made b). map_of (load_peers file) c = None)
    \<and> (\<forall>k \<in> set (gb_tasks b). \<forall>sid. gt_stage k = G_Running sid \<longrightarrow>
         (map_of (load_peers file) ++ map_of (gb_made b)) (gt_channel k) = Some sid)"
proof -
  have ok: "channels_ok file b"
    using gw_run_keeps [where I = "channels_ok file", OF _ assms started_ok] channels_step by blast
  from channels_ok_parts(3,5,6) [OF ok] show ?thesis unfolding channels_ok_parts(4) [OF ok] by (intro conjI)
qed

text \<open>Two messages of a new channel at once: the second waits for the lock and finds the session.\<close>

theorem one_session_per_channel_witness:
  "\<exists>b. gw_run [Message 1 (''u'', Some ''c'') ''hi'', Message 2 (''u'', Some ''c'') ''there'', Locked 1, Made 1 ''s1'' True, Locked 2]
     (started_adapter [(''v'', ''s0'')]) = Some b \<and> distinct (map fst (gb_made b)) \<and> gb_made b = [((''u'', Some ''c''), ''s1'')]
     \<and> map gt_stage (gb_tasks b) = [G_Running ''s1'', G_Running ''s1'']"
proof -
  let ?ss = "[Message 1 (''u'', Some ''c'') ''hi'', Message 2 (''u'', Some ''c'') ''there'', Locked 1, Made 1 ''s1'' True, Locked 2]"
  have run: "map_option (\<lambda>b. (gb_made b, map gt_stage (gb_tasks b))) (gw_run ?ss (started_adapter [(''v'', ''s0'')])) =
      Some ([((''u'', Some ''c''), ''s1'')], [G_Running ''s1'', G_Running ''s1''])"
    by code_simp
  then obtain b where b: "gw_run ?ss (started_adapter [(''v'', ''s0'')]) = Some b"
      "(gb_made b, map gt_stage (gb_tasks b)) = ([((''u'', Some ''c''), ''s1'')], [G_Running ''s1'', G_Running ''s1''])"
    by (auto simp del: gw_run.simps)
  moreover have "distinct (map fst (gb_made b))" using one_session_per_channel [OF b(1)] by blast
  ultimately show ?thesis by auto
qed

section \<open>Asking on a channel\<close>

text \<open>A request that is neither waiting nor answered is never answered again.\<close>

definition orphaned :: "nat \<Rightarrow> gw_box \<Rightarrow> bool" where
  "orphaned n b \<longleftrightarrow> n < length (gb_asked b) \<and> n \<notin> snd ` set (gb_pending b) \<and> n \<notin> fst ` set (gb_answers b)"

lemma delete_snd: "snd ` set (AList.delete c al) \<subseteq> snd ` set al"
  by (induction al) auto

lemma update_snd: "snd ` set (AList.update c v al) \<subseteq> insert v (snd ` set al)"
  by (induction al) auto

lemma map_of_snd: "map_of al c = Some n \<Longrightarrow> n \<in> snd ` set al"
  by (force dest: map_of_SomeD)

lemma update_removes:
  "map_of al c = Some n \<Longrightarrow> distinct (map snd al) \<Longrightarrow> v \<noteq> n \<Longrightarrow> n \<notin> snd ` set (AList.update c v al)"
  by (induction al) (auto dest: map_of_snd split: if_splits)

lemma orphaned_step:
  assumes o: "orphaned n b" and step: "gw_step s b = Some b'"
  shows "orphaned n b'"
proof (cases s)
  case (Message i c msg)
  with step have b': "b' = receive i c msg b" by (simp add: gw_step_def split: if_splits)
  show ?thesis
  proof (cases "map_of (gb_pending b) c")
    case None
    then show ?thesis using o by (simp add: b' receive_def Let_def orphaned_def)
  next
    case (Some m)
    then have "m \<noteq> n" using o by (force simp: orphaned_def dest: map_of_SomeD)
    then show ?thesis
      using o Some contra_subsetD [OF delete_snd [of c "gb_pending b"], of n]
      by (simp add: b' receive_def Let_def orphaned_def)
  qed
next
  case (Asks c)
  with step have b': "b' = ask_channel c b" by (simp add: gw_step_def)
  have "n \<notin> insert (length (gb_asked b)) (snd ` set (gb_pending b))" using o by (auto simp: orphaned_def)
  then have "n \<notin> snd ` set (AList.update c (length (gb_asked b)) (gb_pending b))" using update_snd by (rule contra_subsetD [rotated])
  then show ?thesis using o by (simp add: b' ask_channel_def orphaned_def)
next
  case (Ask_Ends m)
  with step have b': "b' = ask_ends m b" by (simp add: gw_step_def split: if_splits)
  have "n \<notin> snd ` set (gb_pending b)" using o by (simp add: orphaned_def)
  then have "n \<notin> snd ` set (AList.delete (gb_asked b ! m) (gb_pending b))"
    using delete_snd by (rule contra_subsetD [rotated])
  then show ?thesis using o by (simp add: b' ask_ends_def orphaned_def)
next
  case Stop_Adapter
  with step have b': "b' = stop_adapter b" by (simp add: gw_step_def)
  have "fst ` set (map (\<lambda>(c, n). (n, Answer_Reject)) al) = snd ` set al" for al :: "(channel \<times> nat) list"
    by (induction al) auto
  then show ?thesis using o by (simp add: b' orphaned_def stop_adapter_def image_Un del: set_map)
qed (use o step in \<open>auto simp: gw_step_def orphaned_def lock_taken_def session_made_def gw_move_task_def gw_drop_task_def Let_def
  split: option.splits if_splits gw_stage.splits\<close>)

text \<open>
  C21: A second permission request on a channel disowns the first: when two are open at once - two turns
  of the session that overlap each ask - the first is never answered, whatever the user replies and even
  when the adapter is stopped, and its tool call waits for ever.
\<close>

theorem second_request_disowns:
  assumes "map_of (gb_pending b) c = Some n" "distinct (map snd (gb_pending b))"
    and "n < length (gb_asked b)" "n \<notin> fst ` set (gb_answers b)"
    and "gw_run (Asks c # ss) b = Some b'"
  shows "n \<notin> fst ` set (gb_answers b')"
proof -
  have "gw_run ss (ask_channel c b) = Some b'" using assms(5) by (simp add: gw_step_def)
  moreover have "orphaned n (ask_channel c b)"
    using assms(3,4) update_removes [OF assms(1,2), of "length (gb_asked b)"] by (simp add: orphaned_def ask_channel_def)
  ultimately have "orphaned n b'" using gw_run_keeps [where I = "orphaned n"] orphaned_step by blast
  then show ?thesis by (simp add: orphaned_def)
qed

text \<open>Reachable: two turns ask, and the user says yes twice; the second yes starts a turn.\<close>

theorem second_request_disowns_witness:
  "\<exists>b b'. gw_run [Asks (''u'', None)] (started_adapter []) = Some b \<and> map_of (gb_pending b) (''u'', None) = Some 0
     \<and> gw_run [Asks (''u'', None), Message 1 (''u'', None) ''yes'', Message 2 (''u'', None) ''yes'', Stop_Adapter] b = Some b'
     \<and> gb_answers b' = [(1, Answer_Allow_Once)] \<and> map gt_id (gb_tasks b') = [2] \<and> 0 \<notin> fst ` set (gb_answers b')"
proof -
  let ?b = "ask_channel (''u'', None) (started_adapter [])"
  let ?ss = "[Message 1 (''u'', None) ''yes'', Message 2 (''u'', None) ''yes'', Stop_Adapter]"
  have b: "gw_run [Asks (''u'', None)] (started_adapter []) = Some ?b" by (simp add: gw_step_def)
  have pend: "map_of (gb_pending ?b) (''u'', None) = Some 0" "distinct (map snd (gb_pending ?b))"
      "0 < length (gb_asked ?b)" "0 \<notin> fst ` set (gb_answers ?b)"
    by (simp_all add: ask_channel_def started_adapter_def)
  have "map_option (\<lambda>b. (gb_answers b, map gt_id (gb_tasks b))) (gw_run (Asks (''u'', None) # ?ss) ?b) =
      Some ([(1, Answer_Allow_Once)], [2])"
    by code_simp
  then obtain b' where b': "gw_run (Asks (''u'', None) # ?ss) ?b = Some b'"
      "(gb_answers b', map gt_id (gb_tasks b')) = ([(1, Answer_Allow_Once)], [2])"
    by (auto simp del: gw_run.simps)
  have "0 \<notin> fst ` set (gb_answers b')" by (rule second_request_disowns [OF pend b'(1)])
  then show ?thesis
    using b pend(1) b' by (intro exI [of _ ?b] exI [of _ b']) (simp del: gw_run.simps)
qed

section \<open>Commands\<close>

text \<open>The catalog always comes up: the built-in names differ, and a skill never shadows one.\<close>

lemma register_skills: "\<exists>r'. register_skill_commands ss r = Inr r' \<and> (\<exists>more. r' = r @ more)"
proof (induction ss arbitrary: r)
  case (Cons s ss)
  obtain n d h where s: "s = (n, d, h)" by (metis prod_cases3)
  show ?case
  proof (cases "lookup_command n r")
    case None
    let ?r = "r @ [(n, command n d (strip (''/'' @ n @ '' '' @ (case h of Some h \<Rightarrow> h | None \<Rightarrow> []))) None [])]"
    obtain r' more where "register_skill_commands ss ?r = Inr r'" "r' = ?r @ more" using Cons.IH [of ?r] by blast
    then show ?thesis using None by (simp add: s register_command_def lookup_command_def command_def)
  next
    case (Some c)
    then show ?thesis using Cons.IH [of r] by (simp add: s)
  qed
qed simp

lemma builtins: "register_builtins BUILTIN_COMMANDS [] = Inr (map (\<lambda>c. (cd_name c, c)) BUILTIN_COMMANDS)"
  by (simp add: BUILTIN_COMMANDS_def register_command_def command_def)

lemma catalog_complete:
  "\<exists>more. commands_startup skills = Inr (map (\<lambda>c. (cd_name c, c)) BUILTIN_COMMANDS @ more)"
  using register_skills by (fastforce simp: commands_startup_def builtins)

text \<open>
  \<open>/plan enter\<close> on a channel: the orchestrator plans, the session does not know, so the next \<open>/plan\<close>
  denies it, and the clients and the event log never learn of it.
\<close>

lemma channel_plan_hidden:
  assumes "session_of sid m = Some lv" "ss_mode (lv_session lv) \<noteq> Some ''plan''"
    and "execute_for_channel ''plan'' ''enter'' sid m = (r, m')"
  shows "r = Inr ''Plan mode enabled.'' \<and> mg_store m' = mg_store m \<and> mg_sent m' = mg_sent m
    \<and> map_option (ss_orch_mode \<circ> lv_session) (session_of sid m') = Some ''plan''
    \<and> execute_for_channel ''plan'' [] sid m' = (Inr ''Plan mode is currently **off**.'', m')"
proof -
  have w: "first_word ''status'' ''enter'' = ''enter''" by code_simp
  have m': "r = Inr ''Plan mode enabled.''" "m' = put_plan_mode True sid m"
    using assms(1,3) by (simp_all add: execute_for_channel_def get_or_raise_def w)
  have lv': "session_of sid m' = Some (lv\<lparr>lv_session := (lv_session lv)\<lparr>ss_orch_mode := ''plan''\<rparr>\<rparr>)"
    using assms(1) by (simp add: m'(2) put_plan_mode_def on_session_def unfocus_def focus_def session_of_def update_conv')
  moreover have "mg_store m' = mg_store m \<and> mg_sent m' = mg_sent m"
    using assms(1) by (simp add: m'(2) put_plan_mode_def on_session_def unfocus_def focus_def)
  ultimately show ?thesis
    using m'(1) assms(2) by (simp add: execute_for_channel_def get_or_raise_def first_word_def)
qed

text \<open>\<open>/model\<close> is in the catalog and always fails; a channel whose session was deleted fails for ever.\<close>

lemma channel_model_fails: "execute_for_channel ''model'' args sid m = (Inl ''AttributeError'', m)"
  by (simp add: execute_for_channel_def)

lemma deleted_session_fails:
  assumes "session_of sid m = None" "store_get_session sid (mg_store m) = None" "\<not> prefix ''/'' msg"
  shows "handle_text env r t sid msg m = (Some error_reply, m)"
  using assms by (simp add: handle_text_def run_turn_for_gateway_def get_or_load_def)

end
