(* ===== verification/Cron_Delivery.thy ===== *)
theory Cron_Delivery
  imports Gateways Cron_Scheduler Hooks
begin

text \<open>
  The cron executor (\<open>schedule/executor.py\<close>), which runs a task's prompt in a session of its own, and
  the delivery router (\<open>schedule/delivery.py\<close>), which tells the creator's session and the gateways what
  came out. \<open>re.search\<close> and the text of a float are parameters; sleeping takes no time.
\<close>

section \<open>The message\<close>

text \<open>\<open>f"{x:.1f}"\<close>.\<close>

definition fixed1 :: "rat \<Rightarrow> string" where
  "fixed1 x =
     (let n = nat (round_half_even (10 * \<bar>x\<bar>))
      in (if x < 0 then ''-'' else []) @ show_nat (n div 10) @ ''.'' @ [digit (n mod 10)])"

fun status_emoji :: "exec_status \<Rightarrow> char" where
  "status_emoji Exec_Completed = CHR 0x9B"
| "status_emoji Exec_Failed = CHR 0x9C"
| "status_emoji Exec_Timeout = CHR 0x9D"
| "status_emoji Exec_Running = CHR 0x9E"

fun status_text :: "exec_status \<Rightarrow> string" where
  "status_text Exec_Running = ''running''"
| "status_text Exec_Completed = ''completed''"
| "status_text Exec_Failed = ''failed''"
| "status_text Exec_Timeout = ''timeout''"

definition given :: "string option \<Rightarrow> string option" where
  "given s = (if s = Some [] then None else s)"

definition or_unnamed :: "string \<Rightarrow> string" where
  "or_unnamed d = (if d = [] then ''unnamed'' else d)"

definition format_message :: "cron_task \<Rightarrow> cron_execution \<Rightarrow> string" where
  "format_message t ex =
     join [CHR 0x0A]
       ([[status_emoji (ex_status ex)] @ '' Cron job **'' @ ct_id t @ ''** ('' @ or_unnamed (ct_description t) @ '')'',
         ''Status: '' @ status_text (ex_status ex)]
        @ (case ex_duration_ms ex of Some d \<Rightarrow> [''Duration: '' @ fixed1 (d / 1000) @ ''s''] | None \<Rightarrow> [])
        @ (case given (ex_error ex) of Some e \<Rightarrow> [''Error: '' @ take 500 e] | None \<Rightarrow> [])
        @ (case given (ex_summary ex) of Some s \<Rightarrow> [''Result: '' @ take 1000 s] | None \<Rightarrow> []))"

definition alert_message :: "cron_task \<Rightarrow> string \<Rightarrow> string" where
  "alert_message t err =
     [CHR 0x98] @ '' Cron job '' @ ct_id t @ '' ('' @ or_unnamed (ct_description t) @ '') has failed ''
     @ show_nat (ct_consecutive_failures t) @ '' times consecutively.'' @ [CHR 0x0A] @ ''Last error: '' @ take 500 err"

section \<open>Retries\<close>

text \<open>\<open>fn i\<close> is what the i-th attempt gives; the second result are the pauses made.\<close>

fun retry_from :: "nat \<Rightarrow> time list \<Rightarrow> (nat \<Rightarrow> 'a result) \<Rightarrow> 'a result \<times> time list" where
  "retry_from i [] fn = (fn i, [])"
| "retry_from i (d # ds) fn =
     (case fn i of
        Inr x \<Rightarrow> (Inr x, [])
      | Inl e \<Rightarrow> if is_transient_delivery_error e
                 then (let (r, pauses) = retry_from (Suc i) ds fn in (r, d # pauses)) else (Inl e, []))"

definition retry_transient :: "(nat \<Rightarrow> 'a result) \<Rightarrow> 'a result \<times> time list" where
  "retry_transient fn = retry_from 0 DELIVERY_RETRY_DELAYS_S fn"

section \<open>The targets\<close>

text \<open>
  What delivery acts on: the sessions, and the messages posted on the channels of the adapters.
  \<open>de_gateways\<close>: the running adapters, \<open>None\<close> without a gateway manager.
\<close>

record delivery_world =
  dw_manager :: manager
  dw_posted :: "(string \<times> string \<times> string) list"

record delivery_env =
  de_search :: "string \<Rightarrow> string \<Rightarrow> bool result"
  de_gateways :: "string list option"
  de_post :: "string \<Rightarrow> string \<Rightarrow> nat \<Rightarrow> string \<Rightarrow> bool"
  de_float :: "time \<Rightarrow> string"

definition cron_reminder :: "string \<Rightarrow> string" where
  "cron_reminder msg = ''<cron-result>'' @ [CHR 0x0A] @ msg @ [CHR 0x0A] @ ''</cron-result>''"

definition inject_reminder :: "string \<Rightarrow> string \<Rightarrow> manager \<Rightarrow> manager" where
  "inject_reminder sid msg m = queue_session_reminders sid [cron_reminder msg] m"

definition deliver_session :: "cron_task \<Rightarrow> string \<Rightarrow> delivery_world \<Rightarrow> unit result \<times> delivery_world" where
  "deliver_session t msg w =
     (case given (ct_session_id t) of
        None \<Rightarrow> (Inr (), w)
      | Some sid \<Rightarrow> (fst (retry_transient (\<lambda>_. Inr ())), w\<lparr>dw_manager := inject_reminder sid msg (dw_manager w)\<rparr>))"

text \<open>
  A sender is an object with \<open>notify\<close> and \<open>request\<close>, not a function: calling it raises, and the loop
  drops the exception.
\<close>

definition call_sender :: "string \<Rightarrow> manager \<Rightarrow> manager result" where
  "call_sender c m = Inl ''TypeError''"

definition deliver_acp :: "cron_task \<Rightarrow> delivery_world \<Rightarrow> unit result \<times> delivery_world" where
  "deliver_acp t w =
     (case given (ct_session_id t) of
        None \<Rightarrow> (Inr (), w)
      | Some sid \<Rightarrow>
          (case session_of sid (dw_manager w) of
             None \<Rightarrow> (Inr (), w)
           | Some lv \<Rightarrow>
               (Inr (), w\<lparr>dw_manager := fold (\<lambda>c m. case call_sender c m of Inl _ \<Rightarrow> m | Inr m' \<Rightarrow> m')
                            (ss_senders (lv_session lv)) (dw_manager w)\<rparr>)))"

definition gateway_target :: "string \<Rightarrow> (string \<times> string) option" where
  "gateway_target target =
     (let rest = snd (partition_at (CHR '':'') target)
      in if CHR '':'' \<in> set rest then Some (partition_at (CHR '':'') rest) else None)"

definition deliver_gateway ::
    "delivery_env \<Rightarrow> string \<Rightarrow> string \<Rightarrow> delivery_world \<Rightarrow> unit result \<times> delivery_world" where
  "deliver_gateway env target msg w =
     (case de_gateways env of
        None \<Rightarrow> (Inr (), w)
      | Some adapters \<Rightarrow>
          (case gateway_target target of
             None \<Rightarrow> (Inr (), w)
           | Some (a, ch) \<Rightarrow>
               (case fst (retry_transient (\<lambda>_. send_to_channel (de_post env a ch) adapters a ch msg)) of
                  Inl e \<Rightarrow> (Inl e, w)
                | Inr chunks \<Rightarrow> (Inr (), w\<lparr>dw_posted := dw_posted w @ map (\<lambda>c. (a, ch, c)) chunks\<rparr>))))"

definition deliver_to ::
    "delivery_env \<Rightarrow> cron_task \<Rightarrow> string \<Rightarrow> string \<Rightarrow> delivery_world \<Rightarrow> unit result \<times> delivery_world" where
  "deliver_to env t msg target w =
     (if target = ''none'' then (Inr (), w)
      else if target = ''session'' then deliver_session t msg w
      else if target = ''acp'' then deliver_acp t w
      else if prefix ''gateway:'' target then deliver_gateway env target msg w
      else (Inr (), w))"

text \<open>Every target is served; the first error is kept.\<close>

fun deliver_all ::
    "delivery_env \<Rightarrow> cron_task \<Rightarrow> string \<Rightarrow> string list \<Rightarrow> delivery_world \<Rightarrow> string option \<times> bool \<times> delivery_world"
where
  "deliver_all env t msg [] w = (None, True, w)"
| "deliver_all env t msg (x # xs) w =
     (let (r, w1) = deliver_to env t msg x w; (err, ok, w2) = deliver_all env t msg xs w1
      in case r of Inl e \<Rightarrow> (Some e, False, w2) | Inr _ \<Rightarrow> (err, ok, w2))"

section \<open>The router\<close>

type_synonym delivered_cache = "(string \<times> time) list"

definition IDEMPOTENCY_TTL_S :: time where "IDEMPOTENCY_TTL_S = 24 * 3600"
definition IDEMPOTENCY_MAX_ENTRIES :: nat where "IDEMPOTENCY_MAX_ENTRIES = 2000"

text \<open>Every entry of the cache is a success, so the flag beside the time is left out.\<close>

definition prune_cache :: "time \<Rightarrow> delivered_cache \<Rightarrow> delivered_cache" where
  "prune_cache now d =
     (let fresh = filter (\<lambda>(k, ts). now - ts \<le> IDEMPOTENCY_TTL_S) d;
          drops = take (length fresh - IDEMPOTENCY_MAX_ENTRIES) (map fst (sort_key snd fresh))
      in if IDEMPOTENCY_MAX_ENTRIES < length fresh then filter (\<lambda>(k, ts). k \<notin> set drops) fresh else fresh)"

definition targets_of :: "cron_task \<Rightarrow> string list" where
  "targets_of t = map strip (split_on (CHR '','') (dl_target (ct_delivery t)))"

definition idem_key :: "cron_task \<Rightarrow> cron_execution \<Rightarrow> string" where
  "idem_key t ex = ex_id ex @ '':'' @ dl_target (ct_delivery t)"

definition silenced :: "delivery_env \<Rightarrow> cron_task \<Rightarrow> cron_execution \<Rightarrow> bool result" where
  "silenced env t ex =
     (case given (ex_summary ex) of
        None \<Rightarrow> Inr False
      | Some s \<Rightarrow> if dl_silent_pattern (ct_delivery t) = [] then Inr False
                  else de_search env (dl_silent_pattern (ct_delivery t)) s)"

definition deliver ::
    "delivery_env \<Rightarrow> time \<Rightarrow> cron_task \<Rightarrow> cron_execution \<Rightarrow> delivered_cache \<Rightarrow> delivery_world
       \<Rightarrow> (string \<times> string option) result \<times> delivered_cache \<times> delivery_world" where
  "deliver env now t ex d w =
     (if targets_of t = [''none''] then (Inr (''skipped'', None), d, w)
      else case silenced env t ex of
             Inl e \<Rightarrow> (Inl e, d, w)
           | Inr True \<Rightarrow> (Inr (''skipped'', None), d, w)
           | Inr False \<Rightarrow>
               if ex_status ex \<in> {Exec_Failed, Exec_Timeout} \<and> \<not> dl_on_failure (ct_delivery t)
               then (Inr (''skipped'', None), d, w)
               else if map_of d (idem_key t ex) \<noteq> None then (Inr (''delivered'', None), d, w)
               else (let (err, ok, w') = deliver_all env t (format_message t ex) (targets_of t) w
                     in if ok then (Inr (''delivered'', None), prune_cache now (AList.update (idem_key t ex) now d), w')
                        else (Inr (''not-delivered'', err), d, w')))"

definition deliver_alert :: "delivery_env \<Rightarrow> cron_task \<Rightarrow> string \<Rightarrow> delivery_world \<Rightarrow> delivery_world" where
  "deliver_alert env t err w =
     (case ct_failure_alert t of
        None \<Rightarrow> w
      | Some fa \<Rightarrow>
          if fa_target fa = ''session'' \<and> given (ct_session_id t) \<noteq> None
          then w\<lparr>dw_manager := inject_reminder (the (ct_session_id t)) (alert_message t err) (dw_manager w)\<rparr>
          else if prefix ''gateway:'' (fa_target fa)
          then snd (deliver_gateway env (fa_target fa) (alert_message t err) w)
          else w)"

section \<open>The executor\<close>

text \<open>
  The hooks of an event and the prompt they leave: what they wrote comes before the task's own. A
  failing handler is caught by \<open>fire\<close>.
\<close>

definition cron_ctx :: "hook_event \<Rightarrow> string \<Rightarrow> time \<Rightarrow> cron_task \<Rightarrow> hook_ctx" where
  "cron_ctx ev cwd now t =
     new_hook_ctx ev \<lparr>amb_session_id = [], amb_cwd = cwd, amb_agent_depth = 0, amb_mode = Default, amb_timestamp = now\<rparr>
       (Some (''cron:'' @ ct_id t)) [] None None"

definition enriched_prompt :: "hook_registry option \<Rightarrow> string \<Rightarrow> time \<Rightarrow> cron_task \<Rightarrow> string" where
  "enriched_prompt hooks cwd now t =
     (case hooks of
        None \<Rightarrow> ct_prompt t
      | Some r \<Rightarrow>
          (let msgs = hc_messages (snd (fire r (cron_ctx PRE_CRON_FIRE cwd now t)))
           in if msgs = [] then ct_prompt t
              else ''[Pre-run data]'' @ [CHR 0x0A] @ join [CHR 0x0A] msgs @ [CHR 0x0A, CHR 0x0A] @ ct_prompt t))"

text \<open>
  \<open>execute\<close> up to its wait: the session and the turn enqueued in it; then from the outcome of the wait
  on. A timeout cancels the waiting coroutine and its future, nothing else. The permission callback
  given to the turn is \<open>auto_approve\<close>.
\<close>

definition auto_approve :: "perm_request \<Rightarrow> perm_response" where
  "auto_approve req = \<lparr>pr_decision = Answer_Allow_Once, pr_updated_input = None\<rparr>"

datatype cron_outcome = Reply string | Timed_Out | Raises exn

definition begin_execution ::
    "manager_env \<Rightarrow> string \<Rightarrow> turn \<Rightarrow> manager \<Rightarrow> string \<times> unit result \<times> manager" where
  "begin_execution env sid n m =
     (case create_for_gateway env sid m of
        (Inl e, m') \<Rightarrow> ([], Inl e, m')
      | (Inr _, m') \<Rightarrow> (sid, run_turn_for_gateway env sid n m'))"

definition execution_record ::
    "delivery_env \<Rightarrow> cron_task \<Rightarrow> string \<Rightarrow> string \<Rightarrow> time \<Rightarrow> time \<Rightarrow> cron_outcome \<Rightarrow> cron_execution" where
  "execution_record env t eid sid started ended out =
     (let ex = \<lparr>ex_id = eid, ex_task_id = ct_id t, ex_session_id = sid, ex_started_at = started,
                ex_ended_at = Some ended, ex_duration_ms = Some ((ended - started) * 1000),
                ex_status = Exec_Running, ex_error = None, ex_stop_reason = None, ex_summary = None,
                ex_delivery_status = None, ex_delivery_error = None\<rparr>
      in case out of
           Reply txt \<Rightarrow> ex\<lparr>ex_status := Exec_Completed,
                           ex_summary := (if txt = [] then None else Some (take 2000 txt)),
                           ex_stop_reason := Some ''end_turn''\<rparr>
         | Timed_Out \<Rightarrow> ex\<lparr>ex_status := Exec_Timeout,
                           ex_error := Some (''Execution timed out after '' @ de_float env (ct_timeout_seconds t) @ ''s'')\<rparr>
         | Raises e \<Rightarrow> ex\<lparr>ex_status := Exec_Failed, ex_error := Some (take 2000 e)\<rparr>)"

definition finish_execution ::
    "delivery_env \<Rightarrow> bool \<Rightarrow> time \<Rightarrow> cron_task \<Rightarrow> cron_execution \<Rightarrow> delivered_cache \<Rightarrow> delivery_world
       \<Rightarrow> cron_execution \<times> delivered_cache \<times> delivery_world" where
  "finish_execution env routed now t ex d w =
     (if \<not> routed then (ex, d, w)
      else case deliver env now t ex d w of
             (Inl _, d', w') \<Rightarrow> (ex\<lparr>ex_delivery_status := Some ''not-delivered''\<rparr>, d', w')
           | (Inr (s, err), d', w') \<Rightarrow> (ex\<lparr>ex_delivery_status := Some s, ex_delivery_error := err\<rparr>, d', w'))"

text \<open>
  The whole of \<open>execute\<close>: \<open>wait sid m\<close> is what the wait for the turn of the session ends with and the
  sessions it leaves behind. The messages of the hooks that run after it are dropped.
\<close>

definition execute ::
    "manager_env \<Rightarrow> delivery_env \<Rightarrow> bool \<Rightarrow> (string \<Rightarrow> manager \<Rightarrow> cron_outcome \<times> manager) \<Rightarrow> cron_task \<Rightarrow> string \<Rightarrow> string
       \<Rightarrow> turn \<Rightarrow> time \<Rightarrow> time \<Rightarrow> delivered_cache \<Rightarrow> delivery_world
       \<Rightarrow> cron_execution \<times> delivered_cache \<times> delivery_world" where
  "execute menv env routed wait t eid sid n started ended d w =
     (let (s, r, m) = begin_execution menv sid n (dw_manager w);
          (out, m') = (case r of Inl e \<Rightarrow> (Raises e, m) | Inr _ \<Rightarrow> wait s m)
      in finish_execution env routed ended t (execution_record env t eid s started ended out) d (w\<lparr>dw_manager := m'\<rparr>))"

end
