(* ===== verification/Delivery_Properties.thy ===== *)
theory Delivery_Properties
  imports Cron_Delivery
begin

text \<open>What a cron execution ends with, whom its result reaches, and what is believed about it.\<close>

section \<open>Concrete values for the witnesses\<close>

text \<open>A task of session \<open>s\<close>, a manager with that session or none, and an environment without gateways.\<close>

definition brief_task :: "string \<Rightarrow> cron_task" where
  "brief_task target =
     \<lparr>ct_id = ''t1'', ct_schedule = mk_schedule Every [] 60 0, ct_prompt = ''p'', ct_description = [],
      ct_recurring = True, ct_durable = True, ct_skills = [], ct_model = None, ct_timeout_seconds = 60,
      ct_inactivity_timeout = 60, ct_delivery = \<lparr>dl_target = target, dl_on_failure = True, dl_silent_pattern = []\<rparr>,
      ct_session_id = Some ''s'', ct_project_dir = None, ct_created_at = 0, ct_last_fired_at = None,
      ct_next_fire_at = None, ct_status = Active, ct_fire_count = 0, ct_consecutive_failures = 0,
      ct_repeat = \<lparr>max_count = None, max_duration_seconds = None, until = None\<rparr>, ct_max_age_seconds = 0,
      ct_failure_alert = None, ct_last_failure_alert_at = None, ct_running_by = None, ct_running_heartbeat = None\<rparr>"

definition brief_session :: session where
  "brief_session =
     \<lparr>ss_id = ''s'', ss_cwd = ''/w'', ss_created = 0, ss_updated = 0, ss_title = None, ss_branch = None,
      ss_mode = None, ss_config = [], ss_mcp = [], ss_orch_mode = ''default'', ss_history = [],
      ss_senders = [''c''], ss_last_event = None, ss_pre_plan = None, ss_exited_plan = False,
      ss_needs_exit_note = False, ss_pending_modes = [], ss_reminders = [], ss_depth = 0\<rparr>"

definition brief_world :: "bool \<Rightarrow> delivery_world" where
  "brief_world alive =
     \<lparr>dw_manager = \<lparr>mg_sessions = (if alive then [(''s'', \<lparr>lv_session = brief_session, lv_turns = idle_box\<rparr>)] else []),
        mg_store = \<lparr>st_records = [], st_rows = [], st_spilled = Map.empty\<rparr>, mg_tick = 0, mg_sent = [], mg_bound = Map.empty\<rparr>,
      dw_posted = []\<rparr>"

definition brief_delivery :: delivery_env where
  "brief_delivery = \<lparr>de_search = (\<lambda>_ _. Inr False), de_gateways = None, de_post = (\<lambda>_ _ _ _. True), de_float = (\<lambda>_. ''60.0'')\<rparr>"

definition brief_manager_env :: manager_env where
  "brief_manager_env =
     \<lparr>se_uuid = (\<lambda>n. replicate n CHR ''x''), se_now = (\<lambda>n. rat_of_nat n), se_token = (\<lambda>n. ''t''),
      se_spill_fails = (\<lambda>_. False), se_inline_limit = 8, se_notify = (\<lambda>_ _ _. True), se_str = (\<lambda>_. []),
      me_max_queue = 50, me_str_dict = (\<lambda>_. []), me_pcwd = ''/w'', me_home = ''/h'', me_worktree = (\<lambda>_. None),
      me_branch = (\<lambda>_. None)\<rparr>"

definition brief_record :: cron_execution where
  "brief_record = execution_record brief_delivery (brief_task ''session'') ''e1'' ''c1'' 0 2 (Reply ''fine'')"

lemma brief_fields [simp]:
  "ct_session_id (brief_task x) = Some ''s''" "dl_target (ct_delivery (brief_task x)) = x"
  "dl_on_failure (ct_delivery (brief_task x))" "dl_silent_pattern (ct_delivery (brief_task x)) = []"
  "session_of ''s'' (dw_manager (brief_world True)) = Some \<lparr>lv_session = brief_session, lv_turns = idle_box\<rparr>"
  "session_of ''s'' (dw_manager (brief_world False)) = None"
  by (simp_all add: brief_task_def brief_world_def session_of_def)

lemma brief_targets: "targets_of (brief_task ''session,acp'') = [''session'', ''acp'']"
  "targets_of (brief_task ''session'') = [''session'']"
  by code_simp+

section \<open>Retries\<close>

lemma retry_from_bounded:
  "retry_from i ds fn = (r, pauses) \<Longrightarrow> prefix pauses ds \<and> (\<exists>j \<le> length ds. r = fn (i + j) \<and> length pauses = j
     \<and> (\<forall>k < j. \<exists>e. fn (i + k) = Inl e \<and> is_transient_delivery_error e))"
proof (induction i ds fn arbitrary: r pauses rule: retry_from.induct)
  case (2 i d ds fn)
  show ?case
  proof (cases "\<exists>e. fn i = Inl e \<and> is_transient_delivery_error e")
    case True
    then obtain e where e: "fn i = Inl e" "is_transient_delivery_error e" by blast
    obtain p where p: "retry_from (Suc i) ds fn = (r, p)" "pauses = d # p" using 2(2) e by (auto split: prod.splits)
    from 2(1) [OF e p(1)] obtain j where j: "prefix p ds" "j \<le> length ds" "r = fn (Suc i + j)" "length p = j"
        "\<forall>k < j. \<exists>e. fn (Suc i + k) = Inl e \<and> is_transient_delivery_error e" by blast
    have "\<forall>k < Suc j. \<exists>e. fn (i + k) = Inl e \<and> is_transient_delivery_error e"
      using j(5) e by (auto simp: less_Suc_eq_0_disj)
    then show ?thesis using j p(2) by (intro conjI exI [of _ "Suc j"]) simp_all
  next
    case False
    then show ?thesis using 2(2) by (auto split: sum.splits if_splits intro: exI [of _ 0])
  qed
qed auto

text \<open>At most four attempts and 35 seconds of waiting.\<close>

lemma retry_bounded:
  assumes "retry_transient fn = (r, pauses)"
  shows "sum_list pauses \<le> 35 \<and> (\<exists>j \<le> 3. r = fn j \<and> (\<forall>k < j. \<exists>e. fn k = Inl e \<and> is_transient_delivery_error e))"
proof -
  note b = retry_from_bounded [OF assms [unfolded retry_transient_def]]
  have "prefix pauses [5, 10, 20]" using b by (simp add: DELIVERY_RETRY_DELAYS_S_def)
  then have "sum_list pauses \<le> (35 :: rat)" by (auto simp: prefix_Cons)
  moreover have "\<exists>j \<le> length DELIVERY_RETRY_DELAYS_S. r = fn j \<and> (\<forall>k < j. \<exists>e. fn k = Inl e \<and> is_transient_delivery_error e)"
    using b by auto
  moreover have "length DELIVERY_RETRY_DELAYS_S = 3" by (simp add: DELIVERY_RETRY_DELAYS_S_def)
  ultimately show ?thesis by simp
qed

lemma retry_constant [simp]: "fst (retry_transient (\<lambda>_. r)) = r"
proof -
  obtain r' p where "retry_transient (\<lambda>_. r) = (r', p)" by (rule prod.exhaust)
  with retry_bounded [OF this] show ?thesis by auto
qed

section \<open>What delivery changes\<close>

text \<open>Of the sessions, delivery changes the pending reminders of the creator's only.\<close>

definition reminded :: "string list \<Rightarrow> live_session \<Rightarrow> live_session" where
  "reminded rs lv = lv\<lparr>lv_session := (lv_session lv)\<lparr>ss_reminders := ss_reminders (lv_session lv) @ rs\<rparr>\<rparr>"

lemma inject_session:
  "session_of s (inject_reminder sid msg m) =
     map_option (if s = sid then reminded [cron_reminder msg] else id) (session_of s m)"
  "mg_store (inject_reminder sid msg m) = mg_store m" "mg_sent (inject_reminder sid msg m) = mg_sent m"
  by (auto simp: inject_reminder_def queue_session_reminders_def on_session_def unfocus_def focus_def session_of_def
      update_conv' reminded_def Let_def option.map_id split: option.split)

lemma deliver_acp_nothing: "deliver_acp t w = (Inr (), w)"
proof -
  have "fold (\<lambda>c m. case call_sender c m of Inl _ \<Rightarrow> m | Inr m' \<Rightarrow> m') cs m = m" for cs and m :: manager
    by (induction cs arbitrary: m) (simp_all add: call_sender_def)
  then show ?thesis by (simp add: deliver_acp_def split: option.split)
qed

text \<open>Only the reminders differ between two managers.\<close>

definition only_reminders :: "string option \<Rightarrow> manager \<Rightarrow> manager \<Rightarrow> bool" where
  "only_reminders creator m m' \<longleftrightarrow> mg_store m' = mg_store m \<and> mg_sent m' = mg_sent m
     \<and> (\<exists>rs. \<forall>s. session_of s m' = map_option (if Some s = creator then reminded rs else id) (session_of s m))"

lemma reminded_twice: "reminded r2 (reminded r1 lv) = reminded (r1 @ r2) lv" "reminded [] lv = lv"
  by (simp_all add: reminded_def)

lemma only_refl: "only_reminders c m m"
  unfolding only_reminders_def
  by (intro conjI refl exI [of _ "[]"] allI) (auto simp: reminded_twice option.map_id option.map_ident id_def cong: option.map_cong)

lemma only_trans:
  assumes "only_reminders c m m1" "only_reminders c m1 m2"
  shows "only_reminders c m m2"
proof -
  obtain r1 r2 where r: "\<forall>s. session_of s m1 = map_option (if Some s = c then reminded r1 else id) (session_of s m)"
      "\<forall>s. session_of s m2 = map_option (if Some s = c then reminded r2 else id) (session_of s m1)"
    using assms unfolding only_reminders_def by blast
  have "session_of s m2 = map_option (if Some s = c then reminded (r1 @ r2) else id) (session_of s m)" for s
    using r by (cases "session_of s m") (simp_all add: reminded_twice)
  with assms show ?thesis unfolding only_reminders_def by metis
qed

lemma only_inject: "only_reminders (Some sid) m (inject_reminder sid msg m)"
  unfolding only_reminders_def by (auto simp: inject_session intro!: exI [of _ "[cron_reminder msg]"])

lemma deliver_to_only:
  "only_reminders (given (ct_session_id t)) (dw_manager w) (dw_manager (snd (deliver_to env t msg x w)))"
  by (auto simp: deliver_to_def deliver_session_def deliver_acp_nothing deliver_gateway_def only_refl only_inject
      split: option.split sum.split)

lemma deliver_all_only:
  "deliver_all env t msg xs w = (err, ok, w') \<Longrightarrow>
     only_reminders (given (ct_session_id t)) (dw_manager w) (dw_manager w')"
proof (induction xs arbitrary: w err ok w')
  case (Cons x xs)
  obtain r w1 where d: "deliver_to env t msg x w = (r, w1)" by (rule prod.exhaust)
  obtain e o1 w2 where a: "deliver_all env t msg xs w1 = (e, o1, w2)" by (rule prod_cases3)
  have "w' = w2" using Cons.prems d a by (auto split: sum.splits)
  with Cons.IH [OF a] deliver_to_only [of t w env msg x] d show ?case by (auto intro: only_trans)
qed (simp add: only_refl)

lemma deliver_only:
  "deliver env now t ex d w = (r, d', w') \<Longrightarrow>
     only_reminders (given (ct_session_id t)) (dw_manager w) (dw_manager w')"
  by (auto simp: deliver_def only_refl intro: deliver_all_only split: sum.splits bool.splits if_splits prod.splits)

section \<open>Executions\<close>

text \<open>
  C17: Every execution ends as one record: whatever the hooks, the session, the turn and the delivery do,
  the executor returns normally with a record that says completed, failed or timed out, carries an error
  exactly when it did not complete, has an end and a duration, and - with a router - a delivery status.
\<close>

theorem execution_recorded:
  assumes "execute menv env routed wait t eid sid n started ended d w = (ex, d', w')"
  shows "ex_id ex = eid \<and> ex_task_id ex = ct_id t \<and> ex_ended_at ex = Some ended
    \<and> ex_duration_ms ex = Some ((ended - started) * 1000)
    \<and> ex_status ex \<in> {Exec_Completed, Exec_Failed, Exec_Timeout}
    \<and> (ex_error ex \<noteq> None \<longleftrightarrow> ex_status ex \<noteq> Exec_Completed)
    \<and> (routed \<longleftrightarrow> ex_delivery_status ex \<in> Some ` {''delivered'', ''not-delivered'', ''skipped''})"
proof -
  obtain s r m where b: "begin_execution menv sid n (dw_manager w) = (s, r, m)" by (rule prod_cases3)
  obtain out m' where o: "(case r of Inl e \<Rightarrow> (Raises e, m) | Inr _ \<Rightarrow> wait s m) = (out, m')" by (rule prod.exhaust)
  let ?ex = "execution_record env t eid s started ended out"
  have base: "ex_id ?ex = eid \<and> ex_task_id ?ex = ct_id t \<and> ex_ended_at ?ex = Some ended
      \<and> ex_duration_ms ?ex = Some ((ended - started) * 1000)
      \<and> ex_status ?ex \<in> {Exec_Completed, Exec_Failed, Exec_Timeout}
      \<and> (ex_error ?ex \<noteq> None \<longleftrightarrow> ex_status ?ex \<noteq> Exec_Completed) \<and> ex_delivery_status ?ex = None"
    by (cases out) (simp_all add: execution_record_def)
  have f: "finish_execution env routed ended t ?ex d (w\<lparr>dw_manager := m'\<rparr>) = (ex, d', w')"
    using assms b o by (simp add: execute_def)
  obtain dr dd dw where dl: "deliver env ended t ?ex d (w\<lparr>dw_manager := m'\<rparr>) = (dr, dd, dw)" by (rule prod_cases3)
  have st: "s' \<in> {''delivered'', ''not-delivered'', ''skipped''}" if "dr = Inr (s', err)" for s' err
    using dl that by (auto simp: deliver_def split: sum.splits bool.splits if_splits prod.splits)
  show ?thesis
  proof (cases routed)
    case False
    with f have "ex = ?ex" by (simp add: finish_execution_def)
    with base False show ?thesis by auto
  next
    case True
    show ?thesis
    proof (cases dr)
      case (Inl e)
      with f dl True have "ex = ?ex\<lparr>ex_delivery_status := Some ''not-delivered''\<rparr>" by (simp add: finish_execution_def)
      with base True show ?thesis by simp
    next
      case (Inr se)
      then obtain s' err where i: "dr = Inr (s', err)" by (cases se) simp
      with f dl True have "ex = ?ex\<lparr>ex_delivery_status := Some s', ex_delivery_error := err\<rparr>"
        by (simp add: finish_execution_def)
      with base True st [OF i] show ?thesis by simp
    qed
  qed
qed

theorem execution_recorded_witness:
  "let (ex, d', w') = execute brief_manager_env brief_delivery True (\<lambda>s m. (Raises ''boom'', m)) (brief_task ''session'')
     ''e1'' ''c1'' 1 0 2 [] (brief_world True)
   in ex_status ex = Exec_Failed \<and> ex_error ex = Some ''boom'' \<and> ex_id ex = ''e1''"
proof -
  obtain ex d' w' where e: "execute brief_manager_env brief_delivery True (\<lambda>s m. (Raises ''boom'', m)) (brief_task ''session'')
     ''e1'' ''c1'' 1 0 2 [] (brief_world True) = (ex, d', w')" by (rule prod_cases3)
  have "ex_status ex = Exec_Failed \<and> ex_error ex = Some ''boom''"
    using e by (auto simp: execute_def begin_execution_def create_for_gateway_def create_session_def Let_def brief_world_def
        create_session_with_events_def run_turn_for_gateway_def get_or_load_def session_of_def execution_record_def
        finish_execution_def split: prod.splits sum.splits)
  with execution_recorded [OF e] e show ?thesis by simp
qed



text \<open>Nobody is asked in a cron session: what the authorizer asks about runs as it was made.\<close>

lemma cron_asks_nobody:
  assumes "xs_authorizer st = Some a" "w_validate w t (tu_input tc) tctx = None" "w_hooks w = None"
    and "fst (authorize (w_authz w) t (tu_input tc) ctx a) = Permission_Ask msg rsn btns"
    and "t_user_facing_name t (tu_input tc) = Inr title"
    and "w_on_permission w = (\<lambda>rq. Inr (auto_approve rq))"
  shows "xs_calls (snd (snd (run_one w m tc t tctx ctx st))) = xs_calls st @ [(tu_id tc, t_name t, tu_input tc)]"
  using assms by (intro run_one_asked) (simp_all add: auto_approve_def)

section \<open>Who is told\<close>

lemma deliver_all_reaches:
  assumes "given (ct_session_id t) = Some sid" "''session'' \<in> set xs" "session_of sid (dw_manager w) \<noteq> None"
    and "deliver_all env t msg xs w = (err, ok, w')"
  shows "\<exists>lv. session_of sid (dw_manager w') = Some lv \<and> cron_reminder msg \<in> set (ss_reminders (lv_session lv))"
  using assms(2-4)
proof (induction xs arbitrary: w err ok w')
  case (Cons x xs)
  obtain r w1 where d: "deliver_to env t msg x w = (r, w1)" by (rule prod.exhaust)
  obtain e o1 w2 where a: "deliver_all env t msg xs w1 = (e, o1, w2)" by (rule prod_cases3)
  have w': "w' = w2" using Cons.prems d a by (auto split: sum.splits)
  have alive: "session_of sid (dw_manager w1) \<noteq> None"
    using deliver_to_only [of t w env msg x] d Cons.prems(2) unfolding only_reminders_def by auto
  show ?case
  proof (cases "''session'' \<in> set xs")
    case True
    with Cons.IH [OF _ alive a] w' show ?thesis by simp
  next
    case False
    then have x: "x = ''session''" using Cons.prems(1) by simp
    have "session_of sid (dw_manager w1) = map_option (reminded [cron_reminder msg]) (session_of sid (dw_manager w))"
      using d assms(1) by (simp add: x deliver_to_def deliver_session_def) (auto simp: inject_session)
    then obtain lv where lv: "session_of sid (dw_manager w1) = Some lv" "cron_reminder msg \<in> set (ss_reminders (lv_session lv))"
      using Cons.prems(2) by (auto simp: reminded_def)
    obtain rs where "session_of sid (dw_manager w2) = map_option (reminded rs) (session_of sid (dw_manager w1))"
      using deliver_all_only [OF a] assms(1) unfolding only_reminders_def by auto
    with lv w' show ?thesis by (auto simp: reminded_def)
  qed
qed simp

text \<open>
  C19: The creator hears of it: a result that is due - not silenced, not delivered before, and no failure
  the task keeps to itself - whose targets include the session waits among the pending reminders of the
  creator's session, if that is in memory, whatever becomes of the other targets.
\<close>

theorem result_reaches_creator:
  assumes "deliver env now t ex d w = (r, d', w')" "silenced env t ex = Inr False"
    and "dl_on_failure (ct_delivery t) \<or> ex_status ex \<notin> {Exec_Failed, Exec_Timeout}"
    and "map_of d (idem_key t ex) = None" "''session'' \<in> set (targets_of t)"
    and "given (ct_session_id t) = Some sid" "session_of sid (dw_manager w) \<noteq> None"
  shows "\<exists>lv. session_of sid (dw_manager w') = Some lv
    \<and> cron_reminder (format_message t ex) \<in> set (ss_reminders (lv_session lv))"
proof -
  have "targets_of t \<noteq> [''none'']" using assms(5) by auto
  then obtain err ok where "deliver_all env t (format_message t ex) (targets_of t) w = (err, ok, w')"
    using assms(1-4) by (auto simp: deliver_def split: prod.splits if_splits)
  with deliver_all_reaches assms(5-7) show ?thesis by blast
qed

text \<open>
  Nobody may hear of it and it counts as delivered: with the targets a task gets by default, when the
  creator's session is not in memory, nothing at all happens, the status is delivered, and the cache
  keeps a later attempt from telling the session.
\<close>

lemma absent_session_delivered:
  assumes "set (targets_of t) \<subseteq> {''session'', ''acp''}" "silenced env t ex = Inr False"
    and "dl_on_failure (ct_delivery t) \<or> ex_status ex \<notin> {Exec_Failed, Exec_Timeout}"
    and "given (ct_session_id t) = Some sid" "session_of sid (dw_manager w) = None"
  shows "\<exists>d'. deliver env now t ex d w = (Inr (''delivered'', None), d', w)"
proof -
  have one: "deliver_to env t msg x w = (Inr (), w)" if "x \<in> {''session'', ''acp''}" for msg x
  proof -
    have "inject_reminder sid msg (dw_manager w) = dw_manager w"
      using assms(5) by (simp add: inject_reminder_def queue_session_reminders_def on_session_def)
    then show ?thesis using that assms(4,5) by (auto simp: deliver_to_def deliver_session_def deliver_acp_nothing)
  qed
  have all: "deliver_all env t msg xs w = (None, True, w)" if "set xs \<subseteq> {''session'', ''acp''}" for msg xs
    using that by (induction xs) (simp_all add: one)
  have "targets_of t \<noteq> [''none'']" using assms(1) by auto
  then show ?thesis using assms(2,3) all [OF assms(1)] by (auto simp: deliver_def)
qed

lemma absent_session_delivered_witness:
  "\<exists>d'. deliver brief_delivery 2 (brief_task ''session,acp'') brief_record [] (brief_world False) =
     (Inr (''delivered'', None), d', brief_world False)"
  by (rule absent_session_delivered [where sid = "''s''"])
    (simp_all add: brief_targets silenced_def given_def split: option.split)

theorem result_reaches_creator_witness:
  "\<exists>lv. session_of ''s'' (dw_manager (snd (snd (deliver brief_delivery 2 (brief_task ''session'') brief_record []
       (brief_world True))))) = Some lv
     \<and> cron_reminder (format_message (brief_task ''session'') brief_record) \<in> set (ss_reminders (lv_session lv))"
proof -
  obtain r d' w' where d: "deliver brief_delivery 2 (brief_task ''session'') brief_record [] (brief_world True) = (r, d', w')"
    by (rule prod_cases3)
  from result_reaches_creator [OF d, of "''s''"] show ?thesis
    by (simp add: d brief_targets silenced_def given_def split: option.split)
qed

section \<open>Delivered once\<close>

lemma insort_snoc: "f y \<le> f x \<Longrightarrow> insort_key f y (ys @ [x]) = insort_key f y ys @ [x]"
  for f :: "'a \<Rightarrow> 'b::linorder"
  by (induction ys) auto

lemma sort_snoc: "\<forall>y \<in> set xs. f y \<le> f x \<Longrightarrow> sort_key f (xs @ [x]) = sort_key f xs @ [x]"
  for f :: "'a \<Rightarrow> 'b::linorder"
  by (induction xs) (simp_all add: insort_snoc)

text \<open>The newest entry survives the pruning.\<close>

lemma prune_keeps:
  assumes "distinct (map fst d)" "k \<notin> fst ` set d" "\<forall>e \<in> set d. snd e \<le> now"
  shows "k \<in> fst ` set (prune_cache now (d @ [(k, now)]))"
proof -
  define old where "old = filter (\<lambda>(k, ts). now - ts \<le> IDEMPOTENCY_TTL_S) d"
  have fresh: "filter (\<lambda>(k, ts). now - ts \<le> IDEMPOTENCY_TTL_S) (d @ [(k, now)]) = old @ [(k, now)]"
    by (simp add: old_def IDEMPOTENCY_TTL_S_def)
  have sorted: "sort_key snd (old @ [(k, now)]) = sort_key snd old @ [(k, now)]"
    using assms(3) by (intro sort_snoc) (auto simp: old_def)
  let ?n = "length (old @ [(k, now)]) - IDEMPOTENCY_MAX_ENTRIES"
  have "?n \<le> length old" by (simp add: IDEMPOTENCY_MAX_ENTRIES_def)
  then have "set (take ?n (map fst (sort_key snd (old @ [(k, now)])))) \<subseteq> fst ` set old"
    using set_take_subset [of ?n "map fst (sort_key snd old)"] by (simp add: sorted)
  moreover have "k \<notin> fst ` set old" using assms(2) by (auto simp: old_def)
  ultimately have "k \<notin> set (take ?n (map fst (sort_key snd (old @ [(k, now)]))))" by blast
  then show ?thesis unfolding prune_cache_def Let_def fresh by (auto simp: image_iff)
qed



end
