(* ===== verification/Spec2Isabelle.thy ===== *)
theory Spec2Isabelle
  imports Authz_Properties Bash_Properties Registry_Properties Schedule_Properties
    Pipeline_Properties Executor_Properties Compaction_Properties Query_Properties
    Task_Properties Subagent_Properties File_Properties Session_Properties
    Turn_Properties Manager_Properties Gateway_Properties Delivery_Properties
begin

text \<open>
  \<^bold>\<open>Mustang kernel: what is modelled, what is shown.\<close>

  Mustang is an agent kernel in Python. A session owns an orchestrator; a prompt makes it loop between
  the model provider and the tools the model calls. Every tool call passes an authorizer; background
  tasks and cron tasks run beside the sessions. All paths below are relative to
  \<open>src/src/kernel/kernel/\<close>, the package this development covers.

  \<^bold>\<open>How the parts interact.\<close> The query loop (\<open>orchestrator/loop/\<close>) prepares the conversation history
  (compaction passes), streams a response, and hands its tool calls to the executor. The executor
  partitions them into batches and runs each call through the pipeline (\<open>orchestrator/tools_exec/\<close>): input
  validation, the tool authorizer (\<open>tool_authz/\<close>: session grants, mode, plan files, rule engine, bash
  judge), the permission request to the client, the lifecycle hooks, the tool, the result. The
  results go back into the history. At a turn boundary the loop drains the session's task registry
  (\<open>tasks/\<close>) into reminders, which open the next prompt. The agent tool runs a child orchestrator. The
  registry of tools (\<open>tools/\<close>) decides which tools the model sees. The session manager (\<open>session/\<close>)
  queues the prompts of a session, turns the events of a query into log rows and client updates, and
  rebuilds a session from its rows. Gateways (\<open>gateways/\<close>) map the channels of messaging platforms to
  sessions. The scheduler (\<open>schedule/\<close>) fires cron tasks under a claim protocol that several kernels
  share through one database; each runs in a session of its own and its result is delivered to others.

  \<^bold>\<open>Theories.\<close>

  \<^item> \<open>Prelude\<close>: results (\<open>exn + 'a\<close>), Python string methods, decimal printing, lemma collections.
  \<^item> \<open>Tool_Types\<close>: tool kinds, JSON inputs, the authorize context, the tool contract (\<open>tools/tool.py\<close>,
    \<open>tools/types.py\<close>, \<open>orchestrator/tool_kinds.py\<close>).
  \<^item> \<open>Rules\<close>, \<open>Rule_Engine\<close>, \<open>Grants\<close>, \<open>Classifier\<close>, \<open>Hooks\<close>, \<open>Plans\<close>, \<open>Authorizer\<close>: \<open>tool_authz/*.py\<close>,
    \<open>hooks/types.py\<close>, \<open>hooks/registry.py\<close>, \<open>hooks/__init__.py\<close>, \<open>plans.py\<close>. The state is the record
    \<open>authorizer\<close> (rule store, grant cache, judge counters, slug cache); \<open>authorize\<close> is its operation.
  \<^item> \<open>Py_Text\<close>, \<open>Bash_Risk\<close>: the regular expressions, \<open>shlex\<close>, \<open>fnmatch\<close> that \<open>tools/builtin/bash.py\<close> uses,
    and its risk assessment, matcher, warnings and input validation.
  \<^item> \<open>Tool_Registry\<close>: \<open>tools/registry.py\<close>, \<open>tools/__init__.py\<close>, \<open>tools/mcp_adapter.py\<close> and
    \<open>orchestrator/tools_exec/partition.py\<close>.
  \<^item> \<open>Pipeline\<close>, \<open>Executor\<close>: \<open>orchestrator/tools_exec/*.py\<close>, the permission callback of
    \<open>session/turns/permission.py\<close>. A call is a function from the executor's state to its events, its
    ending and the new state; a concurrent batch is a machine of tasks, a semaphore and queues whose
    steps (\<open>batch_step\<close>) may come in any order.
  \<^item> \<open>History\<close>, \<open>Compaction\<close>: \<open>orchestrator/history/*.py\<close>, \<open>orchestrator/compact/*.py\<close>, the message types
    of \<open>llm/types.py\<close>. \<open>paired\<close> and \<open>settled\<close> state what providers require of a conversation.
  \<^item> \<open>Query_Loop\<close>: \<open>orchestrator/loop/*.py\<close>, \<open>orchestrator/reminders.py\<close>, \<open>orchestrator/hooks.py\<close>.
  \<^item> \<open>Mailboxes\<close>, \<open>Tasks\<close>, \<open>Task_Session\<close>: the locale of a queue shared by owners; \<open>tasks/*.py\<close>,
    \<open>orchestrator/notifications.py\<close>, what the tools \<open>agent\<close>, \<open>send_message\<close>, \<open>task_stop\<close>, \<open>todo_write\<close>,
    \<open>monitor\<close> and background \<open>bash\<close> do to the registry; sequences of those operations (\<open>bg_run\<close>).
  \<^item> \<open>Subagents\<close>: \<open>orchestrator/orchestrator.py\<close> and \<open>orchestrator/agents.py\<close>.
  \<^item> \<open>Schedule_Types\<close>, \<open>Cron_Store\<close>, \<open>Cron_Scheduler\<close>, \<open>Cron_Protocol\<close>: \<open>schedule/*.py\<close>; the last is the
    transition system of several kernels over one store and an abstract lock it refines.
  \<^item> \<open>Files\<close>, \<open>File_Tools\<close>: a file system with directories, links and access errors; the file-state cache
    and the tools that read, edit and write (\<open>tools/file_state.py\<close>, \<open>tools/builtin/file_*.py\<close>).
  \<^item> \<open>Session_Log\<close>: rows, store, spilled values, the writer and what \<open>load.py\<close> rebuilds from rows.
    \<open>Session_Stream\<close>: what a turn writes and sends to clients, and the replay. \<open>Resume\<close>: the messages the
    rows of a turn give back.
  \<^item> \<open>Turn_Queue\<close>: the turn in flight, the queue and the tasks of a session as a machine (\<open>turn_step\<close>).
  \<^item> \<open>Session_Pages\<close>, \<open>Session_Manager\<close>, \<open>User_Repl\<close>: the listing with its cursors (and the base64 it uses),
    the requests on the sessions in memory (record \<open>manager\<close>), the user's own executions.
  \<^item> \<open>Gateways\<close>, \<open>Cron_Delivery\<close>: \<open>gateways/*.py\<close>, \<open>gateways/discord/adapter.py\<close>, \<open>commands/*.py\<close>;
    \<open>schedule/executor.py\<close> and \<open>schedule/delivery.py\<close>. An adapter is a machine (\<open>gw_step\<close>) of a task per
    message, a lock per channel and a table of open permission requests.
  \<^item> The theories named \<open>*_Properties\<close> hold the properties and their witnesses.

  \<^bold>\<open>What the lemmas show.\<close>

  \<^item> Authorization: a deny rule always wins, every allowance rests on a documented ground, plan mode and
    session grants do what they promise, the rule scan equals its declarative reading, the judge keeps
    its denial budget, rules round-trip through their notation. Where a mode is dropped, an
    unoffered grant is accepted, or a child agent escapes both, a theorem says so.
  \<^item> Bash: what a command must look like to be allowed, that dangerous ones are denied.
  \<^item> Tool registry: snapshots are exact, batches are maximal and keep order.
  \<^item> Pipeline and executor: a tool runs only with permission, a finished run yields exactly one result,
    a batch delivers every output in order under every schedule, is bounded and never deadlocks.
  \<^item> Conversation: the cheap compaction passes and whole queries keep tool uses and results paired, also
    when cancelled; a query with a turn limit ends; when a summary pass orphans results.
  \<^item> Background tasks: in a session of one agent the waiting notices are exactly the finished tasks
    and each is reported once; mail is in order; notices reach the next prompt; what is lost when
    several agents share the registry, when a monitor ends, when a task is stopped.
  \<^item> Scheduling: no task is executed by two kernels at once, stored tasks are read back, repeat limits
    are met; where a stale listing or a stale status breaks the protocol. Every execution ends as one
    record, its result is sent once and reaches the creator's session if that is in memory; who is told
    nothing although the result counts as delivered; that a time limit does not stop a turn.
  \<^item> Files: an edit changes what it says, what was not read or has changed since is not overwritten,
    windows and pages cover a file.
  \<^item> Sessions: a reloaded session has the conversation it had, whatever its turns did; turns run in order
    and each is answered unless a write fails, after which none is; the pages of a listing are the
    listing; a user's title stays; what a reload, an overlapping turn or a late execution breaks.
  \<^item> Gateways: a channel has one session, replies are cut without loss, channels are read back from their
    file; where a second permission request, a deleted session or a command goes wrong.

  \<^bold>\<open>Conventions.\<close>

  \<^item> Python strings are lists of Latin-1 characters, eight of them standing for the em dash, the
    warning sign and other marks outside that range (see \<open>Prelude\<close>). Times are exact rationals.
  \<^item> Code that may raise returns a result; what a caller catches is a branch of the caller.
  \<^item> The provider is the list of its responses, one per request; a response carries its chunks, how
    the stream ended and the executor's round on its calls. A run that has used up the list waits.
  \<^item> What is outside the sources is an argument: hash functions, the JSON codec, \<open>croniter\<close> and the
    ISO date parser, the file system as seen by \<open>plans.py\<close>, the client's answers, the tools themselves,
    processes. Hypotheses about them are premises of the theorems that need them.
  \<^item> The code shares mutable objects in two places where it matters, and the model does the same: a
    non-durable cron task is the stored object itself, and a background task is updated in place.
  \<^item> A pipeline run is atomic on the shared executor state; its interleaving with the other runs of a
    batch is that of its outputs.

  \<^bold>\<open>Bounds.\<close> No definition uses fuel except the regular-expression matcher, where a star iterates at most
  as often as the text is long: an iteration that consumes nothing adds no match. \<open>follow\<close> asks for a given number
  of pages; one more than there are sessions is enough. Constants of the code:
  10 slug retries, judge budget 3 in a row and 20 in all, lease 120 s, two reactive and three
  output-limit retries, 200 turns for a child, 50 monitor lines, 10 concurrent tools, 5 recent turns.

  \<^bold>\<open>Not modelled.\<close> Process execution and task output files, prompt building, hook discovery and manifests,
  schema migrations, the ACP protocol and the Discord connection, MCP transport, skills, memory, model
  providers: they are I/O, wiring or texts. A cancellation is modelled where the stream or the tool
  round is interrupted, not during a summary pass. While a cron execution waits for its turn, or a turn
  for its events, what the rest of the kernel does is a parameter. \<open>src/archive\<close> is an earlier version,
  \<open>src/probe\<close> and \<open>src/cli\<close> are clients.
\<close>

end
